(* ===== verification/Prelude.thy ===== *)
theory Prelude
  imports Complex_Main "HOL-Library.Sublist"
begin

text \<open>
  Shared base of the development.

  \<^item> Errors: the HTTP exceptions and database errors that the services raise, as values.
  \<^item> Actions: an \<open>async\<close> method that reads and writes the database is a function from the
    database to a result and the new database. A raised exception is an \<open>Inl\<close>; what was
    written before it stays written, unless the writes stand inside \<open>transaction\<close>, which
    rolls them back (\<open>prisma.$transaction\<close>).
  \<^item> Decimals: \<open>Prisma.Decimal\<close> values are rationals; \<open>round2\<close> is \<open>toFixed(2)\<close> and the
    rounding of a \<open>Decimal(20,2)\<close> column (half away from zero).
  \<^item> Tables: lists of rows in insertion order, with a lookup and an update by condition.
  \<^item> \<open>keeps\<close>: the predicate transformer for invariants and frame conditions, with one rule
    per action combinator, so that an operation's invariant follows from those of its steps.
\<close>

section \<open>Errors\<close>

text \<open>\<open>ErrorCodes\<close> of common/constants.ts.\<close>

datatype ecode =
    VALIDATION_FAILED | UNAUTHORIZED | FORBIDDEN | INVALID_CREDENTIALS | ACCOUNT_INACTIVE
  | ACCOUNT_SUSPENDED | API_KEY_REVOKED | SERVICE_NOT_GRANTED | CHANNEL_NOT_ALLOWED
  | WALLET_FROZEN | WALLET_NOT_FOUND | WALLET_ACTIONS_NOT_GRANTED | INSUFFICIENT_FUNDS
  | DUPLICATE_REFERENCE | INVALID_REFERENCE | INVALID_SENDER | NOT_FOUND | CONFLICT
  | PROVIDER_ERROR | RATE_LIMITED | INTERNAL

text \<open>The NestJS exception classes the code throws, each with the code in its body.\<close>

datatype err =
    BadRequest ecode
  | Unauthorized ecode
  | Forbidden ecode
  | NotFound ecode
  | Conflict ecode
  | JsError string           \<comment> \<open>a plain \<open>Error\<close> with this message\<close>
  | UniqueViolation          \<comment> \<open>Prisma P2002: a unique column already holds the value\<close>
  | ForeignKeyViolation      \<comment> \<open>Prisma P2003\<close>
  | RecordNotFound           \<comment> \<open>Prisma P2025: update of a row that does not exist\<close>
  | DecimalError             \<comment> \<open>\<open>new Prisma.Decimal\<close> of a string that is no number\<close>

section \<open>Actions\<close>

type_synonym ('s, 'a) action = "'s \<Rightarrow> (err + 'a) \<times> 's"

definition ret :: "'a \<Rightarrow> ('s, 'a) action" where
  "ret x = (\<lambda>s. (Inr x, s))"

definition raise :: "err \<Rightarrow> ('s, 'a) action" where
  "raise e = (\<lambda>s. (Inl e, s))"

definition andThen :: "('s, 'a) action \<Rightarrow> ('a \<Rightarrow> ('s, 'b) action) \<Rightarrow> ('s, 'b) action" where
  "andThen m f = (\<lambda>s. case m s of (Inl e, t) \<Rightarrow> (Inl e, t) | (Inr x, t) \<Rightarrow> f x t)"

text \<open>Sequencing that ignores the first result: \<open>await m; k\<close>.\<close>

abbreviation thenDo :: "('s, 'a) action \<Rightarrow> ('s, 'b) action \<Rightarrow> ('s, 'b) action" where
  "thenDo m k \<equiv> andThen m (\<lambda>_. k)"

definition query :: "('s \<Rightarrow> 'a) \<Rightarrow> ('s, 'a) action" where
  "query f = (\<lambda>s. (Inr (f s), s))"

definition modify :: "('s \<Rightarrow> 's) \<Rightarrow> ('s, unit) action" where
  "modify g = (\<lambda>s. (Inr (), g s))"

text \<open>\<open>if (!c) throw e\<close>.\<close>

definition require :: "bool \<Rightarrow> err \<Rightarrow> ('s, unit) action" where
  "require c e = (if c then ret () else raise e)"

text \<open>A lookup followed by \<open>if (!row) throw e\<close>.\<close>

definition fetch :: "err \<Rightarrow> ('s \<Rightarrow> 'a option) \<Rightarrow> ('s, 'a) action" where
  "fetch e q = (\<lambda>s. case q s of None \<Rightarrow> (Inl e, s) | Some x \<Rightarrow> (Inr x, s))"

text \<open>\<open>prisma.$transaction(async tx => m)\<close>: an exception undoes every write of \<open>m\<close>.\<close>

definition transaction :: "('s, 'a) action \<Rightarrow> ('s, 'a) action" where
  "transaction m = (\<lambda>s. case m s of (Inl e, t) \<Rightarrow> (Inl e, s) | (Inr x, t) \<Rightarrow> (Inr x, t))"

text \<open>\<open>try { m } catch (e) { h e }\<close>.\<close>

definition attempt :: "('s, 'a) action \<Rightarrow> (err \<Rightarrow> ('s, 'a) action) \<Rightarrow> ('s, 'a) action" where
  "attempt m h = (\<lambda>s. case m s of (Inl e, t) \<Rightarrow> h e t | (Inr x, t) \<Rightarrow> (Inr x, t))"

text \<open>A pure step that may throw.\<close>

definition liftE :: "err + 'a \<Rightarrow> ('s, 'a) action" where
  "liftE r = (case r of Inl e \<Rightarrow> raise e | Inr x \<Rightarrow> ret x)"

text \<open>\<open>for (const x of xs) await f(x)\<close>: an exception leaves the loop.\<close>

fun forEach :: "('x \<Rightarrow> ('s, unit) action) \<Rightarrow> 'x list \<Rightarrow> ('s, unit) action" where
  "forEach f [] = ret ()"
| "forEach f (x # xs) = thenDo (f x) (forEach f xs)"

text \<open>A loop that accumulates a value.\<close>

fun foldAct :: "('x \<Rightarrow> 'a \<Rightarrow> ('s, 'a) action) \<Rightarrow> 'x list \<Rightarrow> 'a \<Rightarrow> ('s, 'a) action" where
  "foldAct f [] a = ret a"
| "foldAct f (x # xs) a = andThen (f x a) (foldAct f xs)"

lemmas action_defs =
  ret_def raise_def andThen_def query_def modify_def require_def fetch_def
  transaction_def attempt_def

named_theorems run "what an action does on a given state"

lemma andThen_ret [simp]: "andThen (ret x) f = f x"
  by (simp add: andThen_def ret_def)

lemma andThen_raise [simp]: "andThen (raise e) f = raise e"
  by (simp add: andThen_def raise_def)

lemma ret_run [run]: "ret x s = (Inr x, s)"
  by (simp add: ret_def)

lemma raise_run [run]: "raise e s = (Inl e, s)"
  by (simp add: raise_def)

lemma query_run [run, simp]: "query f s = (Inr (f s), s)"
  by (simp add: query_def)

lemma modify_run [run, simp]: "modify g s = (Inr (), g s)"
  by (simp add: modify_def)

lemma require_True [simp]: "require True e = ret ()"
  by (simp add: require_def)

lemma require_False [simp]: "require False e = raise e"
  by (simp add: require_def)

lemma require_run [run]: "require c e s = (if c then (Inr (), s) else (Inl e, s))"
  by (simp add: require_def ret_def raise_def)

lemma andThen_query [run, simp]: "andThen (query f) k s = k (f s) s"
  by (simp add: andThen_def)

lemma andThen_modify [run, simp]: "andThen (modify g) k s = k () (g s)"
  by (simp add: andThen_def)

lemma andThen_require [run]: "andThen (require c e) k s = (if c then k () s else (Inl e, s))"
  by (simp add: andThen_def require_def ret_def raise_def)

lemma andThen_fetch [run]:
  "andThen (fetch e q) k s = (case q s of None \<Rightarrow> (Inl e, s) | Some x \<Rightarrow> k x s)"
  by (simp add: andThen_def fetch_def split: option.split)

lemma liftE_simps [simp]: "liftE (Inl e) = raise e" "liftE (Inr x) = ret x"
  by (simp_all add: liftE_def)

lemma andThen_liftE [run]:
  "andThen (liftE r) k s = (case r of Inl e \<Rightarrow> (Inl e, s) | Inr x \<Rightarrow> k x s)"
  by (cases r) (simp_all add: raise_run)

lemma andThen_transaction:
  "andThen (transaction m) k s = (case m s of (Inl e, t) \<Rightarrow> (Inl e, s) | (Inr x, t) \<Rightarrow> k x t)"
  by (simp add: andThen_def transaction_def split: prod.split sum.split)

lemma andThen_Inr: "m s = (Inr x, t) \<Longrightarrow> andThen m k s = k x t"
  by (simp add: andThen_def)

lemma andThen_Inl: "m s = (Inl e, t) \<Longrightarrow> andThen m k s = (Inl e, t)"
  by (simp add: andThen_def)

lemma andThen_assoc: "andThen (andThen m f) g = andThen m (\<lambda>x. andThen (f x) g)"
  by (rule ext) (simp add: andThen_def split: prod.split sum.split)

lemma andThen_InrD:
  "andThen m k s = (Inr y, u) \<Longrightarrow> \<exists>x t. m s = (Inr x, t) \<and> k x t = (Inr y, u)"
  by (simp add: andThen_def split: prod.splits sum.splits)

lemma snd_andThen_pure: "(\<And>x t. snd (f x t) = t) \<Longrightarrow> snd (andThen m f s) = snd (m s)"
  by (simp add: andThen_def split: prod.split sum.split)

lemma transaction_Inl: "transaction m s = (Inl e, t) \<Longrightarrow> t = s"
  by (simp add: transaction_def split: prod.splits sum.splits)

lemma transaction_Inr: "transaction m s = (Inr x, t) \<longleftrightarrow> m s = (Inr x, t)"
  by (auto simp add: transaction_def split: prod.splits sum.splits)

section \<open>Preservation\<close>

definition keeps :: "('s \<Rightarrow> bool) \<Rightarrow> ('s, 'a) action \<Rightarrow> bool" where
  "keeps P m \<longleftrightarrow> (\<forall>s. P s \<longrightarrow> P (snd (m s)))"

named_theorems keeps_rules "preservation of a predicate, one rule per action"

lemma keepsI: "(\<And>s. P s \<Longrightarrow> P (snd (m s))) \<Longrightarrow> keeps P m"
  by (simp add: keeps_def)

lemma keepsD: "keeps P m \<Longrightarrow> P s \<Longrightarrow> P (snd (m s))"
  by (simp add: keeps_def)

lemma keeps_runD: "keeps P m \<Longrightarrow> m s = (r, t) \<Longrightarrow> P s \<Longrightarrow> P t"
  by (metis keeps_def snd_conv)

lemma keeps_ret [keeps_rules]: "keeps P (ret x)"
  by (simp add: keeps_def ret_def)

lemma keeps_raise [keeps_rules]: "keeps P (raise e)"
  by (simp add: keeps_def raise_def)

lemma keeps_query [keeps_rules]: "keeps P (query f)"
  by (simp add: keeps_def)

lemma keeps_require [keeps_rules]: "keeps P (require c e)"
  by (simp add: keeps_def require_def ret_def raise_def)

lemma keeps_fetch [keeps_rules]: "keeps P (fetch e q)"
  by (simp add: keeps_def fetch_def split: option.split)

lemma keeps_liftE [keeps_rules]: "keeps P (liftE r)"
  by (cases r) (simp_all add: keeps_ret keeps_raise)

lemma keeps_andThen [keeps_rules]:
  "keeps P m \<Longrightarrow> (\<And>x. keeps P (f x)) \<Longrightarrow> keeps P (andThen m f)"
  by (fastforce simp: keeps_def andThen_def split: prod.split sum.split)

lemma keeps_modify: "(\<And>s. P s \<Longrightarrow> P (g s)) \<Longrightarrow> keeps P (modify g)"
  by (simp add: keeps_def)

lemma keeps_transaction [keeps_rules]: "keeps P m \<Longrightarrow> keeps P (transaction m)"
  by (fastforce simp: keeps_def transaction_def split: prod.split sum.split)

lemma keeps_attempt [keeps_rules]:
  "keeps P m \<Longrightarrow> (\<And>e. keeps P (h e)) \<Longrightarrow> keeps P (attempt m h)"
  by (fastforce simp: keeps_def attempt_def split: prod.split sum.split)

lemma keeps_if [keeps_rules]:
  "(c \<Longrightarrow> keeps P m) \<Longrightarrow> (\<not> c \<Longrightarrow> keeps P n) \<Longrightarrow> keeps P (if c then m else n)"
  by simp

lemma keeps_case_option [keeps_rules]:
  "keeps P m \<Longrightarrow> (\<And>x. keeps P (f x)) \<Longrightarrow> keeps P (case z of None \<Rightarrow> m | Some x \<Rightarrow> f x)"
  by (simp split: option.split)

lemma keeps_case_prod [keeps_rules]:
  "(\<And>x y. keeps P (f x y)) \<Longrightarrow> keeps P (case z of (x, y) \<Rightarrow> f x y)"
  by (simp split: prod.split)

lemma keeps_Let [keeps_rules]: "(\<And>x. keeps P (f x)) \<Longrightarrow> keeps P (Let v f)"
  by (simp add: Let_def)

lemma keeps_forEach [keeps_rules]: "(\<And>x. keeps P (f x)) \<Longrightarrow> keeps P (forEach f xs)"
  by (induction xs) (auto intro: keeps_ret keeps_andThen)

lemma keeps_foldAct [keeps_rules]: "(\<And>x a. keeps P (f x a)) \<Longrightarrow> keeps P (foldAct f xs a)"
  by (induction xs arbitrary: a) (auto intro: keeps_ret keeps_andThen)

section \<open>Decimals\<close>

text \<open>
  The argument of \<open>new Prisma.Decimal\<close>: a finite value, an infinity or NaN, or a string
  that is no number (which raises). Values are exact rationals: decimal.js rounds a result to 20
  significant digits, which changes nothing for money below \<open>10^14\<close> (see Fees).
\<close>

datatype decimal = Fin rat | NonFinite | Malformed

definition round2 :: "rat \<Rightarrow> rat" where
  "round2 x = (if 0 \<le> x then of_int \<lfloor>x * 100 + 1 / 2\<rfloor> / 100
               else - (of_int \<lfloor>- x * 100 + 1 / 2\<rfloor> / 100))"

definition is_cents :: "rat \<Rightarrow> bool" where
  "is_cents x \<longleftrightarrow> of_int \<lfloor>x * 100\<rfloor> = x * 100"

lemma floor_rat_numeral [simp]: "\<lfloor>numeral a / (numeral b :: rat)\<rfloor> = numeral a div numeral b"
  using floor_divide_of_int_eq [of "numeral a" "numeral b", where ?'a = rat] by simp

lemma floor_rat_one_numeral [simp]: "\<lfloor>1 / (numeral b :: rat)\<rfloor> = 1 div numeral b"
  using floor_divide_of_int_eq [of "1" "numeral b", where ?'a = rat] by simp

lemma is_centsE:
  assumes "is_cents x"
  obtains k :: int where "x = of_int k / 100"
  using assms by (auto simp: is_cents_def field_simps)

lemma is_cents_of_int [simp]: "is_cents (of_int k / 100)"
  by (simp add: is_cents_def)

lemma is_centsI: "x = of_int k / 100 \<Longrightarrow> is_cents x"
  by (simp only: is_cents_of_int)

lemma is_cents_0 [simp]: "is_cents 0"
  by (simp add: is_cents_def)

lemma is_cents_add [intro, simp]:
  assumes "is_cents a" and "is_cents b"
  shows "is_cents (a + b)"
proof -
  obtain k l :: int where "a = of_int k / 100" and "b = of_int l / 100"
    using assms by (metis is_centsE)
  then have "a + b = of_int (k + l) / 100" by (simp add: field_simps)
  then show ?thesis by (rule is_centsI)
qed

lemma is_cents_uminus [intro, simp]: "is_cents a \<Longrightarrow> is_cents (- a)"
proof -
  assume "is_cents a"
  then obtain k :: int where "a = of_int k / 100" by (rule is_centsE)
  then have "- a = of_int (- k) / 100" by simp
  then show ?thesis by (rule is_centsI)
qed

lemma is_cents_diff [intro, simp]: "is_cents a \<Longrightarrow> is_cents b \<Longrightarrow> is_cents (a - b)"
  using is_cents_add [of a "- b"] by simp

lemma is_cents_abs [intro, simp]: "is_cents a \<Longrightarrow> is_cents \<bar>a\<bar>"
  by (simp add: abs_if)

lemma is_cents_round2 [simp]: "is_cents (round2 x)"
  by (simp add: round2_def)

lemma round2_cents [simp]:
  assumes "is_cents x"
  shows "round2 x = x"
proof -
  obtain k :: int where k: "x = of_int k / 100" using assms by (rule is_centsE)
  have 1: "\<lfloor>(of_int k + 1 / 2 :: rat)\<rfloor> = k" by linarith
  have 2: "\<lfloor>(- of_int k + 1 / 2 :: rat)\<rfloor> = - k" by linarith
  show ?thesis by (simp add: round2_def k 1 2)
qed

lemma round2_idem: "round2 (round2 x) = round2 x"
  by simp

lemma round2_0 [simp]: "round2 0 = 0"
  by simp

lemma round2_neg: "round2 (- x) = - round2 x"
  by (cases "x = 0") (auto simp: round2_def)

lemma round2_error: "\<bar>round2 x - x\<bar> \<le> 1 / 200"
proof -
  have *: "\<bar>of_int \<lfloor>y * 100 + 1 / 2\<rfloor> / 100 - y\<bar> \<le> 1 / 200" for y :: rat
    using floor_correct [of "y * 100 + 1 / 2"] by linarith
  show ?thesis
  proof (cases "0 \<le> x")
    case True
    then show ?thesis using * [of x] by (simp add: round2_def)
  next
    case False
    then show ?thesis using * [of "- x"] by (simp add: round2_def abs_minus_commute add.commute)
  qed
qed

lemma round2_nonneg [simp]: "0 \<le> x \<Longrightarrow> 0 \<le> round2 x"
  by (simp add: round2_def)

lemma round2_mono_nonneg: "0 \<le> x \<Longrightarrow> x \<le> y \<Longrightarrow> round2 x \<le> round2 y"
  by (auto simp: round2_def divide_right_mono floor_mono)

lemma round2_le_cents: "0 \<le> x \<Longrightarrow> x \<le> c \<Longrightarrow> is_cents c \<Longrightarrow> round2 x \<le> c"
  using round2_mono_nonneg [of x c] by simp

text \<open>Adding to a stored balance rounds as the added amount does.\<close>

lemma round2_add_cents:
  assumes "is_cents b" and "0 \<le> b" and "0 \<le> d"
  shows "round2 (b + d) = b + round2 d"
proof -
  obtain k :: int where k: "b = of_int k / 100" using assms(1) by (rule is_centsE)
  have "(b + d) * 100 + 1 / 2 = of_int k + (d * 100 + 1 / 2)"
    using k by (simp add: algebra_simps)
  then have "\<lfloor>(b + d) * 100 + 1 / 2\<rfloor> = k + \<lfloor>d * 100 + 1 / 2\<rfloor>"
    by (simp only: int_add_floor)
  then show ?thesis using assms k by (simp add: round2_def add_divide_distrib)
qed

lemma round2_pos: "1 / 200 \<le> x \<Longrightarrow> 0 < round2 x"
proof -
  assume "1 / 200 \<le> x"
  then have "1 \<le> \<lfloor>x * 100 + 1 / 2\<rfloor>" and "0 \<le> x" by linarith+
  then show ?thesis by (simp add: round2_def)
qed

section \<open>Tables\<close>

definition updateWhere :: "('r \<Rightarrow> bool) \<Rightarrow> ('r \<Rightarrow> 'r) \<Rightarrow> 'r list \<Rightarrow> 'r list" where
  "updateWhere p f rows = map (\<lambda>r. if p r then f r else r) rows"

definition countWhere :: "('r \<Rightarrow> bool) \<Rightarrow> 'r list \<Rightarrow> nat" where
  "countWhere p rows = length (filter p rows)"

text \<open>\<open>skip\<close> and \<open>take\<close> of a query.\<close>

definition window :: "nat \<Rightarrow> nat \<Rightarrow> 'r list \<Rightarrow> 'r list" where
  "window skip n rows = take n (drop skip rows)"

text \<open>\<open>orderBy\<close> ascending and descending; rows of equal key keep their insertion order.\<close>

definition orderAsc :: "('r \<Rightarrow> int) \<Rightarrow> 'r list \<Rightarrow> 'r list" where
  "orderAsc k rows = sort_key k rows"

definition orderDesc :: "('r \<Rightarrow> int) \<Rightarrow> 'r list \<Rightarrow> 'r list" where
  "orderDesc k rows = sort_key (\<lambda>r. - k r) rows"

lemma find_SomeD: "List.find p xs = Some x \<Longrightarrow> x \<in> set xs \<and> p x"
  by (induction xs) (auto split: if_splits)

lemma find_NoneD: "List.find p xs = None \<Longrightarrow> x \<in> set xs \<Longrightarrow> \<not> p x"
  by (auto simp: find_None_iff)

lemma find_append:
  "List.find p (xs @ ys) = (case List.find p xs of None \<Rightarrow> List.find p ys | Some x \<Rightarrow> Some x)"
  by (induction xs) auto

lemma find_unique:
  assumes "x \<in> set xs" and "p x" and "\<And>y. y \<in> set xs \<Longrightarrow> p y \<Longrightarrow> y = x"
  shows "List.find p xs = Some x"
proof (cases "List.find p xs")
  case None
  then show ?thesis using assms(1,2) by (blast dest: find_NoneD)
next
  case (Some y)
  then show ?thesis using assms(3) [of y] by (simp add: find_SomeD)
qed

lemma length_updateWhere [simp]: "length (updateWhere p f xs) = length xs"
  by (simp add: updateWhere_def)

lemma updateWhere_Nil [simp]: "updateWhere p f [] = []"
  by (simp add: updateWhere_def)

lemma updateWhere_Cons [simp]:
  "updateWhere p f (x # xs) = (if p x then f x else x) # updateWhere p f xs"
  by (simp add: updateWhere_def)

lemma map_updateWhere:
  "(\<And>r. g (f r) = g r) \<Longrightarrow> map g (updateWhere p f xs) = map g xs"
  by (simp add: updateWhere_def)

lemma set_updateWhere:
  "y \<in> set (updateWhere p f xs) \<longleftrightarrow> (\<exists>x \<in> set xs. y = (if p x then f x else x))"
  by (auto simp: updateWhere_def)

lemma in_updateWhereE:
  assumes "y \<in> set (updateWhere p f xs)"
  obtains (updated) x where "x \<in> set xs" and "p x" and "y = f x"
  | (kept) "y \<in> set xs" and "\<not> p y"
  using assms by (auto simp: updateWhere_def split: if_splits)

lemma updateWhere_same: "(\<And>r. p r \<Longrightarrow> f r = g r) \<Longrightarrow> updateWhere p f xs = updateWhere p g xs"
  by (simp add: updateWhere_def)

lemma updateWhere_none: "(\<And>x. x \<in> set xs \<Longrightarrow> \<not> p x) \<Longrightarrow> updateWhere p f xs = xs"
  by (simp add: updateWhere_def map_idI)

lemma find_updateWhere:
  assumes "\<And>r. q (f r) = q r"
  shows "List.find q (updateWhere p f xs)
           = map_option (\<lambda>r. if p r then f r else r) (List.find q xs)"
  using assms by (induction xs) auto

end
