(* ===== verification/Strings.thy ===== *)
theory Strings
  imports Prelude
begin

text \<open>
  The string operations of JavaScript that the services use, on ASCII strings: character
  classes, case, trimming, prefixes, \<open>parseInt\<close>, \<open>toString(36)\<close> and the truthiness of an
  optional string.
\<close>

section \<open>Character classes\<close>

definition isDigit :: "char \<Rightarrow> bool" where
  "isDigit c \<longleftrightarrow> 48 \<le> (of_char c :: nat) \<and> (of_char c :: nat) \<le> 57"

definition isUpperAZ :: "char \<Rightarrow> bool" where
  "isUpperAZ c \<longleftrightarrow> 65 \<le> (of_char c :: nat) \<and> (of_char c :: nat) \<le> 90"

definition isLowerAZ :: "char \<Rightarrow> bool" where
  "isLowerAZ c \<longleftrightarrow> 97 \<le> (of_char c :: nat) \<and> (of_char c :: nat) \<le> 122"

definition isSpaceChar :: "char \<Rightarrow> bool" where
  "isSpaceChar c \<longleftrightarrow> (of_char c :: nat) \<in> {9, 10, 11, 12, 13, 32}"

definition digitOf :: "char \<Rightarrow> nat" where
  "digitOf c = of_char c - 48"

section \<open>Case, trimming, prefixes\<close>

definition toUpperChar :: "char \<Rightarrow> char" where
  "toUpperChar c = (if isLowerAZ c then char_of (of_char c - 32 :: nat) else c)"

definition toUpperCase :: "string \<Rightarrow> string" where
  "toUpperCase s = map toUpperChar s"

definition toLowerChar :: "char \<Rightarrow> char" where
  "toLowerChar c = (if isUpperAZ c then char_of (of_char c + 32 :: nat) else c)"

definition toLowerCase :: "string \<Rightarrow> string" where
  "toLowerCase s = map toLowerChar s"

definition trim :: "string \<Rightarrow> string" where
  "trim s = rev (dropWhile isSpaceChar (rev (dropWhile isSpaceChar s)))"

definition startsWith :: "string \<Rightarrow> string \<Rightarrow> bool" where
  "startsWith s p \<longleftrightarrow> take (length p) s = p"

text \<open>\<open>s.replace(/[^\\d]/g, '')\<close>.\<close>

definition digitsOnly :: "string \<Rightarrow> string" where
  "digitsOnly s = filter isDigit s"

text \<open>\<open>if (s)\<close> for a string that may be missing: the empty string is falsy.\<close>

definition truthy :: "string option \<Rightarrow> bool" where
  "truthy s \<longleftrightarrow> s \<noteq> None \<and> s \<noteq> Some []"

text \<open>\<open>a || b\<close> for strings.\<close>

definition orElse :: "string option \<Rightarrow> string \<Rightarrow> string" where
  "orElse s t = (case s of None \<Rightarrow> t | Some x \<Rightarrow> if x = [] then t else x)"

section \<open>Numbers\<close>

definition BASE36 :: string where
  "BASE36 = ''0123456789ABCDEFGHIJKLMNOPQRSTUVWXYZ''"

text \<open>\<open>n.toString(36).toUpperCase()\<close>.\<close>

fun base36 :: "nat \<Rightarrow> string" where
  "base36 n = (if n < 36 then [BASE36 ! n] else base36 (n div 36) @ [BASE36 ! (n mod 36)])"

declare base36.simps [simp del]

text \<open>\<open>String(n)\<close>.\<close>

fun showNat :: "nat \<Rightarrow> string" where
  "showNat n = (if n < 10 then [char_of (48 + n)] else showNat (n div 10) @ [char_of (48 + n mod 10)])"

declare showNat.simps [simp del]

text \<open>
  \<open>parseInt(s, 10)\<close>: leading white space, an optional sign, then the longest run of digits;
  \<open>None\<close> is NaN. Values are exact integers, where JavaScript rounds those beyond \<open>2^53\<close>.
\<close>

definition digitsValue :: "string \<Rightarrow> int" where
  "digitsValue s = foldl (\<lambda>n c. 10 * n + int (digitOf c)) 0 s"

definition parseInt :: "string \<Rightarrow> int option" where
  "parseInt s =
     (let t = dropWhile isSpaceChar s;
          neg = (t \<noteq> [] \<and> hd t = CHR ''-'');
          body = (if t \<noteq> [] \<and> (hd t = CHR ''-'' \<or> hd t = CHR ''+'') then tl t else t);
          ds = takeWhile isDigit body
      in if ds = [] then None
         else Some (if neg then - digitsValue ds else digitsValue ds))"

lemma isDigit_not_lower [simp]: "isDigit c \<Longrightarrow> \<not> isLowerAZ c"
  by (simp add: isDigit_def isLowerAZ_def)

lemma isUpper_not_lower [simp]: "isUpperAZ c \<Longrightarrow> \<not> isLowerAZ c"
  by (simp add: isUpperAZ_def isLowerAZ_def)

lemma toUpperChar_idem [simp]: "toUpperChar (toUpperChar c) = toUpperChar c"
proof (cases "isLowerAZ c")
  case True
  then have "(of_char c :: nat) - 32 < 256" unfolding isLowerAZ_def by linarith
  with True show ?thesis
    by (auto simp: toUpperChar_def isLowerAZ_def)
qed (simp add: toUpperChar_def)

lemma toUpperCase_idem [simp]: "toUpperCase (toUpperCase s) = toUpperCase s"
  by (simp add: toUpperCase_def)

lemma toUpperCase_id: "\<forall>c \<in> set s. \<not> isLowerAZ c \<Longrightarrow> toUpperCase s = s"
  by (simp add: toUpperCase_def toUpperChar_def map_idI)

lemma length_toUpperCase [simp]: "length (toUpperCase s) = length s"
  by (simp add: toUpperCase_def)

lemma digitsOnly_digits [simp]: "\<forall>c \<in> set (digitsOnly s). isDigit c"
  by (simp add: digitsOnly_def)

lemma digitsOnly_id: "\<forall>c \<in> set s. isDigit c \<Longrightarrow> digitsOnly s = s"
  unfolding digitsOnly_def by (rule filter_True)

lemma trim_id: "s = [] \<or> \<not> isSpaceChar (hd s) \<and> \<not> isSpaceChar (last s) \<Longrightarrow> trim s = s"
proof (cases "s = []")
  case False
  assume "s = [] \<or> \<not> isSpaceChar (hd s) \<and> \<not> isSpaceChar (last s)"
  with False have "dropWhile isSpaceChar s = s" and "dropWhile isSpaceChar (rev s) = rev s"
    by (simp_all add: dropWhile_eq_self_iff hd_rev)
  then show ?thesis by (simp add: trim_def)
qed (simp add: trim_def)

lemma startsWith_append: "startsWith s p \<longleftrightarrow> (\<exists>t. s = p @ t)"
  by (auto simp: startsWith_def) (metis append_take_drop_id)

end
