(* ===== verification/Pagination.thy ===== *)
theory Pagination
  imports Strings
begin

text \<open>
  common/pagination.util.ts and common/pagination.middleware.ts: the page and limit of a list
  request, and the page count of its answer.
\<close>

section \<open>Parameters\<close>

record pagination =
  pg_skip :: int
  pg_take :: int
  pg_page :: int
  pg_limit :: int

record pagination_meta =
  pm_page :: int
  pm_limit :: int
  pm_total :: int
  pm_totalPages :: int

text \<open>\<open>parseInt(String(x ?? d), 10) || d\<close>: a missing, unparsable or zero value is the default.\<close>

definition intParam :: "string option \<Rightarrow> int \<Rightarrow> int" where
  "intParam x d =
     (case x of
        None \<Rightarrow> d
      | Some s \<Rightarrow> (case parseInt s of None \<Rightarrow> d | Some n \<Rightarrow> if n = 0 then d else n))"

definition resolvePagination :: "string option \<Rightarrow> string option \<Rightarrow> int \<Rightarrow> pagination" where
  "resolvePagination pageParam limitParam maxLimit =
     (let page = max 1 (intParam pageParam 1);
          limit = min maxLimit (max 1 (intParam limitParam 20))
      in \<lparr>pg_skip = (page - 1) * limit, pg_take = limit, pg_page = page, pg_limit = limit\<rparr>)"

text \<open>The middleware bounds the limit by 100.\<close>

definition paginationMiddleware :: "string option \<Rightarrow> string option \<Rightarrow> pagination" where
  "paginationMiddleware pageParam limitParam =
     (let page = max 1 (intParam pageParam 1);
          limitRaw = intParam limitParam 20;
          limit = min 100 (max 1 limitRaw)
      in \<lparr>pg_skip = (page - 1) * limit, pg_take = limit, pg_page = page, pg_limit = limit\<rparr>)"

definition buildPaginationMeta :: "int \<Rightarrow> int \<Rightarrow> int \<Rightarrow> pagination_meta" where
  "buildPaginationMeta totalRows page limit =
     \<lparr>pm_page = page, pm_limit = limit, pm_total = totalRows,
      pm_totalPages = max 1 \<lceil>of_int totalRows / (of_int limit :: rat)\<rceil>\<rparr>"

text \<open>The rows of a page: \<open>findMany({ skip, take })\<close>.\<close>

definition pageRows :: "pagination \<Rightarrow> 'r list \<Rightarrow> 'r list" where
  "pageRows p rows = window (nat (pg_skip p)) (nat (pg_take p)) rows"

section \<open>Lemmas\<close>

lemma concat_windows: "concat (map (\<lambda>i. window (i * n) n xs) [0..<m]) = take (m * n) xs"
proof (induction m)
  case (Suc m)
  have "take (Suc m * n) xs = take (m * n) xs @ take n (drop (m * n) xs)"
    by (metis add.commute mult_Suc take_add)
  with Suc show ?case by (simp add: window_def)
qed simp

lemma enough_pages:
  assumes "0 < limit"
  shows "totalRows \<le> max 1 \<lceil>of_int totalRows / (of_int limit :: rat)\<rceil> * limit"
proof -
  have pos: "(0 :: rat) < of_int limit" using assms by simp
  have "(of_int totalRows :: rat) \<le> of_int \<lceil>of_int totalRows / (of_int limit :: rat)\<rceil> * of_int limit"
    by (rule pos_divide_le_eq [THEN iffD1, OF pos le_of_int_ceiling])
  then have "(of_int totalRows :: rat) \<le> of_int (\<lceil>of_int totalRows / (of_int limit :: rat)\<rceil> * limit)"
    by (simp only: of_int_mult)
  then have "totalRows \<le> \<lceil>of_int totalRows / (of_int limit :: rat)\<rceil> * limit"
    by (simp only: of_int_le_iff)
  also have "\<dots> \<le> max 1 \<lceil>of_int totalRows / (of_int limit :: rat)\<rceil> * limit"
    using assms by (intro mult_right_mono) auto
  finally show ?thesis .
qed

section \<open>Properties\<close>

text \<open>Whatever the query string holds, the page is at least 1 and the limit between 1 and its
  maximum, so the rows skipped are never negative; and reading every page up to the reported page
  count, in order, gives every row exactly once.\<close>

theorem pagination_complete:
  assumes "1 \<le> maxLimit" and "p = resolvePagination pageParam limitParam maxLimit"
    and "meta = buildPaginationMeta (int (length rows)) (pg_page p) (pg_limit p)"
  shows "1 \<le> pg_page p \<and> 1 \<le> pg_limit p \<and> pg_limit p \<le> maxLimit \<and> pg_take p = pg_limit p \<and>
    0 \<le> pg_skip p \<and> length (pageRows p rows) \<le> nat (pg_limit p) \<and>
    concat (map (\<lambda>i. pageRows (p\<lparr>pg_page := int i + 1, pg_skip := int i * pg_limit p\<rparr>) rows)
      [0..<nat (pm_totalPages meta)]) = rows"
proof -
  let ?n = "nat (pg_limit p)" and ?m = "nat (pm_totalPages meta)"
  have bounds: "1 \<le> pg_page p" "1 \<le> pg_limit p" "pg_limit p \<le> maxLimit" "pg_take p = pg_limit p"
      "0 \<le> pg_skip p"
    using assms(1) by (simp_all add: assms(2) resolvePagination_def Let_def)
  have "pageRows (p\<lparr>pg_page := int i + 1, pg_skip := int i * pg_limit p\<rparr>) rows = window (i * ?n) ?n rows"
    for i
    using bounds by (simp add: pageRows_def nat_mult_distrib)
  then have "concat (map (\<lambda>i. pageRows (p\<lparr>pg_page := int i + 1, pg_skip := int i * pg_limit p\<rparr>) rows) [0..<?m])
      = take (?m * ?n) rows"
    by (simp add: concat_windows)
  moreover have "length rows \<le> ?m * ?n"
  proof -
    have "int (length rows) \<le> pm_totalPages meta * pg_limit p"
      using enough_pages [of "pg_limit p" "int (length rows)"] bounds
      by (simp add: assms(3) buildPaginationMeta_def)
    moreover have "0 \<le> pm_totalPages meta" by (simp add: assms(3) buildPaginationMeta_def)
    ultimately show ?thesis using bounds by (metis nat_int nat_le_eq_zle nat_mult_distrib of_nat_0_le_iff nat_mono)
  qed
  ultimately show ?thesis using bounds by (simp add: pageRows_def window_def)
qed

theorem pagination_complete_witness:
  "pg_limit (resolvePagination (Some ''-3'') (Some ''1000'') 100) \<le> 100 \<and>
   1 \<le> pg_page (resolvePagination (Some ''-3'') (Some ''1000'') 100)"
  using pagination_complete [of 100 _ "Some ''-3''" "Some ''1000''", OF _ refl refl] by auto

end
