(* ===== verification/Schema.thy ===== *)
theory Schema
  imports Prelude
begin

text \<open>
  The data model of prisma/schema.prisma and the environment of a request.

  Each enum is a datatype, each model is a record of the columns the code reads or writes, and
  the database is a record of tables. Row ids (\<open>cuid()\<close>) are natural numbers taken from a
  counter, so they are fresh. Left out are the columns no code reads back: free text
  (\<open>description\<close>), opaque JSON snapshots (\<open>metadata\<close>, \<open>rawRequest\<close>, \<open>rawResponse\<close>) and the
  trace ids, which only the tracing tables use. Times are milliseconds.
\<close>

section \<open>Enums\<close>

datatype account_status = AcctACTIVE | AcctSUSPENDED
datatype service_key = SvcCOLLECTION | SvcDISBURSEMENT | SvcSMS
datatype user_role = RoleADMIN | RoleSERVICEMAN
datatype wallet_type = WCOLLECTION | WDISBURSEMENT
datatype wallet_status = WalletACTIVE | WalletFROZEN

datatype wallet_tx_type =
    DEPOSIT | WITHDRAWAL | COLLECTION_CREDIT | PAYOUT_DEBIT | BATCH_HOLD | REFUND
  | ADJUSTMENT | TRANSFER_OUT | TRANSFER_IN

datatype settlement_type = SettleMOBILE | SettleBANK
datatype mobile_method = AIRTEL | TIGO | VODACOM | HALOPESA

datatype tx_status =
    TxPENDING | TxPROCESSING | TxSUCCESS | TxFAILED | TxREVERSED | TxREFUNDED | TxEXPIRED

datatype channel = MOBILE_MONEY | BANK

datatype batch_status =
    BatchPENDING | BatchPROCESSING | BatchCOMPLETED | BatchPARTIALLY_FAILED | BatchFAILED
  | BatchCANCELLED

datatype bill_type = BillSUBSCRIPTION | BillPAY_AS_YOU_GO | BillMANUAL
datatype bill_status = BillPENDING | BillPAID | BillCANCELLED
datatype billing_mode = ModeNONE | ModeSUBSCRIPTION | ModePAY_AS_YOU_GO
datatype sms_status = SmsQUEUED | SmsPROCESSING | SmsSENT | SmsDELIVERED | SmsFAILED
datatype sender_type = SenderSHARED | SenderDEDICATED
datatype actor_type = ActorADMIN | ActorSERVICEMAN | ActorAPI_KEY | ActorSYSTEM

datatype webhook_event =
    COLLECTION_STATUS | DISBURSEMENT_STATUS | BATCH_STATUS | SMS_STATUS | WALLET_UPDATE
  | DEPOSIT_STATUS

datatype delivery_status = DlvPENDING | DlvDELIVERED | DlvFAILED | DlvDEAD
datatype job_status = JobPENDING | JobPROCESSING | JobCOMPLETED | JobFAILED | JobDEAD
datatype payout_kind = CUSTOMER | WITHDRAWAL_KIND | AUTO_SWEEP

type_synonym ident = nat

text \<open>Who acted: a staff or key row, or the literal \<open>'system'\<close>.\<close>

datatype who = Row ident | SystemActor

text \<open>An account named by a caller: by its row id or by its public id \<open>ACC-XXXXXXXX\<close>.\<close>

datatype account_key = RowId ident | PublicId string

section \<open>Rows\<close>

record staff_row =
  s_id :: ident
  s_email :: string
  s_passwordHash :: string
  s_name :: string
  s_role :: user_role
  s_isActive :: bool
  s_createdAt :: int

record account_row =
  a_id :: ident
  a_accountId :: string
  a_accountName :: string
  a_sourceCode :: string
  a_contactEmail :: "string option"
  a_contactPhone :: "string option"
  a_status :: account_status
  a_billingMode :: billing_mode
  a_autoSweep :: bool
  a_suspendedBy :: "who option"
  a_suspendReason :: "string option"
  a_createdAt :: int

record api_key_row =
  k_id :: ident
  k_account :: ident
  k_name :: string
  k_prefix :: string
  k_keyHash :: string
  k_revokedAt :: "int option"
  k_createdAt :: int

text \<open>The permission's \<open>meta\<close>: the keys the code looks at.\<close>

record permission_meta =
  m_channels :: "channel list option"
  m_payAsYouGo :: bool
  m_walletActions :: bool

record permission_row =
  pm_account :: ident
  pm_service :: service_key
  pm_granted :: bool
  pm_meta :: "permission_meta option"
  pm_grantedBy :: "who option"

record wallet_row =
  w_id :: ident
  w_account :: ident
  w_type :: wallet_type
  w_currency :: string
  w_balance :: rat
  w_status :: wallet_status

record wallet_tx_row =
  t_id :: ident
  t_wallet :: ident
  t_type :: wallet_tx_type
  t_amount :: rat
  t_balanceBefore :: rat
  t_balanceAfter :: rat
  t_currency :: string
  t_reference :: "string option"
  t_createdBy :: "who option"
  t_createdAt :: int

record settlement_row =
  sa_id :: ident
  sa_account :: ident
  sa_type :: settlement_type
  sa_method :: "mobile_method option"
  sa_phoneNumber :: "string option"
  sa_bankName :: "string option"
  sa_bankInitials :: "string option"
  sa_accountNumber :: "string option"
  sa_accountName :: "string option"
  sa_isDefault :: bool
  sa_isActive :: bool
  sa_createdAt :: int

record fee_config_row =
  f_account :: ident
  f_collectionBelowBps :: int
  f_collectionThreshold :: rat
  f_collectionAboveBps :: int
  f_disbursementBelowBps :: int
  f_disbursementThreshold :: rat
  f_disbursementAboveBps :: int
  f_transferBps :: int

record collection_row =
  c_id :: ident
  c_account :: ident
  c_reference :: string
  c_clientReference :: "string option"
  c_channel :: channel
  c_provider :: string
  c_amount :: rat
  c_currency :: string
  c_phoneNumber :: string
  c_status :: tx_status
  c_providerTxId :: "string option"
  c_providerStatus :: "string option"
  c_paymentReference :: "string option"
  c_collectedAmount :: "rat option"
  c_collectedCurrency :: "string option"
  c_feeAmount :: "rat option"
  c_feeBps :: "int option"
  c_message :: "string option"
  c_failureReason :: "string option"
  c_customer :: "string option"
  c_walletCreditedAt :: "int option"
  c_createdAt :: int
  c_updatedAt :: int

record deposit_row =
  d_id :: ident
  d_account :: ident
  d_wallet :: ident
  d_reference :: string
  d_clientReference :: "string option"
  d_channel :: channel
  d_provider :: string
  d_amount :: rat
  d_currency :: string
  d_phoneNumber :: string
  d_status :: tx_status
  d_providerTxId :: "string option"
  d_providerStatus :: "string option"
  d_paymentReference :: "string option"
  d_collectedAmount :: "rat option"
  d_collectedCurrency :: "string option"
  d_message :: "string option"
  d_failureReason :: "string option"
  d_customer :: "string option"
  d_walletCreditedAt :: "int option"
  d_createdAt :: int
  d_updatedAt :: int

record transfer_row =
  x_id :: ident
  x_account :: ident
  x_reference :: string
  x_clientReference :: "string option"
  x_amount :: rat
  x_feeAmount :: rat
  x_feeBps :: int
  x_currency :: string
  x_status :: tx_status
  x_createdAt :: int

record batch_row =
  b_id :: ident
  b_account :: ident
  b_name :: string
  b_reference :: string
  b_status :: batch_status
  b_totalCount :: nat
  b_totalAmount :: rat
  b_successCount :: nat
  b_failedCount :: nat
  b_createdAt :: int

record payout_row =
  p_id :: ident
  p_account :: ident
  p_batchId :: "ident option"
  p_channel :: channel
  p_reference :: string
  p_clientReference :: "string option"
  p_sourceWallet :: wallet_type
  p_payoutKind :: payout_kind
  p_amount :: rat
  p_currency :: string
  p_phoneNumber :: "string option"
  p_accountNumber :: "string option"
  p_accountName :: "string option"
  p_bic :: "string option"
  p_transferType :: "string option"
  p_status :: tx_status
  p_providerTxId :: "string option"
  p_providerStatus :: "string option"
  p_fee :: "rat option"
  p_feeAmount :: "rat option"
  p_feeBps :: "int option"
  p_message :: "string option"
  p_walletDebitedAt :: "int option"
  p_refundedAt :: "int option"
  p_createdAt :: int
  p_updatedAt :: int

record payout_link_row =
  l_id :: ident
  l_account :: ident
  l_tokenHash :: string
  l_amount :: rat
  l_currency :: string
  l_expiresAt :: int
  l_redeemedAt :: "int option"
  l_recipientPhone :: "string option"
  l_payoutMethod :: "string option"
  l_beneficiaryName :: "string option"
  l_payoutId :: "ident option"
  l_createdAt :: int

record sender_row =
  sn_id :: ident
  sn_account :: "ident option"
  sn_name :: string
  sn_type :: sender_type
  sn_isApproved :: bool

record sms_recipient =
  rc_recipientId :: nat
  rc_destAddr :: string
  rc_status :: string
  rc_error :: "string option"
  rc_reportedAt :: "int option"

record sms_row =
  m_id :: ident
  m_account :: ident
  m_reference :: string
  m_senderName :: string
  m_message :: string
  m_encoding :: nat
  m_recipients :: "sms_recipient list"
  m_recipientCount :: nat
  m_status :: sms_status
  m_providerRequestId :: "string option"
  m_cost :: "rat option"
  m_failureReason :: "string option"
  m_scheduledAt :: "int option"
  m_sentAt :: "int option"
  m_deliveredAt :: "int option"
  m_createdAt :: int
  m_updatedAt :: int

record plan_row =
  pl_id :: ident
  pl_name :: string
  pl_description :: "string option"
  pl_services :: "service_key list"
  pl_recurringAmount :: rat
  pl_periodDays :: nat
  pl_isActive :: bool
  pl_createdAt :: int

record account_plan_row =
  ap_id :: ident
  ap_account :: ident
  ap_plan :: ident
  ap_recurringAmount :: rat
  ap_periodDays :: nat
  ap_nextBillingDate :: "int option"
  ap_status :: bill_status

record bill_row =
  bl_id :: ident
  bl_account :: ident
  bl_type :: bill_type
  bl_title :: string
  bl_amount :: rat
  bl_currency :: string
  bl_isRecurring :: bool
  bl_periodDays :: "nat option"
  bl_dueDate :: "int option"
  bl_status :: bill_status
  bl_issuedBy :: "who option"
  bl_paidAt :: "int option"
  bl_createdAt :: int

record endpoint_row =
  e_id :: ident
  e_account :: ident
  e_url :: string
  e_secret :: string
  e_events :: "webhook_event list"
  e_isActive :: bool
  e_createdAt :: int

text \<open>A webhook payload: the fields of the \<open>data\<close> object, in the source's order.\<close>

datatype pvalue =
    PNull | PBool bool | PNum rat | PNat nat | PStr string | PTx tx_status | PBatch batch_status
  | PSms sms_status | PChannel channel | PId ident

type_synonym payload = "(string \<times> pvalue) list"

record delivery_row =
  dl_id :: ident
  dl_endpoint :: ident
  dl_event :: webhook_event
  dl_reference :: string
  dl_payload :: payload
  dl_status :: delivery_status
  dl_attempts :: nat
  dl_lastAttemptAt :: "int option"
  dl_nextAttemptAt :: "int option"
  dl_responseStatus :: "nat option"
  dl_lastError :: "string option"

record audit_row =
  au_actorType :: actor_type
  au_actorId :: "who option"
  au_account :: "ident option"
  au_action :: string
  au_entity :: "string option"
  au_entityId :: "ident option"
  au_createdAt :: int

record analytics_row =
  an_name :: string
  an_value :: "rat option"
  an_account :: "account_key option"
  an_createdAt :: int

datatype job_payload =
    WebhookDeliver ident
  | PayoutProcess ident
  | BatchProcess ident "ident list"
  | SmsSend ident

record job_row =
  j_id :: ident
  j_queue :: string
  j_payload :: job_payload
  j_status :: job_status
  j_attempts :: nat
  j_maxAttempts :: nat
  j_runAt :: int
  j_lockedAt :: "int option"
  j_lockedBy :: "string option"
  j_lastError :: "string option"
  j_completedAt :: "int option"
  j_createdAt :: int

section \<open>The database\<close>

record db =
  next_id :: ident
  staff :: "staff_row list"
  accounts :: "account_row list"
  api_keys :: "api_key_row list"
  permissions :: "permission_row list"
  wallets :: "wallet_row list"
  wallet_txs :: "wallet_tx_row list"
  settlements :: "settlement_row list"
  fee_configs :: "fee_config_row list"
  collections :: "collection_row list"
  deposits :: "deposit_row list"
  transfers :: "transfer_row list"
  batches :: "batch_row list"
  payouts :: "payout_row list"
  payout_links :: "payout_link_row list"
  senders :: "sender_row list"
  smses :: "sms_row list"
  plans :: "plan_row list"
  account_plans :: "account_plan_row list"
  bills :: "bill_row list"
  endpoints :: "endpoint_row list"
  deliveries :: "delivery_row list"
  audits :: "audit_row list"
  analytics :: "analytics_row list"
  jobs :: "job_row list"

definition empty_db :: db where
  "empty_db = \<lparr>next_id = 0, staff = [], accounts = [], api_keys = [], permissions = [],
     wallets = [], wallet_txs = [], settlements = [], fee_configs = [], collections = [],
     deposits = [], transfers = [], batches = [], payouts = [], payout_links = [],
     senders = [], smses = [], plans = [], account_plans = [], bills = [], endpoints = [],
     deliveries = [], audits = [], analytics = [], jobs = []\<rparr>"

section \<open>Configuration and environment\<close>

text \<open>The values of config/configuration.ts, and the \<open>process.env\<close> numbers, that the services read.\<close>

record config =
  cfg_publicBaseUrl :: string
  cfg_apiKeyPrefix :: string
  cfg_queueConcurrency :: nat
  cfg_queueMaxAttempts :: nat
  cfg_queueBackoffBase :: int
  cfg_webhookBackoffBase :: int
  cfg_checksumKey :: "string option"
  cfg_checksumEnabled :: bool
  cfg_payoutMinInterval :: int
  cfg_smsDefaultSender :: string
  cfg_smsRate :: rat
  cfg_mockProviders :: bool
  cfg_pollAfter :: int
  cfg_pollBatch :: nat
  cfg_minPayout :: rat

definition default_config :: config where
  "default_config = \<lparr>cfg_publicBaseUrl = ''http://localhost:3000'', cfg_apiKeyPrefix = ''zs'',
     cfg_queueConcurrency = 5, cfg_queueMaxAttempts = 5, cfg_queueBackoffBase = 5000,
     cfg_webhookBackoffBase = 60000, cfg_checksumKey = None, cfg_checksumEnabled = True,
     cfg_payoutMinInterval = 61000, cfg_smsDefaultSender = ''ZOOINFO'', cfg_smsRate = 20,
     cfg_mockProviders = False, cfg_pollAfter = 45000, cfg_pollBatch = 50,
     cfg_minPayout = 1000\<rparr>"

text \<open>
  What a request reads from outside: the clock (one reading per request), the random draws
  (\<open>draw k i\<close> is the \<open>i\<close>-th \<open>Math.floor(Math.random() * 36)\<close> of the \<open>k\<close>-th reference it
  builds) and the configuration.
\<close>

record env =
  now :: int
  draw :: "nat \<Rightarrow> nat \<Rightarrow> nat"
  cfg :: config

definition default_env :: env where
  "default_env = \<lparr>now = 0, draw = (\<lambda>_ _. 0), cfg = default_config\<rparr>"

section \<open>Account lookup\<close>

definition findAccount :: "ident \<Rightarrow> db \<Rightarrow> account_row option" where
  "findAccount i d = List.find (\<lambda>a. a_id a = i) (accounts d)"

text \<open>\<open>PrismaService.resolveAccountId\<close>: the row id first, then the public id.\<close>

definition resolveAccountId :: "account_key \<Rightarrow> db \<Rightarrow> ident option" where
  "resolveAccountId k d =
     (case k of
        RowId i \<Rightarrow> map_option a_id (findAccount i d)
      | PublicId p \<Rightarrow>
          if p = [] then None
          else map_option a_id (List.find (\<lambda>a. a_accountId a = p) (accounts d)))"

definition accountExists :: "ident \<Rightarrow> db \<Rightarrow> bool" where
  "accountExists i d \<longleftrightarrow> findAccount i d \<noteq> None"

lemma resolve_RowId: "resolveAccountId (RowId i) d = (if accountExists i d then Some i else None)"
  by (auto simp: resolveAccountId_def accountExists_def findAccount_def dest: find_SomeD
           split: option.split)

lemma resolve_exists: "resolveAccountId k d = Some i \<Longrightarrow> accountExists i d"
proof (cases k)
  case (RowId j)
  then show "resolveAccountId k d = Some i \<Longrightarrow> accountExists i d"
    by (simp add: resolve_RowId split: if_splits)
next
  case (PublicId p)
  assume "resolveAccountId k d = Some i"
  with PublicId obtain a where "a \<in> set (accounts d)" and "a_id a = i"
    by (auto simp: resolveAccountId_def dest: find_SomeD split: if_splits)
  then show "accountExists i d"
    by (auto simp: accountExists_def findAccount_def find_None_iff)
qed

section \<open>Audit and analytics\<close>

text \<open>
  \<open>AuditService.record\<close> and \<open>IiiAnalyticsService.track\<close>: fire-and-forget inserts whose
  failure is swallowed, so they never raise.
\<close>

definition audit_record ::
    "env \<Rightarrow> who \<Rightarrow> ident option \<Rightarrow> string \<Rightarrow> string \<Rightarrow> ident option \<Rightarrow> (db, unit) action" where
  "audit_record e actor acct action entity entId =
     modify (\<lambda>d. d\<lparr>audits := audits d @
       [\<lparr>au_actorType = ActorADMIN, au_actorId = Some actor, au_account = acct,
         au_action = action, au_entity = Some entity, au_entityId = entId,
         au_createdAt = now e\<rparr>]\<rparr>)"

definition track ::
    "env \<Rightarrow> string \<Rightarrow> account_key option \<Rightarrow> rat option \<Rightarrow> (db, unit) action" where
  "track e name acct val =
     modify (\<lambda>d. d\<lparr>analytics := analytics d @
       [\<lparr>an_name = name, an_value = val, an_account = acct, an_createdAt = now e\<rparr>]\<rparr>)"

end
