(* ===== verification/Fees.thy ===== *)
theory Fees
  imports Schema
begin

text \<open>
  fees/fees.service.ts: the per-account fee schedule in basis points, created lazily with the
  default tiers (5% below TZS 3,000, 2% from there on, 2% for wallet transfers), its validated
  update, and the fee computations. The interface \<open>fee_schedule\<close> states what the callers
  rely on; the collection, disbursement and transfer fees interpret it.
\<close>

section \<open>Schedule\<close>

datatype fee_kind = FeeCOLLECTION | FeeDISBURSEMENT
datatype fee_tier = BELOW | ABOVE

record computed_fee =
  feeAmount :: rat
  feeBps :: int
  thresholdApplied :: fee_tier

definition default_fee_config :: "ident \<Rightarrow> fee_config_row" where
  "default_fee_config acct =
     \<lparr>f_account = acct,
      f_collectionBelowBps = 500, f_collectionThreshold = 3000, f_collectionAboveBps = 200,
      f_disbursementBelowBps = 500, f_disbursementThreshold = 3000, f_disbursementAboveBps = 200,
      f_transferBps = 200\<rparr>"

definition findFeeConfig :: "ident \<Rightarrow> db \<Rightarrow> fee_config_row option" where
  "findFeeConfig acct d = List.find (\<lambda>f. f_account f = acct) (fee_configs d)"

text \<open>\<open>feeConfig.create\<close>: the account must exist, and \<open>accountId\<close> is unique.\<close>

definition createFeeConfig :: "fee_config_row \<Rightarrow> (db, fee_config_row) action" where
  "createFeeConfig row = (\<lambda>d.
     if \<not> accountExists (f_account row) d then (Inl ForeignKeyViolation, d)
     else if findFeeConfig (f_account row) d \<noteq> None then (Inl UniqueViolation, d)
     else (Inr row, d\<lparr>fee_configs := fee_configs d @ [row]\<rparr>))"

definition getConfig :: "ident \<Rightarrow> (db, fee_config_row) action" where
  "getConfig acct =
     andThen (query (findFeeConfig acct)) (\<lambda>existing.
       case existing of
         Some c \<Rightarrow> ret c
       | None \<Rightarrow>
           attempt (createFeeConfig (default_fee_config acct))
             (\<lambda>_. fetch (NotFound NOT_FOUND) (findFeeConfig acct)))"

section \<open>Update\<close>

text \<open>The \<open>Partial\<close> of \<open>updateConfig\<close>; bps arrive as numbers, thresholds as strings.
  A non-finite threshold is refused when it reaches its column, here with the malformed ones.\<close>

record fee_patch =
  fp_collectionBelowBps :: "rat option"
  fp_collectionThreshold :: "decimal option"
  fp_collectionAboveBps :: "rat option"
  fp_disbursementBelowBps :: "rat option"
  fp_disbursementThreshold :: "decimal option"
  fp_disbursementAboveBps :: "rat option"
  fp_transferBps :: "rat option"

definition validBps :: "rat \<Rightarrow> bool" where
  "validBps v \<longleftrightarrow> of_int \<lfloor>v\<rfloor> = v \<and> 0 \<le> v \<and> v \<le> 10000"

text \<open>The loop over \<open>bounds\<close>: the first value out of range raises.\<close>

fun checkBounds :: "rat option list \<Rightarrow> (db, unit) action" where
  "checkBounds [] = ret ()"
| "checkBounds (None # vs) = checkBounds vs"
| "checkBounds (Some v # vs) =
     thenDo (require (validBps v) (NotFound VALIDATION_FAILED)) (checkBounds vs)"

definition patchBps :: "rat option \<Rightarrow> int \<Rightarrow> int" where
  "patchBps p old = (case p of None \<Rightarrow> old | Some v \<Rightarrow> \<lfloor>v\<rfloor>)"

definition toDecimal :: "decimal option \<Rightarrow> (db, rat option) action" where
  "toDecimal x = (case x of None \<Rightarrow> ret None | Some (Fin v) \<Rightarrow> ret (Some v)
                  | Some _ \<Rightarrow> raise DecimalError)"

definition patchThreshold :: "rat option \<Rightarrow> rat \<Rightarrow> rat" where
  "patchThreshold p old = (case p of None \<Rightarrow> old | Some v \<Rightarrow> round2 v)"

definition applyFeePatch ::
    "fee_patch \<Rightarrow> rat option \<Rightarrow> rat option \<Rightarrow> fee_config_row \<Rightarrow> fee_config_row" where
  "applyFeePatch p ct dt c = c\<lparr>
     f_collectionBelowBps := patchBps (fp_collectionBelowBps p) (f_collectionBelowBps c),
     f_collectionThreshold := patchThreshold ct (f_collectionThreshold c),
     f_collectionAboveBps := patchBps (fp_collectionAboveBps p) (f_collectionAboveBps c),
     f_disbursementBelowBps := patchBps (fp_disbursementBelowBps p) (f_disbursementBelowBps c),
     f_disbursementThreshold := patchThreshold dt (f_disbursementThreshold c),
     f_disbursementAboveBps := patchBps (fp_disbursementAboveBps p) (f_disbursementAboveBps c),
     f_transferBps := patchBps (fp_transferBps p) (f_transferBps c)\<rparr>"

definition updateConfig :: "ident \<Rightarrow> fee_patch \<Rightarrow> (db, fee_config_row) action" where
  "updateConfig acct p =
     thenDo (getConfig acct)
     (thenDo (checkBounds [fp_collectionBelowBps p, fp_collectionAboveBps p,
                fp_disbursementBelowBps p, fp_disbursementAboveBps p, fp_transferBps p])
     (andThen (toDecimal (fp_collectionThreshold p)) (\<lambda>ct.
      andThen (toDecimal (fp_disbursementThreshold p)) (\<lambda>dt.
      thenDo (modify (\<lambda>d. d\<lparr>fee_configs :=
                updateWhere (\<lambda>f. f_account f = acct) (applyFeePatch p ct dt) (fee_configs d)\<rparr>))
      (fetch RecordNotFound (findFeeConfig acct))))))"

section \<open>Fees\<close>

text \<open>
  A non-finite amount has no fee in the model: every caller refuses it before a fee is
  asked for, or stores the amount in a decimal column, which refuses it.
\<close>

text \<open>\<open>value.mul(bps).div(10000).toFixed(2)\<close>.\<close>

definition feeOf :: "int \<Rightarrow> rat \<Rightarrow> rat" where
  "feeOf bps value = round2 (value * of_int bps / 10000)"

definition tierFee :: "fee_kind \<Rightarrow> fee_config_row \<Rightarrow> rat \<Rightarrow> computed_fee" where
  "tierFee kind c value =
     (let threshold = (case kind of FeeCOLLECTION \<Rightarrow> f_collectionThreshold c
                                  | FeeDISBURSEMENT \<Rightarrow> f_disbursementThreshold c);
          belowBps = (case kind of FeeCOLLECTION \<Rightarrow> f_collectionBelowBps c
                                 | FeeDISBURSEMENT \<Rightarrow> f_disbursementBelowBps c);
          aboveBps = (case kind of FeeCOLLECTION \<Rightarrow> f_collectionAboveBps c
                                 | FeeDISBURSEMENT \<Rightarrow> f_disbursementAboveBps c);
          isBelow = value < threshold;
          bps = (if isBelow then belowBps else aboveBps)
      in \<lparr>feeAmount = feeOf bps value, feeBps = bps,
          thresholdApplied = (if isBelow then BELOW else ABOVE)\<rparr>)"

definition computeFee :: "fee_kind \<Rightarrow> ident \<Rightarrow> decimal \<Rightarrow> (db, computed_fee) action" where
  "computeFee kind acct amount =
     andThen (getConfig acct) (\<lambda>c.
       case amount of Fin v \<Rightarrow> ret (tierFee kind c v) | _ \<Rightarrow> raise DecimalError)"

definition transferFee :: "fee_config_row \<Rightarrow> rat \<Rightarrow> computed_fee" where
  "transferFee c value =
     \<lparr>feeAmount = feeOf (f_transferBps c) value, feeBps = f_transferBps c,
      thresholdApplied = ABOVE\<rparr>"

definition computeTransferFee :: "ident \<Rightarrow> decimal \<Rightarrow> (db, computed_fee) action" where
  "computeTransferFee acct amount =
     andThen (getConfig acct) (\<lambda>c.
       case amount of Fin v \<Rightarrow> ret (transferFee c v) | _ \<Rightarrow> raise DecimalError)"

section \<open>The invariant: every rate is between 0% and 100%\<close>

definition bps_ok :: "int \<Rightarrow> bool" where
  "bps_ok b \<longleftrightarrow> 0 \<le> b \<and> b \<le> 10000"

definition fee_config_ok :: "fee_config_row \<Rightarrow> bool" where
  "fee_config_ok c \<longleftrightarrow>
     bps_ok (f_collectionBelowBps c) \<and> bps_ok (f_collectionAboveBps c) \<and>
     bps_ok (f_disbursementBelowBps c) \<and> bps_ok (f_disbursementAboveBps c) \<and>
     bps_ok (f_transferBps c)"

definition fees_ok :: "db \<Rightarrow> bool" where
  "fees_ok d \<longleftrightarrow> (\<forall>c \<in> set (fee_configs d). fee_config_ok c)"

lemma default_fee_config_ok [simp]: "fee_config_ok (default_fee_config acct)"
  by (simp add: fee_config_ok_def bps_ok_def default_fee_config_def)

lemma findFeeConfig_ok: "fees_ok d \<Longrightarrow> findFeeConfig acct d = Some c \<Longrightarrow> fee_config_ok c"
  by (auto simp: fees_ok_def findFeeConfig_def dest: find_SomeD)

lemma findFeeConfig_account: "findFeeConfig acct d = Some c \<Longrightarrow> f_account c = acct"
  by (auto simp: findFeeConfig_def dest: find_SomeD)

text \<open>What \<open>getConfig\<close> does, on each of its three branches.\<close>

lemma getConfig_existing: "findFeeConfig acct d = Some c \<Longrightarrow> getConfig acct d = (Inr c, d)"
  by (simp add: getConfig_def run)

lemma getConfig_fresh:
  "findFeeConfig acct d = None \<Longrightarrow> accountExists acct d \<Longrightarrow>
     getConfig acct d = (Inr (default_fee_config acct),
       d\<lparr>fee_configs := fee_configs d @ [default_fee_config acct]\<rparr>)"
  by (simp add: getConfig_def attempt_def createFeeConfig_def default_fee_config_def)

lemma getConfig_no_account:
  "findFeeConfig acct d = None \<Longrightarrow> \<not> accountExists acct d \<Longrightarrow>
     getConfig acct d = (Inl (NotFound NOT_FOUND), d)"
  by (simp add: getConfig_def attempt_def createFeeConfig_def fetch_def default_fee_config_def)

lemma getConfig_cases [case_names existing fresh missing]:
  obtains (existing) c where "findFeeConfig acct d = Some c" "getConfig acct d = (Inr c, d)"
  | (fresh) "findFeeConfig acct d = None" "accountExists acct d"
      "getConfig acct d = (Inr (default_fee_config acct),
         d\<lparr>fee_configs := fee_configs d @ [default_fee_config acct]\<rparr>)"
  | (missing) "findFeeConfig acct d = None" "\<not> accountExists acct d"
      "getConfig acct d = (Inl (NotFound NOT_FOUND), d)"
  by (metis getConfig_existing getConfig_fresh getConfig_no_account option.exhaust)

text \<open>No fee operation touches another table: any predicate that ignores the fee table is kept.\<close>

lemma keeps_getConfig:
  assumes "\<And>d c. P d \<Longrightarrow> P (d\<lparr>fee_configs := c\<rparr>)"
  shows "keeps P (getConfig acct)"
proof (rule keepsI)
  fix d
  assume "P d"
  then show "P (snd (getConfig acct d))"
    by (cases acct d rule: getConfig_cases) (simp_all add: assms)
qed

lemma keeps_computeFee:
  assumes "\<And>d c. P d \<Longrightarrow> P (d\<lparr>fee_configs := c\<rparr>)"
  shows "keeps P (computeFee kind acct v)"
  unfolding computeFee_def
  by (cases v) (auto intro!: keeps_rules keeps_getConfig assms)

lemma keeps_computeTransferFee:
  assumes "\<And>d c. P d \<Longrightarrow> P (d\<lparr>fee_configs := c\<rparr>)"
  shows "keeps P (computeTransferFee acct v)"
  unfolding computeTransferFee_def
  by (cases v) (auto intro!: keeps_rules keeps_getConfig assms)

lemma getConfig_result_ok:
  "fees_ok d \<Longrightarrow> getConfig acct d = (Inr c, d') \<Longrightarrow> fee_config_ok c"
  by (rule getConfig_cases [of acct d]) (auto dest: findFeeConfig_ok)

lemma keeps_fees_ok_getConfig [keeps_rules]: "keeps fees_ok (getConfig acct)"
proof (rule keepsI)
  fix d
  assume "fees_ok d"
  then show "fees_ok (snd (getConfig acct d))"
    by (cases acct d rule: getConfig_cases) (simp_all add: fees_ok_def)
qed

lemma keeps_checkBounds [keeps_rules]: "keeps P (checkBounds vs)"
  by (induction vs rule: checkBounds.induct) (auto intro!: keeps_rules)

lemma checkBounds_run:
  "checkBounds vs d = (if \<forall>v \<in> set vs. case v of None \<Rightarrow> True | Some r \<Rightarrow> validBps r
     then (Inr (), d) else (Inl (NotFound VALIDATION_FAILED), d))"
  by (induction vs rule: checkBounds.induct) (auto simp: run)

lemma validBps_ok: "validBps v \<Longrightarrow> bps_ok \<lfloor>v\<rfloor>"
  by (simp add: validBps_def bps_ok_def floor_le_iff le_floor_iff)

lemma patchBps_ok:
  "bps_ok old \<Longrightarrow> (case p of None \<Rightarrow> True | Some r \<Rightarrow> validBps r) \<Longrightarrow> bps_ok (patchBps p old)"
  by (auto simp: patchBps_def validBps_ok split: option.splits)

section \<open>Bounds of a fee\<close>

lemma feeOf_nonneg: "0 \<le> v \<Longrightarrow> 0 \<le> b \<Longrightarrow> 0 \<le> feeOf b v"
  by (simp add: feeOf_def)

lemma feeOf_le:
  assumes "0 \<le> v" and "is_cents v" and "bps_ok b"
  shows "feeOf b v \<le> v"
proof -
  have "v * of_int b \<le> v * 10000"
    using assms by (intro mult_left_mono) (auto simp: bps_ok_def)
  then have "v * of_int b / 10000 \<le> v" by simp
  with assms show ?thesis
    unfolding feeOf_def by (intro round2_le_cents) (auto simp: bps_ok_def)
qed

lemma feeOf_error: "\<bar>feeOf b v - v * of_int b / 10000\<bar> \<le> 1 / 200"
  unfolding feeOf_def by (rule round2_error)

lemma feeOf_cents [simp]: "is_cents (feeOf b v)"
  by (simp add: feeOf_def)

text \<open>The interface the money services rely on.\<close>

locale fee_schedule =
  fixes fee :: "'c \<Rightarrow> rat \<Rightarrow> rat"
    and ok :: "'c \<Rightarrow> bool"
  assumes fee_nonneg: "ok c \<Longrightarrow> 0 \<le> v \<Longrightarrow> 0 \<le> fee c v"
    and fee_le: "ok c \<Longrightarrow> 0 \<le> v \<Longrightarrow> is_cents v \<Longrightarrow> fee c v \<le> v"
    and fee_cents: "is_cents (fee c v)"
begin

lemma net_bounds:
  assumes "ok c" and "0 \<le> v" and "is_cents v"
  shows "0 \<le> v - fee c v" and "v - fee c v \<le> v" and "is_cents (v - fee c v)"
  using fee_nonneg [OF assms(1,2)] fee_le [OF assms] assms(3) fee_cents by auto

lemma gross_bounds:
  assumes "ok c" and "0 \<le> v" and "is_cents v"
  shows "v \<le> v + fee c v" and "v + fee c v \<le> 2 * v" and "is_cents (v + fee c v)"
  using fee_nonneg [OF assms(1,2)] fee_le [OF assms] assms(3) fee_cents by auto

lemma net_plus_fee: "(v - fee c v) + fee c v = v"
  by simp

end

lemmas fee_laws = feeOf_nonneg feeOf_le feeOf_cents fee_config_ok_def tierFee_def transferFee_def

interpretation coll: fee_schedule "\<lambda>c v. feeAmount (tierFee FeeCOLLECTION c v)" fee_config_ok
  by unfold_locales (auto simp: fee_laws bps_ok_def Let_def)

interpretation disb: fee_schedule "\<lambda>c v. feeAmount (tierFee FeeDISBURSEMENT c v)" fee_config_ok
  by unfold_locales (auto simp: fee_laws bps_ok_def Let_def)

interpretation xfer: fee_schedule "\<lambda>c v. feeAmount (transferFee c v)" fee_config_ok
  by unfold_locales (auto simp: fee_laws bps_ok_def Let_def)

section \<open>Properties\<close>

text \<open>C10: the fee of a collection or payout follows the tier of its amount: the below-threshold
  rate applies strictly under the threshold, the above-threshold rate from the threshold on. For
  every schedule the database can hold, the fee is a number of cents between zero and the amount,
  within half a cent of the exact percentage, and a first use creates the 5%/2% default schedule.\<close>

theorem computeFee_tiers:
  assumes "fees_ok d" and "0 \<le> v" and "is_cents v" and "accountExists acct d"
  shows "\<exists>c f. getConfig acct d = (Inr c, snd (getConfig acct d)) \<and>
    computeFee kind acct (Fin v) d = (Inr f, snd (getConfig acct d)) \<and>
    (findFeeConfig acct d = None \<longrightarrow> c = default_fee_config acct) \<and>
    feeBps f = (case kind of
       FeeCOLLECTION \<Rightarrow> if v < f_collectionThreshold c then f_collectionBelowBps c
                        else f_collectionAboveBps c
     | FeeDISBURSEMENT \<Rightarrow> if v < f_disbursementThreshold c then f_disbursementBelowBps c
                          else f_disbursementAboveBps c) \<and>
    0 \<le> feeAmount f \<and> feeAmount f \<le> v \<and> is_cents (feeAmount f) \<and>
    \<bar>feeAmount f - v * of_int (feeBps f) / 10000\<bar> \<le> 1 / 200 \<and>
    fees_ok (snd (getConfig acct d))"
proof -
  obtain c where c: "getConfig acct d = (Inr c, snd (getConfig acct d))"
    and new: "findFeeConfig acct d = None \<longrightarrow> c = default_fee_config acct"
    using assms(4) by (cases acct d rule: getConfig_cases) auto
  have ok: "fee_config_ok c" using getConfig_result_ok [OF assms(1)] c by metis
  let ?f = "tierFee kind c v"
  have "computeFee kind acct (Fin v) d = (Inr ?f, snd (getConfig acct d))"
    using c by (metis (no_types, lifting) andThen_Inr computeFee_def decimal.simps(8) ret_run)
  moreover have "0 \<le> feeAmount ?f \<and> feeAmount ?f \<le> v \<and> is_cents (feeAmount ?f)"
    using coll.fee_nonneg [OF ok assms(2)] coll.fee_le [OF ok assms(2,3)] coll.fee_cents [of c v]
      disb.fee_nonneg [OF ok assms(2)] disb.fee_le [OF ok assms(2,3)] disb.fee_cents [of c v]
    by (cases kind) auto
  moreover have "\<bar>feeAmount ?f - v * of_int (feeBps ?f) / 10000\<bar> \<le> 1 / 200"
  proof -
    have "feeAmount ?f = feeOf (feeBps ?f) v" by (simp add: tierFee_def Let_def)
    then show ?thesis using feeOf_error by simp
  qed
  moreover have "fees_ok (snd (getConfig acct d))"
    using keepsD [OF keeps_fees_ok_getConfig assms(1)] .
  ultimately show ?thesis
    using c new by (intro exI [of _ c] exI [of _ ?f]) (auto simp: tierFee_def Let_def split: fee_kind.split)
qed

definition patched_bps :: "fee_patch \<Rightarrow> rat option list" where
  "patched_bps p = [fp_collectionBelowBps p, fp_collectionAboveBps p,
     fp_disbursementBelowBps p, fp_disbursementAboveBps p, fp_transferBps p]"

definition bps_valid :: "fee_patch \<Rightarrow> bool" where
  "bps_valid p \<longleftrightarrow> (\<forall>v. Some v \<in> set (patched_bps p) \<longrightarrow> validBps v)"

fun threshold :: "decimal option \<Rightarrow> rat option option" where
  "threshold None = Some None"
| "threshold (Some (Fin v)) = Some (Some v)"
| "threshold (Some x) = None"

definition patchRow ::
    "ident \<Rightarrow> fee_patch \<Rightarrow> rat option \<Rightarrow> rat option \<Rightarrow> db \<Rightarrow> db" where
  "patchRow acct p ct dt d = d\<lparr>fee_configs :=
     updateWhere (\<lambda>f. f_account f = acct) (applyFeePatch p ct dt) (fee_configs d)\<rparr>"

lemma validBps_iff: "validBps v \<longleftrightarrow> v \<in> range of_int \<and> 0 \<le> v \<and> v \<le> 10000"
  by (auto simp: validBps_def)

lemma bps_valid_iff:
  "bps_valid p \<longleftrightarrow> (\<forall>v \<in> set (patched_bps p). case v of None \<Rightarrow> True | Some r \<Rightarrow> validBps r)"
  by (auto simp: bps_valid_def split: option.splits)

lemma checkBounds_patched:
  "andThen (checkBounds (patched_bps p)) k d =
     (if bps_valid p then k () d else (Inl (NotFound VALIDATION_FAILED), d))"
  by (simp add: andThen_def checkBounds_run bps_valid_iff)

lemma toDecimal_cases:
  obtains (ok) v where "toDecimal x = ret v" and "threshold x = Some v"
  | (bad) "toDecimal x = raise DecimalError" and "threshold x = None"
  by (cases x rule: threshold.cases) (auto simp: toDecimal_def)

lemma snd_computeFee: "snd (computeFee kind acct v d) = snd (getConfig acct d)"
  unfolding computeFee_def
  by (rule snd_andThen_pure) (simp add: ret_run raise_run split: decimal.split)

lemma andThen_toDecimal:
  "andThen (toDecimal x) k d =
     (case threshold x of None \<Rightarrow> (Inl DecimalError, d) | Some v \<Rightarrow> k v d)"
  by (cases x rule: threshold.cases) (simp_all add: toDecimal_def run)

lemma applyFeePatch_account [simp]: "f_account (applyFeePatch p ct dt r) = f_account r"
  by (simp add: applyFeePatch_def)

lemma applyFeePatch_ok: "fee_config_ok c \<Longrightarrow> bps_valid p \<Longrightarrow> fee_config_ok (applyFeePatch p ct dt c)"
  unfolding bps_valid_iff
  by (auto simp: fee_config_ok_def applyFeePatch_def patched_bps_def intro!: patchBps_ok)

lemma findFeeConfig_patchRow:
  "findFeeConfig a (patchRow acct p ct dt d) =
     map_option (\<lambda>f. if f_account f = acct then applyFeePatch p ct dt f else f) (findFeeConfig a d)"
  by (simp add: findFeeConfig_def patchRow_def find_updateWhere)

lemma findFeeConfig_patchRow_cases:
  "findFeeConfig a d = Some c \<Longrightarrow>
   findFeeConfig a (patchRow acct p ct dt d) = Some (if a = acct then applyFeePatch p ct dt c else c)"
  by (simp add: findFeeConfig_patchRow findFeeConfig_account)

lemma fees_ok_patchRow: "fees_ok d \<Longrightarrow> bps_valid p \<Longrightarrow> fees_ok (patchRow acct p ct dt d)"
  by (auto simp: fees_ok_def patchRow_def set_updateWhere applyFeePatch_ok)

lemma getConfig_found:
  assumes "accountExists acct d"
  obtains c d1 where "getConfig acct d = (Inr c, d1)" and "findFeeConfig acct d1 = Some c"
    and "\<And>a. a \<noteq> acct \<Longrightarrow> findFeeConfig a d1 = findFeeConfig a d"
  using assms
  by (cases acct d rule: getConfig_cases)
    (auto simp: findFeeConfig_def find_append default_fee_config_def split: option.splits)

lemma updateConfig_run:
  assumes "getConfig acct d = (Inr c, d1)" and "findFeeConfig acct d1 = Some c"
  shows "updateConfig acct p d =
    (if \<not> bps_valid p then (Inl (NotFound VALIDATION_FAILED), d1)
     else case (threshold (fp_collectionThreshold p), threshold (fp_disbursementThreshold p)) of
            (Some ct, Some dt) \<Rightarrow> (Inr (applyFeePatch p ct dt c), patchRow acct p ct dt d1)
          | _ \<Rightarrow> (Inl DecimalError, d1))"
proof -
  have "updateConfig acct p d =
      andThen (checkBounds (patched_bps p)) (\<lambda>_.
      andThen (toDecimal (fp_collectionThreshold p)) (\<lambda>ct.
      andThen (toDecimal (fp_disbursementThreshold p)) (\<lambda>dt.
      thenDo (modify (patchRow acct p ct dt)) (fetch RecordNotFound (findFeeConfig acct))))) d1"
    using andThen_Inr [of "getConfig acct", OF assms(1)]
    by (simp add: updateConfig_def patched_bps_def patchRow_def [abs_def])
  then show ?thesis
    by (simp add: checkBounds_patched andThen_toDecimal fetch_def
          findFeeConfig_patchRow_cases [OF assms(2)] split: option.split)
qed

definition sample_patch :: fee_patch where
  "sample_patch = \<lparr>fp_collectionBelowBps = Some 300, fp_collectionThreshold = None,
     fp_collectionAboveBps = None, fp_disbursementBelowBps = None, fp_disbursementThreshold = None,
     fp_disbursementAboveBps = None, fp_transferBps = Some 10000\<rparr>"

definition sample_fee_db :: db where
  "sample_fee_db = empty_db\<lparr>accounts := [\<lparr>a_id = 0, a_accountId = ''ACC-00000001'',
       a_accountName = ''Shop'', a_sourceCode = ''SHOP'', a_contactEmail = None,
       a_contactPhone = None, a_status = AcctACTIVE, a_billingMode = ModeNONE, a_autoSweep = False,
       a_suspendedBy = None, a_suspendReason = None, a_createdAt = 0\<rparr>], next_id := 1\<rparr>"

theorem computeFee_tiers_witness:
  "\<exists>f. fst (computeFee FeeCOLLECTION 0 (Fin 2999) sample_fee_db) = Inr f \<and> feeAmount f \<le> 2999"
proof -
  have "fees_ok sample_fee_db" and "accountExists 0 sample_fee_db" and "is_cents 2999"
    by (simp_all add: fees_ok_def sample_fee_db_def empty_db_def accountExists_def findAccount_def
                      is_cents_def)
  with computeFee_tiers [of sample_fee_db 2999 0 FeeCOLLECTION] show ?thesis by fastforce
qed

text \<open>An update of the fee schedule is validated as a whole: a rate that is not an integer
  between 0 and 10000 basis points is refused before anything is written, so every stored rate
  stays between 0% and 100%; an accepted update patches the account's schedule and no other.\<close>

theorem updateConfig_validated:
  assumes "fees_ok d" and "accountExists acct d" and "updateConfig acct p d = (res, d')"
  shows "fees_ok d' \<and>
    (case res of
       Inl err \<Rightarrow> d' = snd (getConfig acct d) \<and>
         (err = NotFound VALIDATION_FAILED \<longleftrightarrow>
            (\<exists>v. Some v \<in> set (patched_bps p) \<and> \<not> (v \<in> range of_int \<and> 0 \<le> v \<and> v \<le> 10000)))
     | Inr c' \<Rightarrow> (\<exists>c ct dt. fst (getConfig acct d) = Inr c \<and> c' = applyFeePatch p ct dt c) \<and>
         findFeeConfig acct d' = Some c' \<and> fee_config_ok c' \<and> bps_valid p \<and>
         (\<forall>a. a \<noteq> acct \<longrightarrow> findFeeConfig a d' = findFeeConfig a d))"
proof -
  obtain c d1 where c: "getConfig acct d = (Inr c, d1)" and found: "findFeeConfig acct d1 = Some c"
    and other: "\<And>a. a \<noteq> acct \<Longrightarrow> findFeeConfig a d1 = findFeeConfig a d"
    by (rule getConfig_found [OF assms(2)]) (rule that)
  have ok1: "fees_ok d1" using keepsD [OF keeps_fees_ok_getConfig assms(1), of acct] c by simp
  note run = assms(3) [unfolded updateConfig_run [OF c found]]
  have invalid: "\<not> bps_valid p \<longleftrightarrow>
      (\<exists>v. Some v \<in> set (patched_bps p) \<and> \<not> (v \<in> range of_int \<and> 0 \<le> v \<and> v \<le> 10000))"
    unfolding bps_valid_def validBps_iff by blast
  have other': "findFeeConfig a (patchRow acct p ct dt d1) = findFeeConfig a d" if "a \<noteq> acct" for a ct dt
  proof (cases "findFeeConfig a d1")
    case None
    then show ?thesis using other [OF that] by (simp add: findFeeConfig_patchRow)
  next
    case (Some b)
    from findFeeConfig_patchRow_cases [OF this] show ?thesis using other [OF that] that Some by simp
  qed
  consider (bad) "\<not> bps_valid p" "res = Inl (NotFound VALIDATION_FAILED)" "d' = d1"
    | (dec) "bps_valid p" "res = Inl DecimalError" "d' = d1"
    | (ok) ct dt where "bps_valid p" "res = Inr (applyFeePatch p ct dt c)"
        "d' = patchRow acct p ct dt d1"
    using run by (auto split: if_splits option.splits)
  then show ?thesis
  proof cases
    case bad
    then show ?thesis using ok1 c invalid by simp
  next
    case dec
    then show ?thesis using ok1 c invalid by auto
  next
    case (ok ct dt)
    have "fee_config_ok (applyFeePatch p ct dt c)"
      using applyFeePatch_ok [OF findFeeConfig_ok [OF ok1 found] ok(1)] .
    with ok show ?thesis
      using ok1 c other' fees_ok_patchRow [OF ok1 ok(1)] findFeeConfig_patchRow_cases [OF found]
      by auto
  qed
qed

theorem updateConfig_validated_witness:
  "\<exists>c d'. updateConfig 0 sample_patch sample_fee_db = (Inr c, d') \<and> fee_config_ok c \<and>
     f_transferBps c = 10000 \<and> f_collectionBelowBps c = 300 \<and> f_disbursementBelowBps c = 500"
proof -
  obtain res d' where run: "updateConfig 0 sample_patch sample_fee_db = (res, d')"
    by (cases "updateConfig 0 sample_patch sample_fee_db")
  have "case fst (updateConfig 0 sample_patch sample_fee_db) of Inl _ \<Rightarrow> False
      | Inr c \<Rightarrow> f_transferBps c = 10000 \<and> f_collectionBelowBps c = 300 \<and> f_disbursementBelowBps c = 500"
    by code_simp
  then obtain c where c: "res = Inr c" "f_transferBps c = 10000" "f_collectionBelowBps c = 300"
      "f_disbursementBelowBps c = 500"
    by (auto simp: run split: sum.splits)
  have "fees_ok sample_fee_db" and "accountExists 0 sample_fee_db"
    by (simp_all add: fees_ok_def sample_fee_db_def empty_db_def accountExists_def findAccount_def)
  from updateConfig_validated [OF this run] run c show ?thesis by simp
qed


end
