(* ===== verification/Wallets.thy ===== *)
theory Wallets
  imports Fees Strings
begin

text \<open>
  wallets/wallets.service.ts: the wallets of an account and their ledger.

  \<open>move\<close> is the one primitive that posts to a ledger; \<open>transferCollectionToDisbursement\<close>
  posts two legs in one transaction. The ledger invariant \<open>ledger_ok\<close> says of every wallet
  that its rows form a chain of before/after balances from zero, that its balance is the end
  of that chain, and that the balance is a non-negative number of cents.
\<close>

section \<open>Queries\<close>

definition findWallet :: "ident \<Rightarrow> wallet_type \<Rightarrow> db \<Rightarrow> wallet_row option" where
  "findWallet acct ty d = List.find (\<lambda>w. w_account w = acct \<and> w_type w = ty) (wallets d)"

definition findWalletById :: "ident \<Rightarrow> db \<Rightarrow> wallet_row option" where
  "findWalletById i d = List.find (\<lambda>w. w_id w = i) (wallets d)"

definition ledgerOf :: "ident \<Rightarrow> db \<Rightarrow> wallet_tx_row list" where
  "ledgerOf i d = filter (\<lambda>t. t_wallet t = i) (wallet_txs d)"

definition balanceOf :: "ident \<Rightarrow> wallet_type \<Rightarrow> db \<Rightarrow> rat option" where
  "balanceOf acct ty d = map_option w_balance (findWallet acct ty d)"

text \<open>\<open>getWallets\<close>: ordered by type, none for an unknown account.\<close>

definition getWallets :: "account_key \<Rightarrow> (db, wallet_row list) action" where
  "getWallets k = query (\<lambda>d.
     case resolveAccountId k d of
       None \<Rightarrow> []
     | Some i \<Rightarrow> filter (\<lambda>w. w_account w = i \<and> w_type w = WCOLLECTION) (wallets d)
               @ filter (\<lambda>w. w_account w = i \<and> w_type w = WDISBURSEMENT) (wallets d))"

text \<open>\<open>getWallet\<close>: an unresolved key is used as it is, and matches no wallet unless it is a row id.\<close>

definition walletByKey :: "account_key \<Rightarrow> wallet_type \<Rightarrow> db \<Rightarrow> wallet_row option" where
  "walletByKey k ty d =
     (case resolveAccountId k d of
        Some i \<Rightarrow> findWallet i ty d
      | None \<Rightarrow> (case k of RowId i \<Rightarrow> findWallet i ty d | PublicId _ \<Rightarrow> None))"

definition getWallet :: "account_key \<Rightarrow> wallet_type \<Rightarrow> (db, wallet_row) action" where
  "getWallet k ty = fetch (NotFound WALLET_NOT_FOUND) (walletByKey k ty)"

definition getTransactions ::
    "account_key \<Rightarrow> wallet_type \<Rightarrow> nat \<Rightarrow> nat \<Rightarrow> int option \<Rightarrow> int option
     \<Rightarrow> (db, wallet_tx_row list \<times> nat \<times> wallet_row) action" where
  "getTransactions k ty skip n from to =
     andThen (getWallet k ty) (\<lambda>w. query (\<lambda>d.
       let rows = filter (\<lambda>t. (case from of None \<Rightarrow> True | Some f \<Rightarrow> f \<le> t_createdAt t) \<and>
                              (case to of None \<Rightarrow> True | Some u \<Rightarrow> t_createdAt t \<le> u))
                    (ledgerOf (w_id w) d)
       in (window skip n (orderDesc t_createdAt rows), length rows, w)))"

section \<open>move\<close>

record move_input =
  mv_account :: account_key
  mv_type :: wallet_type
  mv_txType :: wallet_tx_type
  mv_amount :: decimal
  mv_reference :: "string option"
  mv_actorType :: actor_type
  mv_actorId :: "who option"
  mv_ignoreFrozen :: bool

text \<open>The direction comes from the ledger type; only an adjustment looks at the sign.\<close>

definition DEBIT_TYPES :: "wallet_tx_type list" where
  "DEBIT_TYPES = [WITHDRAWAL, PAYOUT_DEBIT, BATCH_HOLD]"

definition isDebitMove :: "wallet_tx_type \<Rightarrow> rat \<Rightarrow> bool" where
  "isDebitMove ty amount \<longleftrightarrow> ty \<in> set DEBIT_TYPES \<or> (ty = ADJUSTMENT \<and> amount < 0)"

text \<open>\<open>wallet.updateMany\<close> with the balance floor in its condition; the result is the count.\<close>

definition debitIfCovered :: "ident \<Rightarrow> rat \<Rightarrow> (db, nat) action" where
  "debitIfCovered i delta = (\<lambda>d.
     (Inr (countWhere (\<lambda>w. w_id w = i \<and> delta \<le> w_balance w) (wallets d)),
      d\<lparr>wallets := updateWhere (\<lambda>w. w_id w = i \<and> delta \<le> w_balance w)
                    (\<lambda>w. w\<lparr>w_balance := round2 (w_balance w - delta)\<rparr>) (wallets d)\<rparr>))"

definition creditWallet :: "ident \<Rightarrow> rat \<Rightarrow> (db, unit) action" where
  "creditWallet i delta = modify (\<lambda>d.
     d\<lparr>wallets := updateWhere (\<lambda>w. w_id w = i)
                   (\<lambda>w. w\<lparr>w_balance := round2 (w_balance w + delta)\<rparr>) (wallets d)\<rparr>)"

definition setWalletBalance :: "ident \<Rightarrow> rat \<Rightarrow> (db, unit) action" where
  "setWalletBalance i b = modify (\<lambda>d.
     d\<lparr>wallets := updateWhere (\<lambda>w. w_id w = i) (\<lambda>w. w\<lparr>w_balance := round2 b\<rparr>) (wallets d)\<rparr>)"

text \<open>\<open>walletTransaction.create\<close>; the decimal columns round on the way in.\<close>

definition createWalletTx ::
    "env \<Rightarrow> wallet_row \<Rightarrow> wallet_tx_type \<Rightarrow> rat \<Rightarrow> rat \<Rightarrow> rat \<Rightarrow> string option \<Rightarrow> who option
     \<Rightarrow> (db, wallet_tx_row) action" where
  "createWalletTx e w ty amount before after ref actor = (\<lambda>d.
     let row = \<lparr>t_id = next_id d, t_wallet = w_id w, t_type = ty, t_amount = round2 amount,
                t_balanceBefore = round2 before, t_balanceAfter = round2 after,
                t_currency = w_currency w, t_reference = ref, t_createdBy = actor,
                t_createdAt = now e\<rparr>
     in (Inr row, d\<lparr>wallet_txs := wallet_txs d @ [row], next_id := Suc (next_id d)\<rparr>))"

definition moveTx ::
    "env \<Rightarrow> move_input \<Rightarrow> wallet_row \<Rightarrow> rat \<Rightarrow> (db, wallet_tx_row) action" where
  "moveTx e inp w amount =
     andThen (fetch (NotFound WALLET_NOT_FOUND) (findWalletById (w_id w))) (\<lambda>current.
     thenDo (require (\<not> (w_status current = WalletFROZEN \<and> \<not> mv_ignoreFrozen inp))
               (Forbidden WALLET_FROZEN))
     (let isDebit = isDebitMove (mv_txType inp) amount;
          balanceBefore = w_balance current;
          delta = \<bar>amount\<bar>;
          isCredit = \<not> isDebit;
          balanceAfter = (if isCredit then balanceBefore + delta else balanceBefore - delta)
      in thenDo (require (\<not> (isDebit \<and> balanceAfter < 0)) (Forbidden INSUFFICIENT_FUNDS))
         (thenDo (if isDebit
                  then andThen (debitIfCovered (w_id w) delta)
                         (\<lambda>count. require (count \<noteq> 0) (Forbidden INSUFFICIENT_FUNDS))
                  else creditWallet (w_id w) delta)
         (createWalletTx e w (mv_txType inp) (if isCredit then delta else - delta)
            balanceBefore balanceAfter (mv_reference inp) (mv_actorId inp)))))"

definition move :: "env \<Rightarrow> move_input \<Rightarrow> (db, wallet_tx_row) action" where
  "move e inp =
     (case mv_amount inp of
        Malformed \<Rightarrow> raise DecimalError
      | NonFinite \<Rightarrow> raise (Forbidden VALIDATION_FAILED)
      | Fin amount \<Rightarrow>
          thenDo (require (amount \<noteq> 0) (Forbidden VALIDATION_FAILED))
          (andThen (getWallet (mv_account inp) (mv_type inp)) (\<lambda>w.
           thenDo (require (\<not> (w_status w = WalletFROZEN \<and> \<not> mv_ignoreFrozen inp))
                     (Forbidden WALLET_FROZEN))
           (transaction (moveTx e inp w amount)))))"

section \<open>Transfer between the account's wallets\<close>

text \<open>\<open>`WT${Date.now().toString(36)}${Math.random().toString(36).slice(2, 6)}`.slice(0, 20)\<close>.\<close>

definition transferReference :: "env \<Rightarrow> string" where
  "transferReference e =
     take 20 (''WT'' @ base36 (nat (now e)) @ map (\<lambda>i. BASE36 ! (draw e 0 i mod 36)) [0..<4])"

record transfer_dto =
  td_amount :: decimal
  td_reference :: "string option"

definition createTransfer :: "transfer_row \<Rightarrow> (db, transfer_row) action" where
  "createTransfer row = (\<lambda>d.
     if \<exists>x \<in> set (transfers d). x_reference x = x_reference row then (Inl UniqueViolation, d)
     else let row' = row\<lparr>x_id := next_id d\<rparr>
          in (Inr row', d\<lparr>transfers := transfers d @ [row'], next_id := Suc (next_id d)\<rparr>))"

definition transferTx ::
    "env \<Rightarrow> ident \<Rightarrow> wallet_row \<Rightarrow> wallet_row \<Rightarrow> rat \<Rightarrow> computed_fee \<Rightarrow> string \<Rightarrow> string option
     \<Rightarrow> who option \<Rightarrow> (db, transfer_row) action" where
  "transferTx e acct source target amount fee reference clientRef actor =
     (let totalDebit = amount + feeAmount fee in
      andThen (fetch (NotFound WALLET_NOT_FOUND) (findWalletById (w_id source))) (\<lambda>src.
      thenDo (require (w_status src \<noteq> WalletFROZEN) (Forbidden WALLET_FROZEN))
      (let srcBefore = w_balance src; srcAfter = srcBefore - totalDebit in
       thenDo (require (\<not> srcAfter < 0) (Forbidden INSUFFICIENT_FUNDS))
       (andThen (debitIfCovered (w_id source) totalDebit) (\<lambda>count.
        thenDo (require (count \<noteq> 0) (Forbidden INSUFFICIENT_FUNDS))
        (thenDo (createWalletTx e source TRANSFER_OUT (- totalDebit) srcBefore srcAfter
                   (Some reference) actor)
        (andThen (fetch (NotFound WALLET_NOT_FOUND) (findWalletById (w_id target))) (\<lambda>dst.
         thenDo (require (w_status dst \<noteq> WalletFROZEN) (Forbidden WALLET_FROZEN))
         (let dstBefore = w_balance dst; dstAfter = dstBefore + amount in
          thenDo (setWalletBalance (w_id target) dstAfter)
          (thenDo (createWalletTx e target TRANSFER_IN amount dstBefore dstAfter
                     (Some reference) actor)
          (createTransfer \<lparr>x_id = 0, x_account = acct, x_reference = reference,
             x_clientReference = map_option toUpperCase clientRef, x_amount = round2 amount,
             x_feeAmount = round2 (feeAmount fee), x_feeBps = feeBps fee,
             x_currency = w_currency source, x_status = TxSUCCESS,
             x_createdAt = now e\<rparr>)))))))))))"

definition transferCollectionToDisbursement ::
    "env \<Rightarrow> account_key \<Rightarrow> transfer_dto \<Rightarrow> who option \<Rightarrow> (db, transfer_row) action" where
  "transferCollectionToDisbursement e k dto actor =
     andThen (fetch (NotFound NOT_FOUND) (resolveAccountId k)) (\<lambda>resolved.
     andThen (getWallet (RowId resolved) WCOLLECTION) (\<lambda>source.
     andThen (getWallet (RowId resolved) WDISBURSEMENT) (\<lambda>target.
     thenDo (require (w_status source \<noteq> WalletFROZEN) (Forbidden WALLET_FROZEN))
     (thenDo (require (w_status target \<noteq> WalletFROZEN) (Forbidden WALLET_FROZEN))
     (andThen (query (\<lambda>d. truthy (td_reference dto) \<and>
                 (\<exists>x \<in> set (transfers d). x_account x = resolved \<and>
                    x_clientReference x = map_option toUpperCase (td_reference dto)))) (\<lambda>dupe.
      thenDo (require (\<not> dupe) (Conflict DUPLICATE_REFERENCE))
      (case td_amount dto of
         Malformed \<Rightarrow> raise DecimalError
       | NonFinite \<Rightarrow> raise (Forbidden VALIDATION_FAILED)
       | Fin amount \<Rightarrow>
           thenDo (require (\<not> (amount = 0 \<or> amount < 0)) (Forbidden VALIDATION_FAILED))
           (andThen (computeTransferFee resolved (Fin amount)) (\<lambda>fee.
            andThen (transaction (transferTx e resolved source target amount fee
                       (transferReference e) (td_reference dto) actor)) (\<lambda>result.
            thenDo (track e ''wallet.transfer'' (Some (RowId resolved)) (Some amount))
            (ret result)))))))))))"

definition listTransfers :: "account_key \<Rightarrow> nat \<Rightarrow> nat \<Rightarrow> (db, transfer_row list \<times> nat) action" where
  "listTransfers k skip n = query (\<lambda>d.
     let rows = (case resolveAccountId k d of
                   None \<Rightarrow> []
                 | Some i \<Rightarrow> filter (\<lambda>x. x_account x = i) (transfers d))
     in (window skip n (orderDesc x_createdAt rows), length rows))"

section \<open>Freezing, reconciliation\<close>

definition setFrozen :: "env \<Rightarrow> account_key \<Rightarrow> wallet_type \<Rightarrow> bool \<Rightarrow> (db, wallet_row) action" where
  "setFrozen e k ty frozen =
     andThen (getWallet k ty) (\<lambda>w.
     thenDo (modify (\<lambda>d. d\<lparr>wallets := updateWhere (\<lambda>r. w_id r = w_id w)
               (\<lambda>r. r\<lparr>w_status := if frozen then WalletFROZEN else WalletACTIVE\<rparr>) (wallets d)\<rparr>))
     (andThen (fetch RecordNotFound (findWalletById (w_id w))) (\<lambda>updated.
      thenDo (track e (if frozen then ''wallet.freeze'' else ''wallet.activate'')
                (Some k) None)
      (ret updated))))"

record integrity =
  li_balance :: rat
  li_ledgerSum :: rat
  li_transactionCount :: nat
  li_consistent :: bool
  li_discrepancy :: rat

definition ledgerIntegrity :: "account_key \<Rightarrow> wallet_type \<Rightarrow> (db, integrity) action" where
  "ledgerIntegrity k ty =
     andThen (getWallet k ty) (\<lambda>w. query (\<lambda>d.
       let rows = ledgerOf (w_id w) d;
           total = sum_list (map t_amount rows);
           balance = w_balance w
       in \<lparr>li_balance = round2 balance, li_ledgerSum = round2 total,
           li_transactionCount = length rows, li_consistent = (balance = total),
           li_discrepancy = round2 (balance - total)\<rparr>))"

definition CREDIT_TYPES :: "wallet_tx_type list" where
  "CREDIT_TYPES = [DEPOSIT, COLLECTION_CREDIT, REFUND, ADJUSTMENT, TRANSFER_IN]"

definition isCreditType :: "wallet_tx_type \<Rightarrow> bool" where
  "isCreditType ty \<longleftrightarrow> ty \<in> set CREDIT_TYPES"

section \<open>The ledger invariant\<close>

fun chain :: "rat \<Rightarrow> wallet_tx_row list \<Rightarrow> bool" where
  "chain b [] = True"
| "chain b (t # ts) =
     (t_balanceBefore t = b \<and> t_balanceAfter t = b + t_amount t \<and> chain (t_balanceAfter t) ts)"

definition lastAfter :: "wallet_tx_row list \<Rightarrow> rat" where
  "lastAfter ts = (if ts = [] then 0 else t_balanceAfter (last ts))"

definition wallet_ledger_ok :: "db \<Rightarrow> wallet_row \<Rightarrow> bool" where
  "wallet_ledger_ok d w \<longleftrightarrow>
     chain 0 (ledgerOf (w_id w) d) \<and> lastAfter (ledgerOf (w_id w) d) = w_balance w \<and>
     0 \<le> w_balance w \<and> is_cents (w_balance w)"

definition wallets_keyed :: "db \<Rightarrow> bool" where
  "wallets_keyed d \<longleftrightarrow>
     distinct (map w_id (wallets d)) \<and>
     distinct (map (\<lambda>w. (w_account w, w_type w)) (wallets d)) \<and>
     (\<forall>w \<in> set (wallets d). w_id w < next_id d) \<and>
     (\<forall>t \<in> set (wallet_txs d). t_wallet t < next_id d)"

definition ledger_ok :: "db \<Rightarrow> bool" where
  "ledger_ok d \<longleftrightarrow> wallets_keyed d \<and> (\<forall>w \<in> set (wallets d). wallet_ledger_ok d w)"

lemma wallet_ledger_okD:
  assumes "wallet_ledger_ok d w"
  shows "0 \<le> w_balance w" and "is_cents (w_balance w)"
  using assms unfolding wallet_ledger_ok_def by blast+

lemma chain_snoc:
  "chain b (ts @ [t]) \<longleftrightarrow>
     chain b ts \<and> t_balanceBefore t = (if ts = [] then b else t_balanceAfter (last ts)) \<and>
     t_balanceAfter t = t_balanceBefore t + t_amount t"
  by (induction ts arbitrary: b) auto

lemma chain_sum:
  "chain b ts \<Longrightarrow> sum_list (map t_amount ts) = (if ts = [] then b else t_balanceAfter (last ts)) - b"
  by (induction ts arbitrary: b) auto

lemma ledger_sum: "wallet_ledger_ok d w \<Longrightarrow> sum_list (map t_amount (ledgerOf (w_id w) d)) = w_balance w"
  using chain_sum [of 0 "ledgerOf (w_id w) d"]
  by (simp add: wallet_ledger_ok_def lastAfter_def split: if_splits)

lemma empty_ledger_ok [simp]: "ledger_ok empty_db"
  by (simp add: ledger_ok_def wallets_keyed_def empty_db_def)

lemma findWallet_in: "findWallet a ty d = Some w \<Longrightarrow> w \<in> set (wallets d) \<and> w_account w = a \<and> w_type w = ty"
  by (auto simp: findWallet_def dest: find_SomeD)

lemma findWalletById_in: "findWalletById i d = Some w \<Longrightarrow> w \<in> set (wallets d) \<and> w_id w = i"
  by (auto simp: findWalletById_def dest: find_SomeD)

lemma walletByKey_in: "walletByKey k ty d = Some w \<Longrightarrow> w \<in> set (wallets d) \<and> w_type w = ty"
  by (auto simp: walletByKey_def dest!: findWallet_in split: option.splits account_key.splits)

lemma walletByKey_RowId [simp]: "walletByKey (RowId i) ty d = findWallet i ty d"
  by (auto simp: walletByKey_def resolve_RowId split: option.split)

lemma wallet_same_id:
  "wallets_keyed d \<Longrightarrow> w \<in> set (wallets d) \<Longrightarrow> v \<in> set (wallets d) \<Longrightarrow> w_id w = w_id v \<Longrightarrow> w = v"
  by (auto simp: wallets_keyed_def distinct_map inj_on_def)

lemma wallet_same_key:
  "wallets_keyed d \<Longrightarrow> w \<in> set (wallets d) \<Longrightarrow> v \<in> set (wallets d) \<Longrightarrow>
     w_account w = w_account v \<Longrightarrow> w_type w = w_type v \<Longrightarrow> w = v"
  by (auto simp: wallets_keyed_def distinct_map inj_on_def)

lemma findWalletById_mem:
  "wallets_keyed d \<Longrightarrow> w \<in> set (wallets d) \<Longrightarrow> findWalletById (w_id w) d = Some w"
  unfolding findWalletById_def by (rule find_unique) (auto intro: wallet_same_id)

lemma findWallet_mem:
  "wallets_keyed d \<Longrightarrow> w \<in> set (wallets d) \<Longrightarrow> findWallet (w_account w) (w_type w) d = Some w"
  unfolding findWallet_def by (rule find_unique) (auto intro: wallet_same_key)

section \<open>Posting\<close>

text \<open>
  The effect shared by every movement: the wallet's balance becomes the row's
  \<open>balanceAfter\<close>, and the row is appended to the ledger.
\<close>

definition post :: "wallet_tx_row \<Rightarrow> db \<Rightarrow> db" where
  "post row d = d\<lparr>
     wallets := updateWhere (\<lambda>w. w_id w = t_wallet row)
                  (\<lambda>w. w\<lparr>w_balance := t_balanceAfter row\<rparr>) (wallets d),
     wallet_txs := wallet_txs d @ [row],
     next_id := Suc (next_id d)\<rparr>"

text \<open>A row that continues the ledger of wallet \<open>w\<close>.\<close>

definition posts_to :: "wallet_row \<Rightarrow> wallet_tx_row \<Rightarrow> bool" where
  "posts_to w row \<longleftrightarrow>
     t_wallet row = w_id w \<and> t_balanceBefore row = w_balance w \<and>
     t_balanceAfter row = w_balance w + t_amount row \<and>
     0 \<le> t_balanceAfter row \<and> is_cents (t_balanceAfter row)"

lemma ledgerOf_post:
  "ledgerOf i (post row d) = ledgerOf i d @ (if t_wallet row = i then [row] else [])"
  by (simp add: ledgerOf_def post_def)

lemma wallets_keyed_post:
  assumes "wallets_keyed d" and "w \<in> set (wallets d)" and "t_wallet row = w_id w"
  shows "wallets_keyed (post row d)"
  using assms
  by (auto simp: wallets_keyed_def post_def map_updateWhere set_updateWhere less_Suc_eq)

lemma ledger_ok_post:
  assumes ok: "ledger_ok d" and w: "w \<in> set (wallets d)" and row: "posts_to w row"
  shows "ledger_ok (post row d)"
proof -
  have keyed: "wallets_keyed d" using ok by (simp add: ledger_ok_def)
  have wok: "wallet_ledger_ok d w" using ok w by (simp add: ledger_ok_def)
  have "wallet_ledger_ok (post row d) v'" if "v' \<in> set (wallets (post row d))" for v'
  proof -
    have "\<exists>v \<in> set (wallets d).
            v' = (if w_id v = t_wallet row then v\<lparr>w_balance := t_balanceAfter row\<rparr> else v)"
      using that by (simp add: post_def set_updateWhere)
    then obtain v where v: "v \<in> set (wallets d)"
      and v': "v' = (if w_id v = t_wallet row then v\<lparr>w_balance := t_balanceAfter row\<rparr> else v)"
      by (rule bexE)
    show ?thesis
    proof (cases "w_id v = t_wallet row")
      case True
      then have "v = w" using row w v wallet_same_id [OF keyed] by (simp add: posts_to_def)
      with True v' row wok show ?thesis
        by (auto simp: wallet_ledger_ok_def ledgerOf_post posts_to_def chain_snoc lastAfter_def)
    next
      case False
      then have "wallet_ledger_ok d v" using ok v by (simp add: ledger_ok_def)
      moreover have "v' = v" and "ledgerOf (w_id v) (post row d) = ledgerOf (w_id v) d"
        using False v' by (simp_all add: ledgerOf_post)
      ultimately show ?thesis unfolding wallet_ledger_ok_def by simp
    qed
  qed
  then show ?thesis
    using wallets_keyed_post [OF keyed w] row by (simp add: ledger_ok_def posts_to_def)
qed

lemma findWallet_post:
  "findWallet a ty (post row d) =
     map_option (\<lambda>w. if w_id w = t_wallet row then w\<lparr>w_balance := t_balanceAfter row\<rparr> else w)
       (findWallet a ty d)"
  by (simp add: findWallet_def post_def find_updateWhere)

lemma balanceOf_post:
  assumes "wallets_keyed d" and "w \<in> set (wallets d)" and "t_wallet row = w_id w"
  shows "balanceOf a ty (post row d) =
    (if a = w_account w \<and> ty = w_type w then Some (t_balanceAfter row) else balanceOf a ty d)"
proof (cases "findWallet a ty d")
  case None
  then have "\<not> (a = w_account w \<and> ty = w_type w)"
    using findWallet_mem [OF assms(1,2)] by auto
  with None show ?thesis by (simp add: balanceOf_def findWallet_post)
next
  case (Some v)
  with findWallet_in have v: "v \<in> set (wallets d)" "w_account v = a" "w_type v = ty" by blast+
  show ?thesis
  proof (cases "v = w")
    case True
    with Some v assms(3) show ?thesis by (simp add: balanceOf_def findWallet_post)
  next
    case False
    then have "w_id v \<noteq> w_id w" and "\<not> (a = w_account w \<and> ty = w_type w)"
      using wallet_same_id [OF assms(1)] wallet_same_key [OF assms(1)] v assms(2) by blast+
    with Some assms(3) show ?thesis by (auto simp: balanceOf_def findWallet_post)
  qed
qed

section \<open>What a movement does\<close>

text \<open>The ledger row a movement of \<open>amount\<close> writes against wallet \<open>w\<close>.\<close>

definition moveRow :: "env \<Rightarrow> move_input \<Rightarrow> wallet_row \<Rightarrow> rat \<Rightarrow> db \<Rightarrow> wallet_tx_row" where
  "moveRow e inp w amount d =
     (let signed = (if isDebitMove (mv_txType inp) amount then - \<bar>amount\<bar> else \<bar>amount\<bar>)
      in \<lparr>t_id = next_id d, t_wallet = w_id w, t_type = mv_txType inp, t_amount = round2 signed,
          t_balanceBefore = round2 (w_balance w), t_balanceAfter = round2 (w_balance w + signed),
          t_currency = w_currency w, t_reference = mv_reference inp,
          t_createdBy = mv_actorId inp, t_createdAt = now e\<rparr>)"

lemma debit_covered:
  assumes "wallets_keyed d" and "w \<in> set (wallets d)" and "delta \<le> w_balance w"
  shows "debitIfCovered (w_id w) delta d = (Inr (countWhere (\<lambda>v. w_id v = w_id w) (wallets d)),
           d\<lparr>wallets := updateWhere (\<lambda>v. w_id v = w_id w)
               (\<lambda>v. v\<lparr>w_balance := round2 (w_balance w - delta)\<rparr>) (wallets d)\<rparr>)"
proof -
  have same: "v = w" if "v \<in> set (wallets d)" "w_id v = w_id w" for v
    using wallet_same_id [OF assms(1)] that assms(2) by blast
  have "filter (\<lambda>v. w_id v = w_id w \<and> delta \<le> w_balance v) (wallets d)
          = filter (\<lambda>v. w_id v = w_id w) (wallets d)"
    using same assms(3) by (intro filter_cong) auto
  moreover have "updateWhere (\<lambda>v. w_id v = w_id w \<and> delta \<le> w_balance v)
        (\<lambda>v. v\<lparr>w_balance := round2 (w_balance v - delta)\<rparr>) (wallets d)
      = updateWhere (\<lambda>v. w_id v = w_id w)
          (\<lambda>v. v\<lparr>w_balance := round2 (w_balance w - delta)\<rparr>) (wallets d)"
    unfolding updateWhere_def using same assms(3) by (intro map_cong) auto
  ultimately show ?thesis by (simp add: debitIfCovered_def countWhere_def)
qed

lemma credit_wallet:
  assumes "wallets_keyed d" and "w \<in> set (wallets d)"
  shows "andThen (creditWallet (w_id w) delta) k d = k () (
           d\<lparr>wallets := updateWhere (\<lambda>v. w_id v = w_id w)
               (\<lambda>v. v\<lparr>w_balance := round2 (w_balance w + delta)\<rparr>) (wallets d)\<rparr>)"
proof -
  have "updateWhere (\<lambda>v. w_id v = w_id w)
        (\<lambda>v. v\<lparr>w_balance := round2 (w_balance v + delta)\<rparr>) (wallets d)
      = updateWhere (\<lambda>v. w_id v = w_id w)
          (\<lambda>v. v\<lparr>w_balance := round2 (w_balance w + delta)\<rparr>) (wallets d)"
    unfolding updateWhere_def using wallet_same_id [OF assms(1)] assms(2) by (intro map_cong) auto
  then show ?thesis by (simp add: creditWallet_def)
qed

lemma countWhere_pos: "w \<in> set xs \<Longrightarrow> p w \<Longrightarrow> countWhere p xs \<noteq> 0"
  by (auto simp: countWhere_def filter_empty_conv)

lemma moveTx_run:
  assumes keyed: "wallets_keyed d" and w: "w \<in> set (wallets d)"
  shows "moveTx e inp w amount d =
    (if w_status w = WalletFROZEN \<and> \<not> mv_ignoreFrozen inp then (Inl (Forbidden WALLET_FROZEN), d)
     else if isDebitMove (mv_txType inp) amount \<and> w_balance w < \<bar>amount\<bar>
     then (Inl (Forbidden INSUFFICIENT_FUNDS), d)
     else (Inr (moveRow e inp w amount d), post (moveRow e inp w amount d) d))"
proof (cases "isDebitMove (mv_txType inp) amount")
  case True
  show ?thesis
  proof (cases "w_balance w < \<bar>amount\<bar>")
    case True
    with \<open>isDebitMove _ _\<close> show ?thesis
      by (simp add: moveTx_def run findWalletById_mem [OF keyed w] Let_def)
  next
    case False
    then have "\<bar>amount\<bar> \<le> w_balance w" by simp
    note step = debit_covered [OF keyed w this]
    have "countWhere (\<lambda>v. w_id v = w_id w) (wallets d) \<noteq> 0"
      using w by (rule countWhere_pos) simp
    with step have "andThen (andThen (debitIfCovered (w_id w) \<bar>amount\<bar>)
        (\<lambda>count. require (count \<noteq> 0) (Forbidden INSUFFICIENT_FUNDS))) k d
      = k () (d\<lparr>wallets := updateWhere (\<lambda>v. w_id v = w_id w)
               (\<lambda>v. v\<lparr>w_balance := round2 (w_balance w - \<bar>amount\<bar>)\<rparr>) (wallets d)\<rparr>)"
      for k :: "unit \<Rightarrow> (db, wallet_tx_row) action"
      by (simp add: andThen_def run)
    from this False \<open>isDebitMove _ _\<close> show ?thesis
      by (simp add: moveTx_def run findWalletById_mem [OF keyed w] Let_def
                    createWalletTx_def moveRow_def post_def)
  qed
next
  case False
  then show ?thesis
    by (simp add: moveTx_def run findWalletById_mem [OF keyed w] Let_def
                  createWalletTx_def moveRow_def post_def credit_wallet [OF keyed w])
qed

text \<open>The outcome of \<open>move\<close> on every branch, without the actions.\<close>

definition moveSpec :: "env \<Rightarrow> move_input \<Rightarrow> db \<Rightarrow> err + (wallet_row \<times> rat)" where
  "moveSpec e inp d =
     (case mv_amount inp of
        Malformed \<Rightarrow> Inl DecimalError
      | NonFinite \<Rightarrow> Inl (Forbidden VALIDATION_FAILED)
      | Fin amount \<Rightarrow>
          if amount = 0 then Inl (Forbidden VALIDATION_FAILED)
          else (case walletByKey (mv_account inp) (mv_type inp) d of
                  None \<Rightarrow> Inl (NotFound WALLET_NOT_FOUND)
                | Some w \<Rightarrow>
                    if w_status w = WalletFROZEN \<and> \<not> mv_ignoreFrozen inp
                    then Inl (Forbidden WALLET_FROZEN)
                    else if isDebitMove (mv_txType inp) amount \<and> w_balance w < \<bar>amount\<bar>
                    then Inl (Forbidden INSUFFICIENT_FUNDS)
                    else Inr (w, amount)))"

lemma move_run:
  assumes "wallets_keyed d"
  shows "move e inp d =
    (case moveSpec e inp d of
       Inl err \<Rightarrow> (Inl err, d)
     | Inr (w, amount) \<Rightarrow> (Inr (moveRow e inp w amount d), post (moveRow e inp w amount d) d))"
proof (cases "mv_amount inp")
  case (Fin amount)
  show ?thesis
  proof (cases "walletByKey (mv_account inp) (mv_type inp) d")
    case None
    with Fin show ?thesis by (simp add: move_def moveSpec_def getWallet_def run)
  next
    case (Some w)
    then have "w \<in> set (wallets d)" using walletByKey_in by blast
    with Fin Some show ?thesis
      by (simp add: move_def moveSpec_def getWallet_def run transaction_def moveTx_run [OF assms])
  qed
qed (simp_all add: move_def moveSpec_def run)

lemma moveSpec_Inr:
  assumes "moveSpec e inp d = Inr (w, amount)"
  shows "mv_amount inp = Fin amount" and "amount \<noteq> 0"
    and "walletByKey (mv_account inp) (mv_type inp) d = Some w"
    and "w \<in> set (wallets d)" and "w_type w = mv_type inp"
    and "w_status w = WalletFROZEN \<Longrightarrow> mv_ignoreFrozen inp"
    and "isDebitMove (mv_txType inp) amount \<Longrightarrow> \<bar>amount\<bar> \<le> w_balance w"
proof -
  show *: "walletByKey (mv_account inp) (mv_type inp) d = Some w"
    using assms by (auto simp: moveSpec_def split: decimal.splits option.splits if_splits)
  then show "w \<in> set (wallets d)" and "w_type w = mv_type inp" by (auto dest: walletByKey_in)
qed (use assms in \<open>auto simp: moveSpec_def split: decimal.splits option.splits if_splits\<close>)

lemma moveRow_posts:
  assumes ok: "wallet_ledger_ok d w" and spec: "moveSpec e inp d = Inr (w, amount)"
    and cents: "isDebitMove (mv_txType inp) amount \<Longrightarrow> is_cents amount"
  shows "posts_to w (moveRow e inp w amount d)"
proof -
  have b: "0 \<le> w_balance w" "is_cents (w_balance w)" using ok by (auto dest: wallet_ledger_okD)
  show ?thesis
  proof (cases "isDebitMove (mv_txType inp) amount")
    case True
    then have "is_cents \<bar>amount\<bar>" "\<bar>amount\<bar> \<le> w_balance w"
      using cents moveSpec_Inr(7) [OF spec] by auto
    with True b show ?thesis
      using is_cents_diff [of "w_balance w" "\<bar>amount\<bar>"]
      by (simp add: posts_to_def moveRow_def Let_def round2_neg)
  next
    case False
    with b show ?thesis
      by (simp add: posts_to_def moveRow_def Let_def round2_add_cents)
  qed
qed

lemma ledger_ok_move:
  assumes ok: "ledger_ok d"
    and cents: "\<And>a. mv_amount inp = Fin a \<Longrightarrow> isDebitMove (mv_txType inp) a \<Longrightarrow> is_cents a"
  shows "ledger_ok (snd (move e inp d))"
proof (cases "moveSpec e inp d")
  case (Inl err)
  with ok show ?thesis by (simp add: move_run ledger_ok_def)
next
  case (Inr r)
  then obtain w amount where spec: "moveSpec e inp d = Inr (w, amount)" by (cases r) auto
  note s = moveSpec_Inr [OF spec]
  have "posts_to w (moveRow e inp w amount d)"
    using ok s cents by (intro moveRow_posts spec) (auto simp: ledger_ok_def)
  then have "ledger_ok (post (moveRow e inp w amount d) d)" by (rule ledger_ok_post [OF ok s(4)])
  then show ?thesis using ok spec by (simp add: move_run ledger_ok_def)
qed

lemma keeps_move:
  assumes "\<And>d ws ts n. P d \<Longrightarrow> P (d\<lparr>wallets := ws, wallet_txs := ts, next_id := n\<rparr>)"
    and "\<And>d. P d \<Longrightarrow> wallets_keyed d"
  shows "keeps P (move e inp)"
proof (rule keepsI)
  fix d
  assume "P d"
  then show "P (snd (move e inp d))"
    using assms by (auto simp: move_run post_def split: sum.split prod.split)
qed

text \<open>The call the other services make: an account's row id, a finite amount.\<close>

definition walletMove ::
    "env \<Rightarrow> ident \<Rightarrow> wallet_type \<Rightarrow> wallet_tx_type \<Rightarrow> rat \<Rightarrow> string option \<Rightarrow> actor_type
     \<Rightarrow> who option \<Rightarrow> bool \<Rightarrow> (db, wallet_tx_row) action" where
  "walletMove e acct ty txType amount ref actorType actor ignoreFrozen =
     move e \<lparr>mv_account = RowId acct, mv_type = ty, mv_txType = txType, mv_amount = Fin amount,
             mv_reference = ref, mv_actorType = actorType, mv_actorId = actor,
             mv_ignoreFrozen = ignoreFrozen\<rparr>"

lemma walletMove_Inl:
  "wallets_keyed d \<Longrightarrow> walletMove e acct ty x v ref aty actor ig d = (Inl err, d') \<Longrightarrow> d' = d"
  by (auto simp: walletMove_def move_run split: sum.splits)

lemma ledger_ok_walletMove:
  "ledger_ok d \<Longrightarrow> is_cents v \<Longrightarrow> ledger_ok (snd (walletMove e acct ty x v ref aty actor ig d))"
  unfolding walletMove_def by (rule ledger_ok_move) auto

lemma walletMove_Inr:
  assumes ok: "ledger_ok d" and v: "0 < v" "is_cents v"
    and run: "walletMove e acct ty x v ref aty actor ig d = (Inr row, d')"
  obtains w where "findWallet acct ty d = Some w" and "d' = post row d"
    and "t_amount row = (if isDebitMove x v then - v else v)"
    and "t_type row = x" and "t_reference row = ref" and "posts_to w row"
    and "isDebitMove x v \<longrightarrow> v \<le> w_balance w"
    and "w_status w = WalletFROZEN \<longrightarrow> ig"
proof -
  let ?inp = "\<lparr>mv_account = RowId acct, mv_type = ty, mv_txType = x, mv_amount = Fin v,
             mv_reference = ref, mv_actorType = aty, mv_actorId = actor, mv_ignoreFrozen = ig\<rparr>"
  have keyed: "wallets_keyed d" using ok by (simp add: ledger_ok_def)
  obtain w where spec: "moveSpec e ?inp d = Inr (w, v)"
    and row: "row = moveRow e ?inp w v d" and d': "d' = post row d"
    using run by (auto simp: walletMove_def move_run [OF keyed] moveSpec_def
                       split: sum.splits option.splits if_splits)
  note s = moveSpec_Inr [OF spec]
  have "posts_to w row"
    unfolding row using ok s(4) v by (intro moveRow_posts spec) (auto simp: ledger_ok_def)
  moreover have "t_amount row = (if isDebitMove x v then - v else v)"
      and "t_type row = x" and "t_reference row = ref"
    unfolding row using v by (simp_all add: moveRow_def Let_def round2_neg)
  ultimately show ?thesis using that s(3,6,7) d' v by simp
qed

lemma walletMove_balance:
  assumes "ledger_ok d" and "0 < v" "is_cents v"
    and "walletMove e acct ty x v ref aty actor ig d = (Inr row, d')"
  shows "ledger_ok d'"
    and "\<exists>b. balanceOf acct ty d = Some b \<and>
         (isDebitMove x v \<longrightarrow> v \<le> b) \<and>
         balanceOf acct ty d' = Some (if isDebitMove x v then b - v else b + v)"
    and "(a', ty') \<noteq> (acct, ty) \<Longrightarrow> balanceOf a' ty' d' = balanceOf a' ty' d"
proof -
  show "ledger_ok d'" using ledger_ok_walletMove [OF assms(1,3)] assms(4) by (metis snd_conv)
  obtain w where w: "findWallet acct ty d = Some w" "d' = post row d" "posts_to w row"
      "t_amount row = (if isDebitMove x v then - v else v)" "isDebitMove x v \<longrightarrow> v \<le> w_balance w"
    using walletMove_Inr [OF assms] by metis
  note wp = findWallet_in [OF w(1)]
  have keyed: "wallets_keyed d" using assms(1) by (simp add: ledger_ok_def)
  have *: "balanceOf a t d' = (if a = acct \<and> t = ty then Some (t_balanceAfter row)
             else balanceOf a t d)" for a t
    unfolding w(2) using balanceOf_post [OF keyed, of w row a t] wp w(3)
    by (simp add: posts_to_def)
  show "\<exists>b. balanceOf acct ty d = Some b \<and> (isDebitMove x v \<longrightarrow> v \<le> b) \<and>
         balanceOf acct ty d' = Some (if isDebitMove x v then b - v else b + v)"
  proof -
    have "balanceOf acct ty d = Some (w_balance w)" using w(1) by (simp add: balanceOf_def)
    moreover have "balanceOf acct ty d' = Some (t_balanceAfter row)" by (simp add: *)
    ultimately show ?thesis using w(3-5) by (auto simp: posts_to_def)
  qed
  show "(a', ty') \<noteq> (acct, ty) \<Longrightarrow> balanceOf a' ty' d' = balanceOf a' ty' d" by (auto simp: *)
qed

lemma walletMove_credit_total:
  assumes "wallets_keyed d" and "balanceOf acct ty d = Some b" and "0 < v" and "\<not> isDebitMove x v"
  shows "\<exists>row d'. walletMove e acct ty x v ref aty actor True d = (Inr row, d')"
  using assms by (auto simp: walletMove_def move_run moveSpec_def balanceOf_def)

section \<open>The interface the money services use\<close>

text \<open>
  A hold takes a covered amount from one balance; a release gives it back, whatever the
  wallet's freeze state. A failed operation changes nothing.
\<close>

locale wallet_ledger =
  fixes inv :: "'s \<Rightarrow> bool"
    and bal :: "'k \<Rightarrow> 's \<Rightarrow> rat option"
    and hold :: "'k \<Rightarrow> rat \<Rightarrow> 's \<Rightarrow> (err + 'r) \<times> 's"
    and release :: "'k \<Rightarrow> rat \<Rightarrow> 's \<Rightarrow> (err + 'r) \<times> 's"
  assumes hold_ok: "inv s \<Longrightarrow> 0 < v \<Longrightarrow> is_cents v \<Longrightarrow> hold k v s = (Inr r, s') \<Longrightarrow>
      inv s' \<and> (\<exists>b. bal k s = Some b \<and> v \<le> b \<and> bal k s' = Some (b - v)) \<and>
      (\<forall>j. j \<noteq> k \<longrightarrow> bal j s' = bal j s)"
    and hold_err: "inv s \<Longrightarrow> hold k v s = (Inl e, s') \<Longrightarrow> s' = s"
    and release_ok: "inv s \<Longrightarrow> 0 < v \<Longrightarrow> is_cents v \<Longrightarrow> release k v s = (Inr r, s') \<Longrightarrow>
      inv s' \<and> (\<exists>b. bal k s = Some b \<and> bal k s' = Some (b + v)) \<and>
      (\<forall>j. j \<noteq> k \<longrightarrow> bal j s' = bal j s)"
    and release_total: "inv s \<Longrightarrow> 0 < v \<Longrightarrow> is_cents v \<Longrightarrow> bal k s = Some b \<Longrightarrow>
      \<exists>r s'. release k v s = (Inr r, s')"
begin

lemma hold_release_neutral:
  assumes "inv s" and "0 < v" "is_cents v"
    and "hold k v s = (Inr r, s')" and "release k v s' = (Inr q, s'')"
  shows "bal j s'' = bal j s"
proof -
  have h: "inv s'" "\<exists>b. bal k s = Some b \<and> v \<le> b \<and> bal k s' = Some (b - v)"
      "\<forall>j. j \<noteq> k \<longrightarrow> bal j s' = bal j s"
    using hold_ok [OF assms(1-4)] by auto
  have r: "\<exists>b. bal k s' = Some b \<and> bal k s'' = Some (b + v)"
      "\<forall>j. j \<noteq> k \<longrightarrow> bal j s'' = bal j s'"
    using release_ok [OF h(1) assms(2,3,5)] by auto
  show ?thesis using h r by (cases "j = k") auto
qed

lemma release_after_hold:
  assumes "inv s" and "0 < v" "is_cents v" and "hold k v s = (Inr r, s')"
  shows "\<exists>q s''. release k v s' = (Inr q, s'') \<and> (\<forall>j. bal j s'' = bal j s)"
proof -
  have "inv s'" and "\<exists>b. bal k s' = Some b" using hold_ok [OF assms] by auto
  then obtain q s'' where "release k v s' = (Inr q, s'')"
    using release_total assms(2,3) by blast
  then show ?thesis using hold_release_neutral [OF assms] by blast
qed

lemma hold_never_overdraws:
  assumes "inv s" and "0 < v" "is_cents v" and "hold k v s = (Inr r, s')"
    and "\<forall>j b. bal j s = Some b \<longrightarrow> 0 \<le> b"
  shows "\<forall>j b. bal j s' = Some b \<longrightarrow> 0 \<le> b"
proof (intro allI impI)
  fix j b
  assume "bal j s' = Some b"
  then show "0 \<le> b" using hold_ok [OF assms(1-4)] assms(5) by (cases "j = k") force+
qed

end

lemmas wallet_ledger_laws =
  walletMove_balance walletMove_Inl walletMove_credit_total ledger_ok_def isDebitMove_def DEBIT_TYPES_def

text \<open>The hold/refund pairs of the services, on the account's balances.\<close>

definition holdMove ::
    "wallet_tx_type \<Rightarrow> env \<Rightarrow> string option \<Rightarrow> actor_type \<Rightarrow> who option \<Rightarrow> ident \<times> wallet_type \<Rightarrow> rat
     \<Rightarrow> (db, wallet_tx_row) action" where
  "holdMove x e ref aty actor k v = walletMove e (fst k) (snd k) x v ref aty actor False"

definition refundMove ::
    "env \<Rightarrow> string option \<Rightarrow> actor_type \<Rightarrow> who option \<Rightarrow> ident \<times> wallet_type \<Rightarrow> rat
     \<Rightarrow> (db, wallet_tx_row) action" where
  "refundMove e ref aty actor k v = walletMove e (fst k) (snd k) REFUND v ref aty actor True"

lemma hold_refund_ledger:
  assumes "x \<in> set DEBIT_TYPES"
  shows "wallet_ledger ledger_ok (\<lambda>k. balanceOf (fst k) (snd k))
    (holdMove x e ref aty actor) (refundMove e' ref' aty' actor')"
proof
  fix s s' :: db and v :: rat and k :: "ident \<times> wallet_type" and r err b
  assume ok: "ledger_ok s"
  have x: "isDebitMove x v" and R: "\<not> isDebitMove REFUND v"
    using assms by (simp_all add: isDebitMove_def DEBIT_TYPES_def)
  show "holdMove x e ref aty actor k v s = (Inl err, s') \<Longrightarrow> s' = s"
    using ok by (auto simp: holdMove_def ledger_ok_def dest: walletMove_Inl)
  assume v: "0 < v" "is_cents v"
  note bal = walletMove_balance [OF ok v]
  show "ledger_ok s' \<and>
     (\<exists>b. balanceOf (fst k) (snd k) s = Some b \<and> balanceOf (fst k) (snd k) s' = Some (b + v)) \<and>
     (\<forall>j. j \<noteq> k \<longrightarrow> balanceOf (fst j) (snd j) s' = balanceOf (fst j) (snd j) s)"
    if "refundMove e' ref' aty' actor' k v s = (Inr r, s')"
    using bal [OF that [unfolded refundMove_def]] R by (simp add: prod_eq_iff)
  show "ledger_ok s' \<and>
     (\<exists>b. balanceOf (fst k) (snd k) s = Some b \<and> v \<le> b \<and>
          balanceOf (fst k) (snd k) s' = Some (b - v)) \<and>
     (\<forall>j. j \<noteq> k \<longrightarrow> balanceOf (fst j) (snd j) s' = balanceOf (fst j) (snd j) s)"
    if "holdMove x e ref aty actor k v s = (Inr r, s')"
    using bal [OF that [unfolded holdMove_def]] x by (auto simp: prod_eq_iff)
  show "balanceOf (fst k) (snd k) s = Some b \<Longrightarrow>
     \<exists>r s'. refundMove e' ref' aty' actor' k v s = (Inr r, s')"
    using ok v R by (auto simp: refundMove_def ledger_ok_def intro: walletMove_credit_total)
qed

interpretation payout_hold: wallet_ledger ledger_ok "\<lambda>k. balanceOf (fst k) (snd k)"
    "holdMove PAYOUT_DEBIT e ref aty actor" "refundMove e' ref' aty' actor'"
  for e ref aty actor e' ref' aty' actor'
  by (rule hold_refund_ledger) (simp add: DEBIT_TYPES_def)

interpretation withdrawal_hold: wallet_ledger ledger_ok "\<lambda>k. balanceOf (fst k) (snd k)"
    "holdMove WITHDRAWAL e ref aty actor" "refundMove e' ref' aty' actor'"
  for e ref aty actor e' ref' aty' actor'
  by (rule hold_refund_ledger) (simp add: DEBIT_TYPES_def)

interpretation batch_hold: wallet_ledger ledger_ok "\<lambda>k. balanceOf (fst k) (snd k)"
    "holdMove BATCH_HOLD e ref aty actor" "refundMove e' ref' aty' actor'"
  for e ref aty actor e' ref' aty' actor'
  by (rule hold_refund_ledger) (simp add: DEBIT_TYPES_def)


section \<open>What a transfer does\<close>

definition transferRow ::
    "env \<Rightarrow> wallet_row \<Rightarrow> wallet_tx_type \<Rightarrow> rat \<Rightarrow> string \<Rightarrow> who option \<Rightarrow> ident \<Rightarrow> wallet_tx_row" where
  "transferRow e w ty signed reference actor i =
     \<lparr>t_id = i, t_wallet = w_id w, t_type = ty, t_amount = round2 signed,
      t_balanceBefore = round2 (w_balance w), t_balanceAfter = round2 (w_balance w + signed),
      t_currency = w_currency w, t_reference = Some reference, t_createdBy = actor,
      t_createdAt = now e\<rparr>"

definition transferPosted ::
    "env \<Rightarrow> wallet_row \<Rightarrow> wallet_row \<Rightarrow> rat \<Rightarrow> rat \<Rightarrow> string \<Rightarrow> who option \<Rightarrow> db \<Rightarrow> db" where
  "transferPosted e source target amount fee reference actor d =
     post (transferRow e target TRANSFER_IN amount reference actor (Suc (next_id d)))
       (post (transferRow e source TRANSFER_OUT (- (amount + fee)) reference actor (next_id d)) d)"

definition transferRecord ::
    "env \<Rightarrow> ident \<Rightarrow> wallet_row \<Rightarrow> rat \<Rightarrow> computed_fee \<Rightarrow> string \<Rightarrow> string option \<Rightarrow> ident
     \<Rightarrow> transfer_row" where
  "transferRecord e acct source amount fee reference clientRef i =
     \<lparr>x_id = i, x_account = acct, x_reference = reference,
      x_clientReference = map_option toUpperCase clientRef, x_amount = round2 amount,
      x_feeAmount = round2 (feeAmount fee), x_feeBps = feeBps fee,
      x_currency = w_currency source, x_status = TxSUCCESS, x_createdAt = now e\<rparr>"

definition addTransfer :: "transfer_row \<Rightarrow> db \<Rightarrow> db" where
  "addTransfer x d = d\<lparr>transfers := transfers d @ [x], next_id := Suc (next_id d)\<rparr>"

lemma findWalletById_post:
  assumes "wallets_keyed d" and "w \<in> set (wallets d)" and "w_id w \<noteq> t_wallet row"
  shows "findWalletById (w_id w) (post row d) = Some w"
  using findWalletById_mem [OF assms(1,2)] assms(3)
  by (simp add: findWalletById_def post_def find_updateWhere)

lemma transferTx_run:
  assumes keyed: "wallets_keyed d" and s: "s \<in> set (wallets d)" and t: "t \<in> set (wallets d)"
    and diff: "w_id s \<noteq> w_id t"
    and active: "w_status s \<noteq> WalletFROZEN" "w_status t \<noteq> WalletFROZEN"
  shows "transferTx e acct s t v fee ref cref actor d =
    (if w_balance s < v + feeAmount fee then (Inl (Forbidden INSUFFICIENT_FUNDS), d)
     else let d2 = transferPosted e s t v (feeAmount fee) ref actor d;
              x = transferRecord e acct s v fee ref cref (next_id d2)
          in if \<exists>y \<in> set (transfers d). x_reference y = ref then (Inl UniqueViolation, d2)
             else (Inr x, addTransfer x d2))"
proof (cases "w_balance s < v + feeAmount fee")
  case True
  with active show ?thesis by (simp add: transferTx_def run findWalletById_mem [OF keyed s] Let_def)
next
  case False
  then have cov: "v + feeAmount fee \<le> w_balance s" by simp
  let ?out = "transferRow e s TRANSFER_OUT (- (v + feeAmount fee)) ref actor (next_id d)"
  have nz: "countWhere (\<lambda>v. w_id v = w_id s) (wallets d) \<noteq> 0"
    using s by (rule countWhere_pos) simp
  have dst: "findWalletById (w_id t) (post ?out d) = Some t"
    using findWalletById_post [OF keyed t] diff by (simp add: transferRow_def)
  have in_t: "t \<in> set (wallets (post ?out d))" and keyed': "wallets_keyed (post ?out d)"
    using findWalletById_in [OF dst] wallets_keyed_post [OF keyed s]
    by (simp_all add: transferRow_def)
  have out: "andThen (debitIfCovered (w_id s) (v + feeAmount fee))
      (\<lambda>count. thenDo (require (count \<noteq> 0) E)
        (thenDo (createWalletTx e s TRANSFER_OUT (- (v + feeAmount fee)) (w_balance s)
                   (w_balance s - (v + feeAmount fee)) (Some ref) actor) k)) d = k (post ?out d)"
    for E and k :: "(db, transfer_row) action"
    using nz by (simp add: andThen_def run debit_covered [OF keyed s cov] createWalletTx_def
                           transferRow_def post_def Let_def algebra_simps)
  have floor: "\<not> w_balance s - (v + feeAmount fee) < 0" using cov by simp
  show ?thesis
    unfolding transferTx_def Let_def
    by (simp only: andThen_fetch andThen_require findWalletById_mem [OF keyed s] dst out
          option.case active floor False not_False_eq_True if_True if_False simp_thms)
       (simp add: setWalletBalance_def createWalletTx_def andThen_def createTransfer_def
                  transferPosted_def transferRecord_def addTransfer_def transferRow_def
                  post_def Let_def)
qed

text \<open>Both legs continue their ledgers.\<close>

lemma transfer_legs:
  assumes ok: "ledger_ok d" and s: "s \<in> set (wallets d)" and t: "t \<in> set (wallets d)"
    and diff: "w_id s \<noteq> w_id t"
    and v: "0 < v" "is_cents v" and f: "0 \<le> f" "is_cents f" and cov: "v + f \<le> w_balance s"
  shows "ledger_ok (transferPosted e s t v f ref actor d)"
    and "balanceOf a ty (transferPosted e s t v f ref actor d) =
      (if a = w_account s \<and> ty = w_type s then Some (w_balance s - (v + f))
       else if a = w_account t \<and> ty = w_type t then Some (w_balance t + v)
       else balanceOf a ty d)"
proof -
  let ?out = "transferRow e s TRANSFER_OUT (- (v + f)) ref actor (next_id d)"
  let ?in = "transferRow e t TRANSFER_IN v ref actor (Suc (next_id d))"
  have keyed: "wallets_keyed d" using ok by (simp add: ledger_ok_def)
  have sok: "0 \<le> w_balance s" "is_cents (w_balance s)" and tok: "0 \<le> w_balance t" "is_cents (w_balance t)"
    using ok s t by (auto simp: ledger_ok_def dest: wallet_ledger_okD)
  have c: "is_cents (w_balance s - (v + f))" "is_cents (w_balance t + v)" "is_cents (- (v + f))"
    using sok tok v f by blast+
  have out: "posts_to s ?out"
    using c cov sok by (simp add: posts_to_def transferRow_def algebra_simps)
  have ok': "ledger_ok (post ?out d)" by (rule ledger_ok_post [OF ok s out])
  have keyed': "wallets_keyed (post ?out d)" using ok' by (simp add: ledger_ok_def)
  have "findWalletById (w_id t) (post ?out d) = Some t"
    using findWalletById_post [OF keyed t] diff by (simp add: transferRow_def)
  then have t': "t \<in> set (wallets (post ?out d))" by (simp add: findWalletById_in)
  have inn: "posts_to t ?in" using c tok v by (simp add: posts_to_def transferRow_def)
  show "ledger_ok (transferPosted e s t v f ref actor d)"
    unfolding transferPosted_def by (rule ledger_ok_post [OF ok' t' inn])
  have key: "\<not> (w_account t = w_account s \<and> w_type t = w_type s)"
    using wallet_same_key [OF keyed s t] diff by auto
  show "balanceOf a ty (transferPosted e s t v f ref actor d) =
      (if a = w_account s \<and> ty = w_type s then Some (w_balance s - (v + f))
       else if a = w_account t \<and> ty = w_type t then Some (w_balance t + v)
       else balanceOf a ty d)"
  proof -
    have "t_balanceAfter ?out = w_balance s - (v + f)" and "t_wallet ?out = w_id s"
      and "t_balanceAfter ?in = w_balance t + v" and "t_wallet ?in = w_id t"
      using c by (simp_all add: transferRow_def algebra_simps)
    then show ?thesis
      using balanceOf_post [OF keyed' t', of ?in a ty] balanceOf_post [OF keyed s, of ?out a ty] key
      unfolding transferPosted_def by metis
  qed
qed


lemma getConfig_frame:
  "\<exists>fc. snd (getConfig acct d) = d\<lparr>fee_configs := fc\<rparr>"
proof (cases acct d rule: getConfig_cases)
  case fresh
  then show ?thesis by auto
qed (auto intro: exI [of _ "fee_configs d"])

lemma computeTransferFee_run:
  "computeTransferFee acct (Fin v) d =
     (case getConfig acct d of (Inl e, d1) \<Rightarrow> (Inl e, d1) | (Inr c, d1) \<Rightarrow> (Inr (transferFee c v), d1))"
  by (simp add: computeTransferFee_def andThen_def run split: prod.split sum.split)

text \<open>The guards of a transfer, up to the transaction.\<close>

definition transferSpec ::
    "account_key \<Rightarrow> transfer_dto \<Rightarrow> db \<Rightarrow> err + (ident \<times> wallet_row \<times> wallet_row \<times> rat)" where
  "transferSpec k dto d =
     (case resolveAccountId k d of
        None \<Rightarrow> Inl (NotFound NOT_FOUND)
      | Some acct \<Rightarrow>
     (case findWallet acct WCOLLECTION d of
        None \<Rightarrow> Inl (NotFound WALLET_NOT_FOUND)
      | Some s \<Rightarrow>
     (case findWallet acct WDISBURSEMENT d of
        None \<Rightarrow> Inl (NotFound WALLET_NOT_FOUND)
      | Some t \<Rightarrow>
          if w_status s = WalletFROZEN \<or> w_status t = WalletFROZEN
          then Inl (Forbidden WALLET_FROZEN)
          else if truthy (td_reference dto) \<and>
                 (\<exists>x \<in> set (transfers d). x_account x = acct \<and>
                    x_clientReference x = map_option toUpperCase (td_reference dto))
          then Inl (Conflict DUPLICATE_REFERENCE)
          else (case td_amount dto of
                  Malformed \<Rightarrow> Inl DecimalError
                | NonFinite \<Rightarrow> Inl (Forbidden VALIDATION_FAILED)
                | Fin v \<Rightarrow> if v \<le> 0 then Inl (Forbidden VALIDATION_FAILED)
                          else Inr (acct, s, t, v)))))"

lemma transfer_run:
  "transferCollectionToDisbursement e k dto actor d =
    (case transferSpec k dto d of
       Inl err \<Rightarrow> (Inl err, d)
     | Inr (acct, s, t, v) \<Rightarrow>
        andThen (getConfig acct) (\<lambda>c.
        andThen (transaction (transferTx e acct s t v (transferFee c v)
                   (transferReference e) (td_reference dto) actor)) (\<lambda>x.
        thenDo (track e ''wallet.transfer'' (Some (RowId acct)) (Some v)) (ret x))) d)"
proof -
  have pos: "(v = 0 \<or> v < 0) \<longleftrightarrow> v \<le> 0" for v :: rat by auto
  note defs = transferCollectionToDisbursement_def transferSpec_def run getWallet_def
  show ?thesis
  proof (cases "resolveAccountId k d")
    case None
    then show ?thesis by (simp add: defs)
  next
    case acct: (Some acct)
    show ?thesis
    proof (cases "findWallet acct WCOLLECTION d")
      case None
      with acct show ?thesis by (simp add: defs)
    next
      case s: (Some s)
      show ?thesis
      proof (cases "findWallet acct WDISBURSEMENT d")
        case None
        with acct s show ?thesis by (simp add: defs)
      next
        case t: (Some t)
        show ?thesis
          using acct s t
          by (cases "td_amount dto") (auto simp: defs pos computeTransferFee_def andThen_assoc)
      qed
    qed
  qed
qed

lemma transferSpec_Inr:
  assumes keyed: "wallets_keyed d" and spec: "transferSpec k dto d = Inr (acct, s, t, v)"
  shows "resolveAccountId k d = Some acct" and "td_amount dto = Fin v" and "0 < v"
    and "findWallet acct WCOLLECTION d = Some s" and "findWallet acct WDISBURSEMENT d = Some t"
    and "w_status s \<noteq> WalletFROZEN" and "w_status t \<noteq> WalletFROZEN" and "w_id s \<noteq> w_id t"
proof -
  show s: "findWallet acct WCOLLECTION d = Some s" and t: "findWallet acct WDISBURSEMENT d = Some t"
    using spec by (auto simp: transferSpec_def split: option.splits decimal.splits if_splits)
  show "w_id s \<noteq> w_id t"
  proof
    assume "w_id s = w_id t"
    then have "s = t" using wallet_same_id [OF keyed] findWallet_in [OF s] findWallet_in [OF t] by blast
    then show False using findWallet_in [OF s] findWallet_in [OF t] by simp
  qed
qed (use spec in \<open>auto simp: transferSpec_def split: option.splits decimal.splits if_splits\<close>)

text \<open>A transfer that fails has at most created the default fee schedule.\<close>

lemma transfer_Inl_frame:
  assumes keyed: "wallets_keyed d"
    and run: "transferCollectionToDisbursement e k dto actor d = (Inl err, d')"
  shows "\<exists>fc. d' = d\<lparr>fee_configs := fc\<rparr>"
proof (cases "transferSpec k dto d")
  case (Inl er)
  with run show ?thesis by (auto simp: transfer_run intro: exI [of _ "fee_configs d"])
next
  case (Inr r)
  then obtain acct s t v where spec: "transferSpec k dto d = Inr (acct, s, t, v)" by (cases r) auto
  obtain fc where fc: "snd (getConfig acct d) = d\<lparr>fee_configs := fc\<rparr>" using getConfig_frame by blast
  show ?thesis
    using run fc
    by (auto simp: transfer_run spec andThen_def transaction_def track_def ret_run
             split: prod.splits sum.splits)
qed

lemma transfer_Inr:
  assumes keyed: "wallets_keyed d"
    and run: "transferCollectionToDisbursement e k dto actor d = (Inr x, d')"
  obtains acct s t v c fc an where
    "transferSpec k dto d = Inr (acct, s, t, v)"
    and "getConfig acct d = (Inr c, d\<lparr>fee_configs := fc\<rparr>)"
    and "v + feeAmount (transferFee c v) \<le> w_balance s"
    and "\<forall>y \<in> set (transfers d). x_reference y \<noteq> transferReference e"
    and "x = transferRecord e acct s v (transferFee c v) (transferReference e) (td_reference dto)
               (Suc (Suc (next_id d)))"
    and "d' = (addTransfer x (transferPosted e s t v (feeAmount (transferFee c v))
                 (transferReference e) actor (d\<lparr>fee_configs := fc\<rparr>)))\<lparr>analytics := an\<rparr>"
proof -
  obtain acct s t v where spec: "transferSpec k dto d = Inr (acct, s, t, v)"
    using run by (auto simp: transfer_run split: sum.splits)
  obtain fc where fc: "snd (getConfig acct d) = d\<lparr>fee_configs := fc\<rparr>" using getConfig_frame by blast
  note sp = transferSpec_Inr [OF keyed spec]
  obtain c where c: "getConfig acct d = (Inr c, d\<lparr>fee_configs := fc\<rparr>)"
    using run fc by (cases "getConfig acct d") (auto simp: transfer_run spec andThen_def split: sum.splits)
  let ?d = "d\<lparr>fee_configs := fc\<rparr>"
  have keyed': "wallets_keyed ?d" and in_s: "s \<in> set (wallets ?d)" and in_t: "t \<in> set (wallets ?d)"
    using keyed findWallet_in [OF sp(4)] findWallet_in [OF sp(5)] by (simp_all add: wallets_keyed_def)
  note tx = transferTx_run [OF keyed' in_s in_t sp(8,6,7)]
  show ?thesis
    using run that [OF spec c]
    by (auto simp: transfer_run spec andThen_def c transaction_def tx track_def ret_run Let_def
                   transferPosted_def post_def
             split: if_splits)
qed


section \<open>Freezing and reconciliation\<close>

lemma setFrozen_run:
  assumes keyed: "wallets_keyed d" and w: "walletByKey k ty d = Some w"
  shows "setFrozen e k ty b d =
    (Inr (w\<lparr>w_status := if b then WalletFROZEN else WalletACTIVE\<rparr>),
     d\<lparr>wallets := updateWhere (\<lambda>r. w_id r = w_id w)
         (\<lambda>r. r\<lparr>w_status := if b then WalletFROZEN else WalletACTIVE\<rparr>) (wallets d),
       analytics := analytics d @
         [\<lparr>an_name = (if b then ''wallet.freeze'' else ''wallet.activate''), an_value = None,
           an_account = Some k, an_createdAt = now e\<rparr>]\<rparr>)"
proof -
  have "findWalletById (w_id w) d = Some w"
    using findWalletById_mem [OF keyed] walletByKey_in [OF w] by blast
  then have "List.find (\<lambda>r. w_id r = w_id w) (updateWhere (\<lambda>r. w_id r = w_id w)
       (\<lambda>r. r\<lparr>w_status := if b then WalletFROZEN else WalletACTIVE\<rparr>) (wallets d))
     = Some (w\<lparr>w_status := if b then WalletFROZEN else WalletACTIVE\<rparr>)"
    by (simp add: findWalletById_def find_updateWhere)
  then show ?thesis
    by (simp add: setFrozen_def getWallet_def run w track_def findWalletById_def)
qed

lemma ledger_ok_status:
  assumes "ledger_ok d"
  shows "ledger_ok (d\<lparr>wallets := updateWhere p (\<lambda>r. r\<lparr>w_status := s\<rparr>) (wallets d)\<rparr>)"
proof -
  let ?d = "d\<lparr>wallets := updateWhere p (\<lambda>r. r\<lparr>w_status := s\<rparr>) (wallets d)\<rparr>"
  have *: "ledgerOf i ?d = ledgerOf i d" for i
    by (simp add: ledgerOf_def)
  have "wallets_keyed ?d"
    using assms by (auto simp: ledger_ok_def wallets_keyed_def map_updateWhere set_updateWhere)
  then show ?thesis
    using assms by (auto simp: ledger_ok_def set_updateWhere wallet_ledger_ok_def *)
qed

lemma ledger_ok_other [simp]:
  "ledger_ok (d\<lparr>analytics := an\<rparr>) = ledger_ok d"
  "ledger_ok (d\<lparr>fee_configs := fc\<rparr>) = ledger_ok d"
  "ledger_ok (d\<lparr>audits := au\<rparr>) = ledger_ok d"
  by (simp_all add: ledger_ok_def wallets_keyed_def wallet_ledger_ok_def ledgerOf_def)

lemma ledger_ok_cong:
  assumes "wallets d' = wallets d" and "wallet_txs d' = wallet_txs d" and "next_id d \<le> next_id d'"
    and "ledger_ok d"
  shows "ledger_ok d'"
  using assms order_less_le_trans
  by (fastforce simp: ledger_ok_def wallets_keyed_def wallet_ledger_ok_def ledgerOf_def)

lemma balanceOf_cong: "wallets d' = wallets d \<Longrightarrow> balanceOf a ty d' = balanceOf a ty d"
  by (simp add: balanceOf_def findWallet_def)

lemma balanceOf_other [simp]:
  "balanceOf a ty (d\<lparr>analytics := an\<rparr>) = balanceOf a ty d"
  "balanceOf a ty (d\<lparr>fee_configs := fc\<rparr>) = balanceOf a ty d"
  "balanceOf a ty (addTransfer x d) = balanceOf a ty d"
  by (simp_all add: balanceOf_def findWallet_def addTransfer_def)

lemma ledger_ok_addTransfer: "ledger_ok d \<Longrightarrow> ledger_ok (addTransfer x d)"
  by (auto simp: ledger_ok_def wallets_keyed_def wallet_ledger_ok_def ledgerOf_def addTransfer_def
                 less_Suc_eq)

section \<open>Properties\<close>

text \<open>A small database for the witnesses: one account with both wallets, 100.00 collected.\<close>

definition sample_db :: db where
  "sample_db = empty_db\<lparr>
     accounts := [\<lparr>a_id = 0, a_accountId = ''ACC-00000001'', a_accountName = ''Shop'',
       a_sourceCode = ''SHOP'', a_contactEmail = None, a_contactPhone = None,
       a_status = AcctACTIVE, a_billingMode = ModeNONE, a_autoSweep = False,
       a_suspendedBy = None, a_suspendReason = None, a_createdAt = 0\<rparr>],
     wallets :=
       [\<lparr>w_id = 1, w_account = 0, w_type = WCOLLECTION, w_currency = ''TZS'', w_balance = 100,
         w_status = WalletACTIVE\<rparr>,
        \<lparr>w_id = 2, w_account = 0, w_type = WDISBURSEMENT, w_currency = ''TZS'', w_balance = 0,
         w_status = WalletACTIVE\<rparr>],
     wallet_txs :=
       [\<lparr>t_id = 3, t_wallet = 1, t_type = COLLECTION_CREDIT, t_amount = 100, t_balanceBefore = 0,
         t_balanceAfter = 100, t_currency = ''TZS'', t_reference = Some ''C1'',
         t_createdBy = None, t_createdAt = 0\<rparr>],
     next_id := 4\<rparr>"

definition sample_move :: "wallet_tx_type \<Rightarrow> rat \<Rightarrow> move_input" where
  "sample_move x v = \<lparr>mv_account = RowId 0, mv_type = WCOLLECTION, mv_txType = x, mv_amount = Fin v,
     mv_reference = Some ''R1'', mv_actorType = ActorADMIN, mv_actorId = Some SystemActor,
     mv_ignoreFrozen = False\<rparr>"

lemma sample_db_ok: "ledger_ok sample_db"
  by (simp add: ledger_ok_def wallets_keyed_def wallet_ledger_ok_def sample_db_def empty_db_def
                ledgerOf_def lastAfter_def is_cents_def)

lemmas sample_ok = sample_db_ok sample_db_ok [unfolded ledger_ok_def, THEN conjunct1]

text \<open>C4: every movement keeps the ledger invariant: each wallet's rows form an unbroken chain of
  before/after balances, its balance is the end of the chain and the sum of its ledger, and no
  balance is negative. A movement that fails leaves the database exactly as it was.\<close>

theorem move_keeps_ledger:
  assumes "ledger_ok d" and "\<forall>a. mv_amount inp = Fin a \<longrightarrow> is_cents a"
  shows "ledger_ok (snd (move e inp d)) \<and>
    ((\<exists>err. fst (move e inp d) = Inl err) \<longrightarrow> snd (move e inp d) = d) \<and>
    (\<forall>w \<in> set (wallets (snd (move e inp d))).
       0 \<le> w_balance w \<and>
       w_balance w = sum_list (map t_amount (ledgerOf (w_id w) (snd (move e inp d)))))"
proof (intro conjI)
  show ok: "ledger_ok (snd (move e inp d))" using assms by (intro ledger_ok_move) auto
  show "(\<exists>err. fst (move e inp d) = Inl err) \<longrightarrow> snd (move e inp d) = d"
    using assms(1) by (auto simp: move_run ledger_ok_def split: sum.split prod.split)
  show "\<forall>w \<in> set (wallets (snd (move e inp d))). 0 \<le> w_balance w \<and>
           w_balance w = sum_list (map t_amount (ledgerOf (w_id w) (snd (move e inp d))))"
    using ok ledger_sum by (auto simp: ledger_ok_def dest: wallet_ledger_okD)
qed

theorem move_keeps_ledger_witness:
  "ledger_ok (snd (move default_env (sample_move PAYOUT_DEBIT 40) sample_db))"
  using move_keeps_ledger [OF sample_db_ok, of "sample_move PAYOUT_DEBIT 40" default_env]
  by (simp add: sample_move_def is_cents_def)

text \<open>C8: a movement succeeds exactly when its amount is a finite non-zero number, the wallet
  exists, it is not frozen (unless the caller overrides the freeze) and a debit is covered by the
  balance. The direction comes from the ledger type, whatever the sign of the amount, except for an
  ADJUSTMENT; a success posts exactly one row, and moves the balance by its amount.\<close>

theorem move_outcome:
  assumes "ledger_ok d" and "is_cents a" and "mv_amount inp = Fin a"
  shows "((\<exists>row. fst (move e inp d) = Inr row) \<longleftrightarrow>
      (\<exists>w. walletByKey (mv_account inp) (mv_type inp) d = Some w \<and> a \<noteq> 0 \<and>
           (w_status w = WalletFROZEN \<longrightarrow> mv_ignoreFrozen inp) \<and>
           (isDebitMove (mv_txType inp) a \<longrightarrow> \<bar>a\<bar> \<le> w_balance w))) \<and>
    (fst (move e inp d) = Inr row \<longrightarrow>
      wallet_txs (snd (move e inp d)) = wallet_txs d @ [row] \<and>
      t_type row = mv_txType inp \<and>
      t_amount row = (if mv_txType inp \<in> set DEBIT_TYPES \<or> (mv_txType inp = ADJUSTMENT \<and> a < 0)
                      then - \<bar>a\<bar> else \<bar>a\<bar>) \<and>
      (\<exists>w. walletByKey (mv_account inp) (mv_type inp) d = Some w \<and>
           t_balanceBefore row = w_balance w \<and>
           balanceOf (w_account w) (w_type w) (snd (move e inp d)) = Some (w_balance w + t_amount row)))"
proof
  have keyed: "wallets_keyed d" using assms(1) by (simp add: ledger_ok_def)
  show "(\<exists>row. fst (move e inp d) = Inr row) \<longleftrightarrow>
      (\<exists>w. walletByKey (mv_account inp) (mv_type inp) d = Some w \<and> a \<noteq> 0 \<and>
           (w_status w = WalletFROZEN \<longrightarrow> mv_ignoreFrozen inp) \<and>
           (isDebitMove (mv_txType inp) a \<longrightarrow> \<bar>a\<bar> \<le> w_balance w))"
    using assms(3) by (auto simp: move_run [OF keyed] moveSpec_def not_less split: option.split)
  show "fst (move e inp d) = Inr row \<longrightarrow>
      wallet_txs (snd (move e inp d)) = wallet_txs d @ [row] \<and>
      t_type row = mv_txType inp \<and>
      t_amount row = (if mv_txType inp \<in> set DEBIT_TYPES \<or> (mv_txType inp = ADJUSTMENT \<and> a < 0)
                      then - \<bar>a\<bar> else \<bar>a\<bar>) \<and>
      (\<exists>w. walletByKey (mv_account inp) (mv_type inp) d = Some w \<and>
           t_balanceBefore row = w_balance w \<and>
           balanceOf (w_account w) (w_type w) (snd (move e inp d)) = Some (w_balance w + t_amount row))"
  proof (intro impI)
    assume run: "fst (move e inp d) = Inr row"
    obtain w where spec: "moveSpec e inp d = Inr (w, a)" and row: "row = moveRow e inp w a d"
      and d': "snd (move e inp d) = post row d"
      using run assms(3)
      by (auto simp: move_run [OF keyed] moveSpec_def split: sum.splits option.splits if_splits)
    note s = moveSpec_Inr [OF spec]
    have p: "posts_to w row"
      unfolding row using assms s(4) by (intro moveRow_posts spec) (auto simp: ledger_ok_def)
    have "t_amount row = (if mv_txType inp \<in> set DEBIT_TYPES \<or> (mv_txType inp = ADJUSTMENT \<and> a < 0)
                      then - \<bar>a\<bar> else \<bar>a\<bar>)" and "t_type row = mv_txType inp"
      using assms(2) by (simp_all add: row moveRow_def Let_def isDebitMove_def round2_neg)
    moreover have "balanceOf (w_account w) (w_type w) (post row d) = Some (w_balance w + t_amount row)"
      using balanceOf_post [OF keyed s(4), of row] p by (simp add: posts_to_def)
    ultimately show "wallet_txs (snd (move e inp d)) = wallet_txs d @ [row] \<and>
      t_type row = mv_txType inp \<and>
      t_amount row = (if mv_txType inp \<in> set DEBIT_TYPES \<or> (mv_txType inp = ADJUSTMENT \<and> a < 0)
                      then - \<bar>a\<bar> else \<bar>a\<bar>) \<and>
      (\<exists>w. walletByKey (mv_account inp) (mv_type inp) d = Some w \<and>
           t_balanceBefore row = w_balance w \<and>
           balanceOf (w_account w) (w_type w) (snd (move e inp d)) = Some (w_balance w + t_amount row))"
      using s(3) p by (simp add: d' post_def posts_to_def)
  qed
qed

theorem move_outcome_witness:
  "(\<exists>row. fst (move default_env (sample_move PAYOUT_DEBIT (- 40)) sample_db) = Inr row) \<and>
   \<not> (\<exists>row. fst (move default_env (sample_move PAYOUT_DEBIT 140) sample_db) = Inr row)"
proof -
  have c: "is_cents (- 40)" "is_cents 140" by (simp_all add: is_cents_def)
  show ?thesis
    using move_outcome [OF sample_db_ok c(1), of "sample_move PAYOUT_DEBIT (- 40)" default_env]
      move_outcome [OF sample_db_ok c(2), of "sample_move PAYOUT_DEBIT 140" default_env]
    by (simp add: sample_move_def sample_db_def empty_db_def findWallet_def isDebitMove_def DEBIT_TYPES_def)
qed


text \<open>C9: a transfer from the COLLECTION to the DISBURSEMENT wallet is all or nothing. On success the
  source loses the amount plus a fee of at least 0 and at most the amount, the target gains exactly
  the amount, no other balance changes, the ledgers stay consistent, and the transfer is recorded.
  On failure no balance, ledger row or transfer has changed.\<close>

theorem transfer_atomic:
  assumes "ledger_ok d" and "fees_ok d" and "td_amount dto = Fin v" and "is_cents v"
    and "transferCollectionToDisbursement e k dto actor d = (res, d')"
  shows "case res of
      Inl err \<Rightarrow> wallets d' = wallets d \<and> wallet_txs d' = wallet_txs d \<and> transfers d' = transfers d
    | Inr x \<Rightarrow> \<exists>acct bs bt f. resolveAccountId k d = Some acct \<and>
        balanceOf acct WCOLLECTION d = Some bs \<and> balanceOf acct WDISBURSEMENT d = Some bt \<and>
        0 \<le> f \<and> f \<le> v \<and> v + f \<le> bs \<and> x_amount x = v \<and> x_feeAmount x = f \<and>
        balanceOf acct WCOLLECTION d' = Some (bs - v - f) \<and>
        balanceOf acct WDISBURSEMENT d' = Some (bt + v) \<and>
        (\<forall>a ty. a \<noteq> acct \<longrightarrow> balanceOf a ty d' = balanceOf a ty d) \<and>
        transfers d' = transfers d @ [x] \<and> ledger_ok d'"
proof (cases res)
  case (Inl err)
  have keyed: "wallets_keyed d" using assms(1) by (simp add: ledger_ok_def)
  obtain fc where "d' = d\<lparr>fee_configs := fc\<rparr>"
    using transfer_Inl_frame [OF keyed assms(5) [unfolded Inl]] by blast
  with Inl show ?thesis by simp
next
  case (Inr x)
  have keyed: "wallets_keyed d" using assms(1) by (simp add: ledger_ok_def)
  obtain acct s t v' c fc an where spec: "transferSpec k dto d = Inr (acct, s, t, v')"
    and c: "getConfig acct d = (Inr c, d\<lparr>fee_configs := fc\<rparr>)"
    and cov: "v' + feeAmount (transferFee c v') \<le> w_balance s"
    and x: "x = transferRecord e acct s v' (transferFee c v') (transferReference e) (td_reference dto)
               (Suc (Suc (next_id d)))"
    and d': "d' = (addTransfer x (transferPosted e s t v' (feeAmount (transferFee c v'))
                 (transferReference e) actor (d\<lparr>fee_configs := fc\<rparr>)))\<lparr>analytics := an\<rparr>"
    by (rule transfer_Inr [OF keyed assms(5) [unfolded Inr]]) (rule that; assumption)
  let ?f = "feeAmount (transferFee c v)" and ?d = "d\<lparr>fee_configs := fc\<rparr>"
  note sp = transferSpec_Inr [OF keyed spec]
  note ws = findWallet_in [OF sp(4)] findWallet_in [OF sp(5)]
  have v': "v' = v" using sp(2) assms(3) by simp
  have v: "0 \<le> v" "0 < v" using sp(3) v' by simp_all
  have "fee_config_ok c" using getConfig_result_ok assms(2) c by blast
  note f = xfer.fee_nonneg [OF this v(1)] xfer.fee_le [OF this v(1) assms(4)] xfer.fee_cents [of c v]
  have okd: "ledger_ok ?d" and ins: "s \<in> set (wallets ?d)" "t \<in> set (wallets ?d)"
    using assms(1) ws by simp_all
  note legs = transfer_legs [OF okd ins sp(8) v(2) assms(4) f(1) f(3) cov [unfolded v']]
  have bal: "balanceOf a ty d' = (if a = acct \<and> ty = WCOLLECTION then Some (w_balance s - (v + ?f))
       else if a = acct \<and> ty = WDISBURSEMENT then Some (w_balance t + v)
       else balanceOf a ty d)" for a ty
    using legs(2) ws by (simp add: d' v')
  have "ledger_ok d'" using ledger_ok_addTransfer [OF legs(1)] by (simp add: d' v')
  moreover have "transfers d' = transfers d @ [x]"
    by (simp add: d' addTransfer_def transferPosted_def post_def)
  moreover have "x_amount x = v" and "x_feeAmount x = ?f"
    using assms(4) f(3) by (simp_all add: x v' transferRecord_def)
  moreover have "balanceOf acct WCOLLECTION d = Some (w_balance s)"
    and "balanceOf acct WDISBURSEMENT d = Some (w_balance t)"
    using sp(4,5) by (simp_all add: balanceOf_def)
  moreover have "w_balance s - (v + ?f) = w_balance s - v - ?f" by simp
  ultimately have "resolveAccountId k d = Some acct \<and>
        balanceOf acct WCOLLECTION d = Some (w_balance s) \<and>
        balanceOf acct WDISBURSEMENT d = Some (w_balance t) \<and>
        0 \<le> ?f \<and> ?f \<le> v \<and> v + ?f \<le> w_balance s \<and> x_amount x = v \<and> x_feeAmount x = ?f \<and>
        balanceOf acct WCOLLECTION d' = Some (w_balance s - v - ?f) \<and>
        balanceOf acct WDISBURSEMENT d' = Some (w_balance t + v) \<and>
        (\<forall>a ty. a \<noteq> acct \<longrightarrow> balanceOf a ty d' = balanceOf a ty d) \<and>
        transfers d' = transfers d @ [x] \<and> ledger_ok d'"
    using sp(1) f(1,2) cov v' by (simp add: bal)
  then show ?thesis unfolding Inr sum.case by blast
qed

definition sample_transfer :: "rat \<Rightarrow> transfer_dto" where
  "sample_transfer v = \<lparr>td_amount = Fin v, td_reference = Some ''t1''\<rparr>"

lemma sample_transfer_runs:
  "case transferCollectionToDisbursement default_env (RowId 0) (sample_transfer 50) None sample_db of
     (Inr x, d') \<Rightarrow> x_feeAmount x = 1 \<and> balanceOf 0 WDISBURSEMENT d' = Some 50
   | _ \<Rightarrow> False"
  by code_simp

theorem transfer_atomic_witness:
  "\<exists>x d'. transferCollectionToDisbursement default_env (RowId 0) (sample_transfer 50) None sample_db
            = (Inr x, d') \<and> ledger_ok d'"
proof -
  obtain x d' where run: "transferCollectionToDisbursement default_env (RowId 0) (sample_transfer 50)
      None sample_db = (Inr x, d')"
    using sample_transfer_runs by (auto split: prod.splits sum.splits)
  have "fees_ok sample_db" by (simp add: fees_ok_def sample_db_def empty_db_def)
  moreover have "td_amount (sample_transfer 50) = Fin 50" and "is_cents 50"
    by (simp_all add: sample_transfer_def is_cents_def)
  ultimately show ?thesis using transfer_atomic [OF sample_db_ok _ _ _ run] run by auto
qed

text \<open>A client reference is good for one transfer: after a transfer that carried a non-empty
  reference, a second transfer of the same account with the same reference in any letter case is
  refused as a duplicate, or because a wallet was frozen, with no change of the database.\<close>

theorem transfer_reference_once:
  assumes "ledger_ok d"
    and "transferCollectionToDisbursement e k dto actor d = (Inr x, d')"
    and "resolveAccountId k' d' = resolveAccountId k d"
    and "truthy (td_reference dto)" and "truthy (td_reference dto')"
    and "map_option toUpperCase (td_reference dto') = map_option toUpperCase (td_reference dto)"
  shows "transferCollectionToDisbursement e' k' dto' actor' d'
           \<in> {(Inl (Conflict DUPLICATE_REFERENCE), d'), (Inl (Forbidden WALLET_FROZEN), d')}"
proof -
  have keyed: "wallets_keyed d" using assms(1) by (simp add: ledger_ok_def)
  obtain acct s t v c fc an where spec: "transferSpec k dto d = Inr (acct, s, t, v)"
    and x: "x = transferRecord e acct s v (transferFee c v) (transferReference e) (td_reference dto)
               (Suc (Suc (next_id d)))"
    and d': "d' = (addTransfer x (transferPosted e s t v (feeAmount (transferFee c v))
                 (transferReference e) actor (d\<lparr>fee_configs := fc\<rparr>)))\<lparr>analytics := an\<rparr>"
    by (rule transfer_Inr [OF keyed assms(2)]) (rule that; assumption)
  note sp = transferSpec_Inr [OF keyed spec]
  have bal: "balanceOf a ty d' = balanceOf a ty (transferPosted e s t v (feeAmount (transferFee c v))
                 (transferReference e) actor (d\<lparr>fee_configs := fc\<rparr>))" for a ty
    by (simp add: d')
  have fw: "findWallet acct ty d' \<noteq> None" if "findWallet acct ty d \<noteq> None" for ty
    using that by (simp add: d' findWallet_def addTransfer_def transferPosted_def post_def
                             find_updateWhere)
  have x_in: "x \<in> set (transfers d')" by (simp add: d' addTransfer_def)
  have x_ref: "x_account x = acct" "x_clientReference x = map_option toUpperCase (td_reference dto)"
    by (simp_all add: x transferRecord_def)
  obtain s' t' where "findWallet acct WCOLLECTION d' = Some s'" "findWallet acct WDISBURSEMENT d' = Some t'"
    using fw sp(4,5) by fastforce
  then have "transferSpec k' dto' d' \<in> {Inl (Conflict DUPLICATE_REFERENCE), Inl (Forbidden WALLET_FROZEN)}"
    using assms(3-6) sp(1) x_in x_ref by (auto simp: transferSpec_def)
  then show ?thesis by (auto simp: transfer_run)
qed

theorem transfer_reference_once_witness:
  "\<exists>x d'. transferCollectionToDisbursement default_env (RowId 0) (sample_transfer 50) None sample_db
            = (Inr x, d') \<and>
     transferCollectionToDisbursement default_env (RowId 0) (sample_transfer 1) None d'
       \<in> {(Inl (Conflict DUPLICATE_REFERENCE), d'), (Inl (Forbidden WALLET_FROZEN), d')}"
proof -
  obtain x d' where run: "transferCollectionToDisbursement default_env (RowId 0) (sample_transfer 50)
      None sample_db = (Inr x, d')"
    using sample_transfer_runs by (auto split: prod.splits sum.splits)
  have "resolveAccountId (RowId 0) (snd (transferCollectionToDisbursement default_env (RowId 0)
      (sample_transfer 50) None sample_db)) = resolveAccountId (RowId 0) sample_db" by code_simp
  then have r: "resolveAccountId (RowId 0) d' = resolveAccountId (RowId 0) sample_db" by (simp add: run)
  have t: "truthy (td_reference (sample_transfer v))" for v by (simp add: sample_transfer_def truthy_def)
  show ?thesis
    using transfer_reference_once [OF sample_db_ok run r t t] run by (simp add: sample_transfer_def)
qed

text \<open>Reconciliation never reports a discrepancy: for every wallet, \<open>ledgerIntegrity\<close> finds the
  balance equal to the sum of the ledger, and counts its rows.\<close>

theorem ledgerIntegrity_consistent:
  assumes "ledger_ok d" and "ledgerIntegrity k ty d = (Inr r, d')"
  shows "d' = d \<and> li_consistent r \<and> li_discrepancy r = 0 \<and> li_ledgerSum r = li_balance r \<and>
    (\<exists>w. walletByKey k ty d = Some w \<and> li_balance r = w_balance w \<and>
         li_transactionCount r = length (ledgerOf (w_id w) d))"
proof -
  obtain w where w: "walletByKey k ty d = Some w"
    using assms(2) by (auto simp: ledgerIntegrity_def getWallet_def run split: option.splits)
  then have "wallet_ledger_ok d w" using assms(1) walletByKey_in by (fastforce simp: ledger_ok_def)
  then show ?thesis
    using assms(2) w ledger_sum [of d w] wallet_ledger_okD [of d w]
    by (auto simp: ledgerIntegrity_def getWallet_def run Let_def)
qed

theorem ledgerIntegrity_consistent_witness:
  "\<exists>r d'. ledgerIntegrity (RowId 0) WCOLLECTION sample_db = (Inr r, d') \<and> li_consistent r"
proof -
  have "isl (fst (ledgerIntegrity (RowId 0) WCOLLECTION sample_db)) = False" by code_simp
  then obtain r d' where "ledgerIntegrity (RowId 0) WCOLLECTION sample_db = (Inr r, d')"
    by (cases "ledgerIntegrity (RowId 0) WCOLLECTION sample_db") (auto simp: isl_def, metis obj_sumE)
  with ledgerIntegrity_consistent [OF sample_db_ok this] show ?thesis by blast
qed

text \<open>A frozen wallet rejects every movement that does not override the freeze, of every ledger
  type, an ADJUSTMENT included, and every transfer of its account; the database does not change.
  Unfreezing brings back exactly the balances there were.\<close>

theorem frozen_wallet_rejects:
  assumes "ledger_ok d" and "walletByKey k ty d = Some w"
    and "setFrozen e k ty True d = (r, d')"
    and "mv_account inp = RowId (w_account w)" and "mv_type inp = ty" and "\<not> mv_ignoreFrozen inp"
    and "mv_amount inp = Fin a" and "a \<noteq> 0"
  shows "move e' inp d' = (Inl (Forbidden WALLET_FROZEN), d') \<and> ledger_ok d' \<and>
    (\<forall>a ty. balanceOf a ty d' = balanceOf a ty d)"
proof -
  have keyed: "wallets_keyed d" using assms(1) by (simp add: ledger_ok_def)
  note in_w = walletByKey_in [OF assms(2)]
  obtain an where d': "d' = d\<lparr>wallets := updateWhere (\<lambda>r. w_id r = w_id w)
         (\<lambda>r. r\<lparr>w_status := WalletFROZEN\<rparr>) (wallets d), analytics := an\<rparr>"
    using setFrozen_run [OF keyed assms(2), of e True] assms(3) by auto
  have ok: "ledger_ok d'"
    unfolding d' using ledger_ok_status [OF assms(1)] ledger_ok_other(1) by simp
  have fw: "findWallet a ty d' = map_option (\<lambda>r. if w_id r = w_id w then r\<lparr>w_status := WalletFROZEN\<rparr> else r)
              (findWallet a ty d)" for a ty
    by (simp add: d' findWallet_def find_updateWhere)
  have "findWallet (w_account w) ty d = Some w" using findWallet_mem [OF keyed] in_w by blast
  then have "walletByKey (RowId (w_account w)) ty d' = Some (w\<lparr>w_status := WalletFROZEN\<rparr>)"
    by (simp add: fw)
  then have "moveSpec e' inp d' = Inl (Forbidden WALLET_FROZEN)"
    using assms(4-8) by (simp add: moveSpec_def)
  moreover have "balanceOf a ty d' = balanceOf a ty d" for a ty
    by (cases "findWallet a ty d") (simp_all add: balanceOf_def fw)
  ultimately show ?thesis using ok by (simp add: move_run ledger_ok_def)
qed

theorem frozen_wallet_rejects_witness:
  "\<exists>r d'. setFrozen default_env (RowId 0) WCOLLECTION True sample_db = (r, d') \<and>
     move default_env (sample_move ADJUSTMENT 5) d' = (Inl (Forbidden WALLET_FROZEN), d')"
proof -
  obtain r d' where f: "setFrozen default_env (RowId 0) WCOLLECTION True sample_db = (r, d')"
    by (cases "setFrozen default_env (RowId 0) WCOLLECTION True sample_db")
  obtain w where w: "walletByKey (RowId 0) WCOLLECTION sample_db = Some w" and "w_account w = 0"
    by (simp add: findWallet_def sample_db_def empty_db_def)
  with frozen_wallet_rejects [OF sample_db_ok w f, of "sample_move ADJUSTMENT 5" 5] f show ?thesis
    by (simp add: sample_move_def)
qed


end
