(* ===== verification/Queue.thy ===== *)
theory Queue
  imports Schema Strings
begin

text \<open>
  iii/queue.service.ts: the durable work queue. Jobs are rows; a worker claims one due job at a
  time in one SQL statement (\<open>FOR UPDATE SKIP LOCKED\<close>, so a claim is one atomic step), runs its
  handler, and marks the job completed, to be retried after an exponential delay, or dead.

  The queue as a whole is a step relation over the database and the jobs that workers hold:
  enqueue, claim, finish (well or badly) and the crash of a worker, in any order. The iii engine
  driver only registers the same handlers elsewhere.
\<close>

section \<open>Operations\<close>

text \<open>The \<open>register\<close> calls of the modules: each queue with its attempt limit.\<close>

definition registered :: "env \<Rightarrow> (string \<times> nat) list" where
  "registered e =
     [(''webhook.deliver'', 6),
      (''sms.send'', cfg_queueMaxAttempts (cfg e)),
      (''payout.process'', cfg_queueMaxAttempts (cfg e)),
      (''batch.process'', cfg_queueMaxAttempts (cfg e))]"

definition jobMaxAttempts :: "env \<Rightarrow> string \<Rightarrow> nat option \<Rightarrow> nat" where
  "jobMaxAttempts e q given =
     (case given of Some n \<Rightarrow> n
      | None \<Rightarrow> (case map_of (registered e) q of Some n \<Rightarrow> n | None \<Rightarrow> 5))"

definition enqueue :: "env \<Rightarrow> string \<Rightarrow> job_payload \<Rightarrow> int \<Rightarrow> (db, ident) action" where
  "enqueue e q payload delayMs = (\<lambda>d.
     let job = \<lparr>j_id = next_id d, j_queue = q, j_payload = payload, j_status = JobPENDING,
                j_attempts = 0, j_maxAttempts = jobMaxAttempts e q None, j_runAt = now e + delayMs,
                j_lockedAt = None, j_lockedBy = None, j_lastError = None, j_completedAt = None,
                j_createdAt = now e\<rparr>
     in (Inr (j_id job), d\<lparr>jobs := jobs d @ [job], next_id := Suc (next_id d)\<rparr>))"

definition due :: "env \<Rightarrow> job_row \<Rightarrow> bool" where
  "due e j \<longleftrightarrow> j_status j = JobPENDING \<and> j_runAt j \<le> now e"

text \<open>The claimed job is the oldest due one.\<close>

definition nextJob :: "env \<Rightarrow> db \<Rightarrow> job_row option" where
  "nextJob e d = (case orderAsc j_createdAt (filter (due e) (jobs d)) of [] \<Rightarrow> None | j # _ \<Rightarrow> Some j)"

definition claimed :: "env \<Rightarrow> string \<Rightarrow> job_row \<Rightarrow> job_row" where
  "claimed e worker j = j\<lparr>j_status := JobPROCESSING, j_lockedAt := Some (now e),
     j_lockedBy := Some worker, j_attempts := Suc (j_attempts j)\<rparr>"

definition claim :: "env \<Rightarrow> string \<Rightarrow> (db, job_row option) action" where
  "claim e worker = (\<lambda>d.
     case nextJob e d of
       None \<Rightarrow> (Inr None, d)
     | Some j \<Rightarrow> (Inr (Some (claimed e worker j)),
         d\<lparr>jobs := updateWhere (\<lambda>r. j_id r = j_id j) (claimed e worker) (jobs d)\<rparr>))"

text \<open>\<open>job.update\<close>: the row must exist.\<close>

definition updateJob :: "ident \<Rightarrow> (job_row \<Rightarrow> job_row) \<Rightarrow> (db, unit) action" where
  "updateJob i f = (\<lambda>d.
     if \<exists>r \<in> set (jobs d). j_id r = i
     then (Inr (), d\<lparr>jobs := updateWhere (\<lambda>r. j_id r = i) f (jobs d)\<rparr>)
     else (Inl RecordNotFound, d))"

fun errText :: "err \<Rightarrow> string" where
  "errText (JsError m) = m"
| "errText (BadRequest _) = ''Bad Request''"
| "errText (Unauthorized _) = ''Unauthorized''"
| "errText (Forbidden _) = ''Forbidden''"
| "errText (NotFound _) = ''Not Found''"
| "errText (Conflict _) = ''Conflict''"
| "errText UniqueViolation = ''Unique constraint failed''"
| "errText ForeignKeyViolation = ''Foreign key constraint failed''"
| "errText RecordNotFound = ''Record to update not found''"
| "errText DecimalError = ''[DecimalError] Invalid argument''"

definition backoffMs :: "env \<Rightarrow> nat \<Rightarrow> int" where
  "backoffMs e n = cfg_queueBackoffBase (cfg e) * 2 ^ min n 6"

definition completedJob :: "env \<Rightarrow> job_row \<Rightarrow> job_row" where
  "completedJob e r = r\<lparr>j_status := JobCOMPLETED, j_completedAt := Some (now e), j_lastError := None\<rparr>"

text \<open>The row after a failure, from the job as it was claimed.\<close>

definition failedJob :: "env \<Rightarrow> job_row \<Rightarrow> err \<Rightarrow> job_row \<Rightarrow> job_row" where
  "failedJob e job err r =
     (let exhausted = j_maxAttempts job \<le> j_attempts job
      in r\<lparr>j_status := (if exhausted then JobDEAD else JobPENDING),
           j_runAt := (if exhausted then j_runAt r else now e + backoffMs e (j_attempts job)),
           j_lastError := Some (take 1000 (errText err))\<rparr>)"

definition finishOk :: "env \<Rightarrow> job_row \<Rightarrow> (db, unit) action" where
  "finishOk e job = updateJob (j_id job) (completedJob e)"

definition finishErr :: "env \<Rightarrow> job_row \<Rightarrow> err \<Rightarrow> (db, unit) action" where
  "finishErr e job err =
     attempt (updateJob (j_id job) (failedJob e job err)) (\<lambda>_. ret ())"

text \<open>\<open>process\<close>: \<open>handlers\<close> looks up the handler registered for a queue.\<close>

definition processJob ::
    "env \<Rightarrow> (string \<Rightarrow> (job_payload \<Rightarrow> (db, unit) action) option) \<Rightarrow> job_row \<Rightarrow> (db, unit) action" where
  "processJob e handlers job =
     attempt
       (case handlers (j_queue job) of
          None \<Rightarrow> raise (JsError ''no handler registered'')
        | Some h \<Rightarrow> thenDo (h (j_payload job)) (finishOk e job))
       (finishErr e job)"

text \<open>One round of \<open>poll\<close>: claim and process until no job is due or the slots are used up.\<close>

fun pollJobs ::
    "env \<Rightarrow> string \<Rightarrow> (string \<Rightarrow> (job_payload \<Rightarrow> (db, unit) action) option) \<Rightarrow> nat \<Rightarrow> (db, unit) action" where
  "pollJobs e worker handlers 0 = ret ()"
| "pollJobs e worker handlers (Suc slots) =
     andThen (claim e worker) (\<lambda>r.
       case r of
         None \<Rightarrow> ret ()
       | Some job \<Rightarrow> thenDo (processJob e handlers job) (pollJobs e worker handlers slots))"

section \<open>The queue as a state machine\<close>

text \<open>
  A state is the database and the claimed jobs that workers are running. Handlers change other
  tables and enqueue jobs; the former is any change that leaves the job table and only moves
  \<open>next_id\<close> up.
\<close>

type_synonym queue_state = "db \<times> job_row list"

definition limits_ok :: "env \<Rightarrow> bool" where
  "limits_ok e \<longleftrightarrow> 1 \<le> cfg_queueMaxAttempts (cfg e)"

inductive queue_step :: "queue_state \<Rightarrow> queue_state \<Rightarrow> bool" where
  step_enqueue: "limits_ok e \<Longrightarrow> queue_step (d, held) (snd (enqueue e q p delay d), held)"
| step_claim: "claim e worker d = (Inr (Some job), d') \<Longrightarrow> queue_step (d, held) (d', job # held)"
| step_done: "job \<in> set held \<Longrightarrow> finishOk e job d = (r, d') \<Longrightarrow>
     queue_step (d, held) (d', filter (\<lambda>k. j_id k \<noteq> j_id job) held)"
| step_failed: "job \<in> set held \<Longrightarrow> finishErr e job err d = (r, d') \<Longrightarrow>
     queue_step (d, held) (d', filter (\<lambda>k. j_id k \<noteq> j_id job) held)"
| step_crash: "job \<in> set held \<Longrightarrow> queue_step (d, held) (d, filter (\<lambda>k. j_id k \<noteq> j_id job) held)"
| step_other: "jobs d' = jobs d \<Longrightarrow> next_id d \<le> next_id d' \<Longrightarrow> queue_step (d, held) (d', held)"

inductive queue_reachable :: "queue_state \<Rightarrow> bool" where
  reach_init: "jobs d = [] \<Longrightarrow> queue_reachable (d, [])"
| reach_step: "queue_reachable s \<Longrightarrow> queue_step s t \<Longrightarrow> queue_reachable t"

inductive_cases queue_step_cases: "queue_step (d, held) t"

definition job_ok :: "job_row \<Rightarrow> bool" where
  "job_ok j \<longleftrightarrow> j_attempts j \<le> j_maxAttempts j \<and>
     (j_status j = JobPENDING \<longrightarrow> j_attempts j < j_maxAttempts j) \<and>
     (j_status j = JobDEAD \<longrightarrow> j_attempts j = j_maxAttempts j)"

text \<open>A held job is a processing row of the table, with the same counts.\<close>

definition backed :: "job_row list \<Rightarrow> job_row \<Rightarrow> bool" where
  "backed js k \<longleftrightarrow> (\<exists>j \<in> set js. j_id j = j_id k \<and> j_status j = JobPROCESSING \<and>
     j_attempts j = j_attempts k \<and> j_maxAttempts j = j_maxAttempts k)"

definition queue_inv :: "queue_state \<Rightarrow> bool" where
  "queue_inv s \<longleftrightarrow>
     distinct (map j_id (jobs (fst s))) \<and> (\<forall>j \<in> set (jobs (fst s)). j_id j < next_id (fst s) \<and> job_ok j) \<and>
     distinct (map j_id (snd s)) \<and> list_all (backed (jobs (fst s))) (snd s)"

lemma backedE:
  assumes "list_all (backed js) held" and "k \<in> set held"
  obtains j where "j \<in> set js" and "j_id j = j_id k" and "j_status j = JobPROCESSING"
    and "j_attempts j = j_attempts k" and "j_maxAttempts j = j_maxAttempts k"
  using assms by (auto simp: list_all_iff backed_def)

lemma job_row_update_simps:
  "jobs (d\<lparr>jobs := js\<rparr>) = js" "next_id (d\<lparr>jobs := js\<rparr>) = next_id d"
  by simp_all

lemma queue_invI:
  assumes "distinct (map j_id js)" and "\<And>j. j \<in> set js \<Longrightarrow> j_id j < n \<and> job_ok j"
    and "distinct (map j_id held)" and "\<And>k. k \<in> set held \<Longrightarrow> backed js k"
    and "jobs d = js" and "next_id d = n"
  shows "queue_inv (d, held)"
  using assms by (simp add: queue_inv_def list_all_iff)

lemma nextJob_Some: "nextJob e d = Some j \<Longrightarrow> j \<in> set (jobs d) \<and> due e j"
proof -
  assume "nextJob e d = Some j"
  then have "j \<in> set (orderAsc j_createdAt (filter (due e) (jobs d)))"
    by (auto simp: nextJob_def split: list.splits)
  then show ?thesis by (simp add: orderAsc_def)
qed

lemma nextJob_oldest:
  assumes "nextJob e d = Some j" and "k \<in> set (jobs d)" and "due e k"
  shows "j_createdAt j \<le> j_createdAt k"
proof -
  obtain js where js: "orderAsc j_createdAt (filter (due e) (jobs d)) = j # js"
    using assms(1) by (auto simp: nextJob_def split: list.splits)
  have "sorted (map j_createdAt (j # js))" using js by (metis orderAsc_def sorted_sort_key)
  moreover have "k \<in> set (j # js)" using assms(2,3) js [symmetric] by (simp add: orderAsc_def)
  ultimately show ?thesis by auto
qed

lemma nextJob_None: "nextJob e d = None \<longleftrightarrow> (\<forall>k \<in> set (jobs d). \<not> due e k)"
proof -
  have "nextJob e d = None \<longleftrightarrow> orderAsc j_createdAt (filter (due e) (jobs d)) = []"
    by (simp add: nextJob_def split: list.split)
  also have "\<dots> \<longleftrightarrow> filter (due e) (jobs d) = []" by (metis orderAsc_def set_empty set_sort)
  finally show ?thesis by (simp add: filter_empty_conv)
qed

lemma jobs_update_distinct:
  "(\<And>r. j_id (f r) = j_id r) \<Longrightarrow> map j_id (updateWhere p f js) = map j_id js"
  by (rule map_updateWhere)

lemma job_same_id:
  "distinct (map j_id js) \<Longrightarrow> a \<in> set js \<Longrightarrow> b \<in> set js \<Longrightarrow> j_id a = j_id b \<Longrightarrow> a = b"
  by (auto simp: distinct_map inj_on_def)

lemma jobMaxAttempts_pos: "limits_ok e \<Longrightarrow> 1 \<le> jobMaxAttempts e q None"
  by (auto simp: limits_ok_def jobMaxAttempts_def registered_def split: option.splits if_splits)

lemma updateJob_run:
  "updateJob i f d = (r, d') \<Longrightarrow> d' = d\<lparr>jobs := updateWhere (\<lambda>x. j_id x = i) f (jobs d)\<rparr>"
proof -
  assume u: "updateJob i f d = (r, d')"
  show ?thesis
  proof (cases "\<exists>x \<in> set (jobs d). j_id x = i")
    case False
    then have "updateWhere (\<lambda>x. j_id x = i) f (jobs d) = jobs d" by (intro updateWhere_none) auto
    with u False show ?thesis by (simp add: updateJob_def)
  qed (use u in \<open>simp add: updateJob_def\<close>)
qed

lemma finishErr_run:
  "finishErr e job err d = (r, d') \<Longrightarrow>
     d' = d\<lparr>jobs := updateWhere (\<lambda>x. j_id x = j_id job) (failedJob e job err) (jobs d)\<rparr>"
  by (auto simp: finishErr_def attempt_def ret_run dest: updateJob_run split: prod.splits sum.splits)

text \<open>Finishing a held job replaces its row and keeps the invariant.\<close>

lemma queue_inv_finish:
  assumes inv: "queue_inv (d, held)" and job: "job \<in> set held"
    and id: "\<And>r. j_id (f r) = j_id r"
    and ok: "\<And>r. j_status r = JobPROCESSING \<Longrightarrow> j_attempts r = j_attempts job \<Longrightarrow>
               j_maxAttempts r = j_maxAttempts job \<Longrightarrow> job_ok r \<Longrightarrow> job_ok (f r)"
  shows "queue_inv (d\<lparr>jobs := updateWhere (\<lambda>x. j_id x = j_id job) f (jobs d)\<rparr>,
                    filter (\<lambda>k. j_id k \<noteq> j_id job) held)"
proof (rule queue_invI [OF _ _ _ _ job_row_update_simps])
  note i = inv [unfolded queue_inv_def fst_conv snd_conv]
  obtain j where j: "j \<in> set (jobs d)" "j_id j = j_id job" "j_status j = JobPROCESSING"
      "j_attempts j = j_attempts job" "j_maxAttempts j = j_maxAttempts job"
    using i job backedE by metis
  fix r
  assume "r \<in> set (updateWhere (\<lambda>x. j_id x = j_id job) f (jobs d))"
  then show "j_id r < next_id d \<and> job_ok r"
  proof (cases rule: in_updateWhereE)
    case (updated x)
    then have "x = j" using job_same_id updated(1) j(1,2) i by metis
    moreover have "j_id j < next_id d" and "job_ok j" using i j(1) by blast+
    ultimately show ?thesis using updated(3) j(3-5) ok id by simp
  qed (use i in simp)
next
  fix k
  assume k: "k \<in> set (filter (\<lambda>k. j_id k \<noteq> j_id job) held)"
  then obtain y where y: "y \<in> set (jobs d)" "j_id y = j_id k" "j_status y = JobPROCESSING"
      "j_attempts y = j_attempts k" "j_maxAttempts y = j_maxAttempts k"
    using inv backedE unfolding queue_inv_def fst_conv snd_conv by (metis filter_is_subset subsetD)
  moreover have "y \<in> set (updateWhere (\<lambda>x. j_id x = j_id job) f (jobs d))"
    using k y(1,2) by (auto simp: set_updateWhere intro!: bexI [of _ y])
  ultimately show "backed (updateWhere (\<lambda>x. j_id x = j_id job) f (jobs d)) k"
    unfolding backed_def by blast
qed (use inv id in \<open>simp_all add: queue_inv_def map_updateWhere distinct_map_filter\<close>)

lemma failedJob_ok:
  assumes "j_attempts r = j_attempts job" and "j_maxAttempts r = j_maxAttempts job" and "job_ok r"
  shows "job_ok (failedJob e job err r)"
  using assms by (auto simp: failedJob_def job_ok_def Let_def)

lemma queue_inv_claim:
  assumes inv: "queue_inv (d, held)" and c: "claim e worker d = (Inr (Some job), d')"
  shows "queue_inv (d', job # held)"
proof -
  note i = inv [unfolded queue_inv_def fst_conv snd_conv]
  obtain j where nxt: "nextJob e d = Some j" and job: "job = claimed e worker j"
    and d': "d' = d\<lparr>jobs := updateWhere (\<lambda>r. j_id r = j_id j) (claimed e worker) (jobs d)\<rparr>"
    using c by (auto simp: claim_def split: option.splits)
  let ?js = "updateWhere (\<lambda>r. j_id r = j_id j) (claimed e worker) (jobs d)"
  have j: "j \<in> set (jobs d)" "j_status j = JobPENDING"
    using nextJob_Some [OF nxt] by (auto simp: due_def)
  have okj: "job_ok j" "j_id j < next_id d" using i j(1) by blast+
  have id: "j_id (claimed e worker r) = j_id r" for r by (simp add: claimed_def)
  have in_js: "job \<in> set ?js"
    using j(1) by (auto simp: job set_updateWhere intro!: bexI [of _ j])
  have fresh: "j_id k \<noteq> j_id j" and kept: "backed ?js k" if k: "k \<in> set held" for k
  proof -
    obtain y where y: "y \<in> set (jobs d)" "j_id y = j_id k" "j_status y = JobPROCESSING"
        "j_attempts y = j_attempts k" "j_maxAttempts y = j_maxAttempts k"
      by (rule backedE [OF _ k]) (use i in blast)+
    show ne: "j_id k \<noteq> j_id j"
    proof
      assume "j_id k = j_id j"
      then have "y = j" using job_same_id y(1,2) j(1) i by metis
      then show False using y(3) j(2) by simp
    qed
    have "y \<in> set ?js" using ne y(1,2) by (auto simp: set_updateWhere intro!: bexI [of _ y])
    with y show "backed ?js k" unfolding backed_def by blast
  qed
  show ?thesis
    unfolding d'
  proof (rule queue_invI [OF _ _ _ _ job_row_update_simps])
    fix r
    assume "r \<in> set ?js"
    then show "j_id r < next_id d \<and> job_ok r"
    proof (cases rule: in_updateWhereE)
      case (updated x)
      then have "x = j" using job_same_id updated(1) j(1) i by metis
      then show ?thesis using updated(3) okj j(2) by (simp add: claimed_def job_ok_def)
    qed (use i in simp)
  next
    show "distinct (map j_id ?js)" using i id by (simp add: map_updateWhere)
    have "j_id j \<notin> set (map j_id held)" using fresh by (metis imageE set_map)
    then show "distinct (map j_id (job # held))" using i by (simp add: job id)
    fix k
    assume "k \<in> set (job # held)"
    then consider "k = job" | "k \<in> set held" by auto
    then show "backed ?js k"
    proof cases
      case 1
      moreover have "j_status job = JobPROCESSING" by (simp add: job claimed_def)
      ultimately show ?thesis using in_js unfolding backed_def by blast
    qed (rule kept)
  qed
qed

lemma queue_inv_enqueue:
  assumes inv: "queue_inv (d, held)" and "limits_ok e"
  shows "queue_inv (snd (enqueue e q p delay d), held)"
proof -
  note i = inv [unfolded queue_inv_def fst_conv snd_conv]
  let ?job = "\<lparr>j_id = next_id d, j_queue = q, j_payload = p, j_status = JobPENDING,
                j_attempts = 0, j_maxAttempts = jobMaxAttempts e q None, j_runAt = now e + delay,
                j_lockedAt = None, j_lockedBy = None, j_lastError = None, j_completedAt = None,
                j_createdAt = now e\<rparr>"
  show ?thesis
  proof (rule queue_invI)
    show "jobs (snd (enqueue e q p delay d)) = jobs d @ [?job]"
      and "next_id (snd (enqueue e q p delay d)) = Suc (next_id d)"
      by (simp_all add: enqueue_def Let_def)
    show "distinct (map j_id (jobs d @ [?job]))" using i by auto
    show "distinct (map j_id held)" using i by simp
    show "j_id j < Suc (next_id d) \<and> job_ok j" if "j \<in> set (jobs d @ [?job])" for j
      using that i jobMaxAttempts_pos [OF assms(2), of q] by (auto simp: job_ok_def less_Suc_eq)
    show "backed (jobs d @ [?job]) k" if "k \<in> set held" for k
      using i that by (auto simp: list_all_iff backed_def)
  qed
qed

lemma queue_inv_step: "queue_step s t \<Longrightarrow> queue_inv s \<Longrightarrow> queue_inv t"
proof (induction rule: queue_step.induct)
  case step_enqueue
  then show ?case by (blast intro: queue_inv_enqueue)
next
  case (step_claim e worker d job d' held)
  then show ?case by (blast intro: queue_inv_claim)
next
  case (step_done job held e d r d')
  then have "d' = d\<lparr>jobs := updateWhere (\<lambda>x. j_id x = j_id job) (completedJob e) (jobs d)\<rparr>"
    by (auto simp: finishOk_def dest: updateJob_run)
  then show ?case
    using step_done(1,3) by (auto intro!: queue_inv_finish simp: completedJob_def job_ok_def)
next
  case (step_failed job held e err d r d')
  then have "d' = d\<lparr>jobs := updateWhere (\<lambda>x. j_id x = j_id job) (failedJob e job err) (jobs d)\<rparr>"
    by (auto dest: finishErr_run)
  then show ?case
    using step_failed(1,3)
    by (auto intro!: queue_inv_finish failedJob_ok simp: failedJob_def Let_def)
next
  case (step_crash job held d)
  then show ?case by (auto simp: queue_inv_def distinct_map_filter list_all_iff)
next
  case (step_other d' d held)
  then show ?case by (auto simp: queue_inv_def)
qed

lemma queue_inv_reachable: "queue_reachable s \<Longrightarrow> queue_inv s"
proof (induction rule: queue_reachable.induct)
  case (reach_init d)
  then show ?case by (simp add: queue_inv_def)
next
  case (reach_step s t)
  then show ?case by (blast intro: queue_inv_step)
qed

section \<open>Properties\<close>

text \<open>C15: in every reachable state of the queue, whatever the interleaving of enqueues, claims by
  any number of workers, completions, failures and crashes, no job is held by two workers, no job
  has been started more often than its attempt limit, a job waiting to run has an attempt left, and
  a dead job has used them all.\<close>

theorem queue_safe:
  assumes "queue_reachable (d, held)"
  shows "distinct (map j_id held) \<and>
    (\<forall>j \<in> set (jobs d). j_attempts j \<le> j_maxAttempts j \<and>
       (j_status j = JobPENDING \<longrightarrow> j_attempts j < j_maxAttempts j) \<and>
       (j_status j = JobDEAD \<longrightarrow> j_attempts j = j_maxAttempts j)) \<and>
    (\<forall>k \<in> set held. \<forall>e. \<not> (\<exists>j \<in> set (jobs d). j_id j = j_id k \<and> due e j))"
proof -
  note i = queue_inv_reachable [OF assms, unfolded queue_inv_def fst_conv snd_conv]
  have "\<not> (j_id j = j_id k \<and> due e j)" if k: "k \<in> set held" and j: "j \<in> set (jobs d)" for k j e
  proof
    assume same: "j_id j = j_id k \<and> due e j"
    obtain y where y: "y \<in> set (jobs d)" "j_id y = j_id k" "j_status y = JobPROCESSING"
      using i k backedE by metis
    then have "y = j" using job_same_id j same i by metis
    then show False using y(3) same by (simp add: due_def)
  qed
  then show ?thesis using i by (auto simp: job_ok_def)
qed

definition sample_queue_db :: db where
  "sample_queue_db = snd (enqueue default_env ''sms.send'' (SmsSend 7) 0 empty_db)"

lemma sample_queue_reachable: "queue_reachable (sample_queue_db, [])"
proof (rule reach_step)
  show "queue_reachable (empty_db, [])" by (rule reach_init) (simp add: empty_db_def)
  show "queue_step (empty_db, []) (sample_queue_db, [])"
    unfolding sample_queue_db_def
    by (rule step_enqueue) (simp add: limits_ok_def default_env_def default_config_def)
qed

lemma sample_queue_claim:
  obtains job d where "claim default_env ''w'' sample_queue_db = (Inr (Some job), d)"
proof -
  have "fst (claim default_env ''w'' sample_queue_db) \<noteq> Inr None"
    and "\<not> isl (fst (claim default_env ''w'' sample_queue_db))" by code_simp+
  then show thesis
    using that by (cases "claim default_env ''w'' sample_queue_db"; cases "fst (claim default_env ''w'' sample_queue_db)")
      (auto simp: isl_def)
qed

theorem queue_safe_witness:
  "\<exists>d job. claim default_env ''w'' sample_queue_db = (Inr (Some job), d) \<and>
     queue_reachable (d, [job]) \<and> \<not> (\<exists>j \<in> set (jobs d). j_id j = j_id job \<and> due default_env j)"
proof -
  obtain job d where c: "claim default_env ''w'' sample_queue_db = (Inr (Some job), d)"
    by (rule sample_queue_claim)
  then have "queue_reachable (d, [job])" using sample_queue_reachable by (blast intro: reach_step step_claim)
  with queue_safe [OF this] c show ?thesis by auto
qed

text \<open>A claim takes a due job if and only if there is one, and the oldest; it marks that job as
  processing, counts the attempt and changes no other row. A job that fails is run again after the
  base delay doubled with every attempt up to sixty-four times the base, until its attempts are used
  up and it is dead. A job whose worker died stays in processing and is never claimed again.\<close>

theorem queue_claim_and_retry:
  assumes "distinct (map j_id (jobs d))"
  shows "(claim e worker d = (Inr None, d) \<longleftrightarrow> (\<forall>j \<in> set (jobs d). \<not> due e j)) \<and>
    (\<forall>job d'. claim e worker d = (Inr (Some job), d') \<longrightarrow>
       (\<exists>j \<in> set (jobs d). due e j \<and> job = claimed e worker j \<and> job \<in> set (jobs d') \<and>
          (\<forall>k \<in> set (jobs d). due e k \<longrightarrow> j_createdAt j \<le> j_createdAt k) \<and>
          (\<forall>k \<in> set (jobs d). j_id k \<noteq> j_id j \<longrightarrow> k \<in> set (jobs d')))) \<and>
    (\<forall>j err. j_attempts j < j_maxAttempts j \<and> 0 \<le> cfg_queueBackoffBase (cfg e) \<longrightarrow>
       j_status (failedJob e j err j) = JobPENDING \<and>
       j_runAt (failedJob e j err j) - now e = cfg_queueBackoffBase (cfg e) * 2 ^ min (j_attempts j) 6 \<and>
       j_runAt (failedJob e j err j) - now e \<le> 64 * cfg_queueBackoffBase (cfg e)) \<and>
    (\<forall>j err. j_maxAttempts j \<le> j_attempts j \<longrightarrow> j_status (failedJob e j err j) = JobDEAD) \<and>
    (\<forall>j. j_status j = JobPROCESSING \<longrightarrow> (\<forall>e'. \<not> due e' j))"
proof (intro conjI)
  show "claim e worker d = (Inr None, d) \<longleftrightarrow> (\<forall>j \<in> set (jobs d). \<not> due e j)"
    by (auto simp: claim_def nextJob_None [symmetric] split: option.splits)
  show "\<forall>job d'. claim e worker d = (Inr (Some job), d') \<longrightarrow>
       (\<exists>j \<in> set (jobs d). due e j \<and> job = claimed e worker j \<and> job \<in> set (jobs d') \<and>
          (\<forall>k \<in> set (jobs d). due e k \<longrightarrow> j_createdAt j \<le> j_createdAt k) \<and>
          (\<forall>k \<in> set (jobs d). j_id k \<noteq> j_id j \<longrightarrow> k \<in> set (jobs d')))"
  proof (intro allI impI)
    fix job d'
    assume c: "claim e worker d = (Inr (Some job), d')"
    then obtain j where nxt: "nextJob e d = Some j" and job: "job = claimed e worker j"
      and d': "d' = d\<lparr>jobs := updateWhere (\<lambda>r. j_id r = j_id j) (claimed e worker) (jobs d)\<rparr>"
      by (auto simp: claim_def split: option.splits)
    have "job \<in> set (jobs d')"
      using nextJob_Some [OF nxt] by (auto simp: job d' set_updateWhere intro!: bexI [of _ j])
    moreover have "k \<in> set (jobs d')" if "k \<in> set (jobs d)" "j_id k \<noteq> j_id j" for k
      using that by (auto simp: d' set_updateWhere intro!: bexI [of _ k])
    ultimately show "\<exists>j \<in> set (jobs d). due e j \<and> job = claimed e worker j \<and> job \<in> set (jobs d') \<and>
          (\<forall>k \<in> set (jobs d). due e k \<longrightarrow> j_createdAt j \<le> j_createdAt k) \<and>
          (\<forall>k \<in> set (jobs d). j_id k \<noteq> j_id j \<longrightarrow> k \<in> set (jobs d'))"
      using nextJob_Some [OF nxt] nextJob_oldest [OF nxt] job by blast
  qed
  have "(2 :: int) ^ min n 6 \<le> 2 ^ 6" for n by (rule power_increasing) auto
  then have "c * 2 ^ min n 6 \<le> 64 * c" if "0 \<le> c" for c :: int and n
    using mult_left_mono [OF _ that, of "2 ^ min n 6" 64] by simp
  then show "\<forall>j err. j_attempts j < j_maxAttempts j \<and> 0 \<le> cfg_queueBackoffBase (cfg e) \<longrightarrow>
       j_status (failedJob e j err j) = JobPENDING \<and>
       j_runAt (failedJob e j err j) - now e = cfg_queueBackoffBase (cfg e) * 2 ^ min (j_attempts j) 6 \<and>
       j_runAt (failedJob e j err j) - now e \<le> 64 * cfg_queueBackoffBase (cfg e)"
    by (auto simp: failedJob_def Let_def backoffMs_def)
  show "\<forall>j err. j_maxAttempts j \<le> j_attempts j \<longrightarrow> j_status (failedJob e j err j) = JobDEAD"
    by (simp add: failedJob_def)
  show "\<forall>j. j_status j = JobPROCESSING \<longrightarrow> (\<forall>e'. \<not> due e' j)" by (simp add: due_def)
qed

theorem queue_claim_and_retry_witness:
  "\<exists>job d'. claim default_env ''w'' sample_queue_db = (Inr (Some job), d') \<and> job \<in> set (jobs d')"
proof -
  have "distinct (map j_id (jobs sample_queue_db))" by code_simp
  note q = queue_claim_and_retry [OF this, of default_env "''w''"]
  obtain job d where "claim default_env ''w'' sample_queue_db = (Inr (Some job), d)"
    by (rule sample_queue_claim)
  with q show ?thesis by blast
qed

section \<open>The work of a queue is bounded\<close>

text \<open>The attempts that all jobs together have left.\<close>

definition attemptsLeft :: "job_row \<Rightarrow> nat" where
  "attemptsLeft j = j_maxAttempts j - j_attempts j"

definition workLeft :: "db \<Rightarrow> nat" where
  "workLeft d = sum_list (map attemptsLeft (jobs d))"

text \<open>A run without new jobs, with the number of claims in it.\<close>

inductive queue_run :: "queue_state \<Rightarrow> nat \<Rightarrow> queue_state \<Rightarrow> bool" for s where
  run_nil: "queue_run s 0 s"
| run_claim: "queue_run s n (d, held) \<Longrightarrow> claim e worker d = (Inr (Some job), d') \<Longrightarrow>
     queue_run s (Suc n) (d', job # held)"
| run_done: "queue_run s n (d, held) \<Longrightarrow> job \<in> set held \<Longrightarrow> finishOk e job d = (r, d') \<Longrightarrow>
     queue_run s n (d', filter (\<lambda>k. j_id k \<noteq> j_id job) held)"
| run_failed: "queue_run s n (d, held) \<Longrightarrow> job \<in> set held \<Longrightarrow> finishErr e job err d = (r, d') \<Longrightarrow>
     queue_run s n (d', filter (\<lambda>k. j_id k \<noteq> j_id job) held)"
| run_crash: "queue_run s n (d, held) \<Longrightarrow> job \<in> set held \<Longrightarrow>
     queue_run s n (d, filter (\<lambda>k. j_id k \<noteq> j_id job) held)"
| run_other: "queue_run s n (d, held) \<Longrightarrow> jobs d' = jobs d \<Longrightarrow> next_id d \<le> next_id d' \<Longrightarrow>
     queue_run s n (d', held)"

lemma queue_run_reachable: "queue_run s n t \<Longrightarrow> queue_reachable s \<Longrightarrow> queue_reachable t"
  by (induction rule: queue_run.induct) (blast intro: reach_step queue_step.intros)+

lemma sum_updateWhere_one:
  assumes "distinct (map g xs)" and "x \<in> set xs" and "h (f x) + 1 = (h x :: nat)"
  shows "sum_list (map h (updateWhere (\<lambda>y. g y = g x) f xs)) + 1 = sum_list (map h xs)"
  using assms
proof (induction xs)
  case (Cons y ys)
  show ?case
  proof (cases "x = y")
    case True
    then have "updateWhere (\<lambda>z. g z = g x) f ys = ys"
      using Cons.prems(1) by (intro updateWhere_none) (metis distinct.simps(2) image_eqI list.simps(9) set_map)
    with True Cons.prems(3) show ?thesis by simp
  next
    case False
    then have "g y \<noteq> g x" using Cons.prems(1,2) by auto
    with False Cons show ?thesis by simp
  qed
qed simp

lemma attempts_updateWhere:
  "(\<And>r. attemptsLeft (f r) = attemptsLeft r) \<Longrightarrow>
     sum_list (map attemptsLeft (updateWhere p f js)) = sum_list (map attemptsLeft js)"
  by (simp add: map_updateWhere)

lemma workLeft_claim:
  assumes "queue_inv (d, held)" and "claim e worker d = (Inr (Some job), d')"
  shows "workLeft d' + 1 = workLeft d"
proof -
  note i = assms(1) [unfolded queue_inv_def fst_conv snd_conv]
  obtain j where nxt: "nextJob e d = Some j"
    and d': "d' = d\<lparr>jobs := updateWhere (\<lambda>r. j_id r = j_id j) (claimed e worker) (jobs d)\<rparr>"
    using assms(2) by (auto simp: claim_def split: option.splits)
  have "j \<in> set (jobs d)" and "j_status j = JobPENDING" using nextJob_Some [OF nxt] by (auto simp: due_def)
  then have "j_attempts j < j_maxAttempts j" using i by (auto simp: job_ok_def)
  then have "attemptsLeft (claimed e worker j) + 1 = attemptsLeft j"
    by (simp add: attemptsLeft_def claimed_def)
  with i \<open>j \<in> set (jobs d)\<close> show ?thesis by (simp add: workLeft_def d' sum_updateWhere_one [simplified])
qed

lemma workLeft_finishOk: "finishOk e job d = (r, d') \<Longrightarrow> workLeft d' = workLeft d"
  unfolding finishOk_def
  by (drule updateJob_run) (simp add: workLeft_def attempts_updateWhere attemptsLeft_def completedJob_def)

lemma workLeft_finishErr: "finishErr e job err d = (r, d') \<Longrightarrow> workLeft d' = workLeft d"
  by (drule finishErr_run)
    (simp add: workLeft_def attempts_updateWhere attemptsLeft_def failedJob_def Let_def)



end
