(* ===== verification/Webhooks.thy ===== *)
theory Webhooks
  imports Queue
begin

text \<open>
  webhooks/webhooks.service.ts: the callback endpoints of an account, the fan-out of an event to
  them, the signed delivery with its retries, and the sweep that re-enqueues due retries. The
  HTTP POST, the HMAC and the JSON text of a payload are parameters.
\<close>

section \<open>Endpoints\<close>

record endpoint_view =
  ev_id :: ident
  ev_url :: string
  ev_events :: "webhook_event list"
  ev_isActive :: bool
  ev_createdAt :: int

definition endpointView :: "endpoint_row \<Rightarrow> endpoint_view" where
  "endpointView r = \<lparr>ev_id = e_id r, ev_url = e_url r, ev_events = e_events r,
     ev_isActive = e_isActive r, ev_createdAt = e_createdAt r\<rparr>"

definition listEndpoints :: "ident \<Rightarrow> (db, endpoint_view list) action" where
  "listEndpoints acct = query (\<lambda>d.
     map endpointView (orderAsc e_createdAt (filter (\<lambda>r. e_account r = acct) (endpoints d))))"

text \<open>The result of \<open>create\<close> carries the secret; it is shown only here.\<close>

definition createEndpoint ::
    "env \<Rightarrow> string \<Rightarrow> ident \<Rightarrow> string \<Rightarrow> webhook_event list \<Rightarrow> (db, endpoint_view \<times> string) action" where
  "createEndpoint e secretHex acct url events =
     andThen (query (\<lambda>d. filter (\<lambda>r. e_account r = acct) (endpoints d))) (\<lambda>existing.
     thenDo (require (\<not> 5 \<le> length existing) (Forbidden CONFLICT))
     (\<lambda>d. let row = \<lparr>e_id = next_id d, e_account = acct, e_url = url,
                     e_secret = ''whsec_'' @ secretHex, e_events = events, e_isActive = True,
                     e_createdAt = now e\<rparr>
          in (Inr (endpointView row, e_secret row),
              d\<lparr>endpoints := endpoints d @ [row], next_id := Suc (next_id d)\<rparr>)))"

definition findEndpoint :: "ident \<Rightarrow> ident \<Rightarrow> db \<Rightarrow> endpoint_row option" where
  "findEndpoint acct i d = List.find (\<lambda>r. e_id r = i \<and> e_account r = acct) (endpoints d)"

definition updateEndpoint ::
    "ident \<Rightarrow> ident \<Rightarrow> string option \<Rightarrow> webhook_event list option \<Rightarrow> (db, endpoint_view) action" where
  "updateEndpoint acct i url events =
     andThen (fetch (NotFound NOT_FOUND) (findEndpoint acct i)) (\<lambda>_.
     thenDo (modify (\<lambda>d. d\<lparr>endpoints := updateWhere (\<lambda>r. e_id r = i)
        (\<lambda>r. r\<lparr>e_url := orElse url (e_url r),
               e_events := (case events of None \<Rightarrow> e_events r | Some es \<Rightarrow> es)\<rparr>) (endpoints d)\<rparr>))
     (andThen (fetch RecordNotFound (\<lambda>d. List.find (\<lambda>r. e_id r = i) (endpoints d))) (\<lambda>r.
      ret (endpointView r))))"

text \<open>Deleting an endpoint deletes its deliveries (\<open>onDelete: Cascade\<close>).\<close>

definition removeEndpoint :: "ident \<Rightarrow> ident \<Rightarrow> (db, ident) action" where
  "removeEndpoint acct i =
     thenDo (fetch (NotFound NOT_FOUND) (findEndpoint acct i))
     (thenDo (modify (\<lambda>d. d\<lparr>endpoints := filter (\<lambda>r. e_id r \<noteq> i) (endpoints d),
                            deliveries := filter (\<lambda>r. dl_endpoint r \<noteq> i) (deliveries d)\<rparr>))
      (ret i))"

section \<open>Fan-out\<close>

definition newDelivery :: "ident \<Rightarrow> webhook_event \<Rightarrow> string \<Rightarrow> payload \<Rightarrow> ident \<Rightarrow> delivery_row" where
  "newDelivery ep event reference data i =
     \<lparr>dl_id = i, dl_endpoint = ep, dl_event = event, dl_reference = reference, dl_payload = data,
      dl_status = DlvPENDING, dl_attempts = 0, dl_lastAttemptAt = None, dl_nextAttemptAt = None,
      dl_responseStatus = None, dl_lastError = None\<rparr>"

definition createDelivery ::
    "ident \<Rightarrow> webhook_event \<Rightarrow> string \<Rightarrow> payload \<Rightarrow> (db, ident) action" where
  "createDelivery ep event reference data = (\<lambda>d.
     (Inr (next_id d), d\<lparr>deliveries := deliveries d @ [newDelivery ep event reference data (next_id d)],
                         next_id := Suc (next_id d)\<rparr>))"

definition subscribed :: "webhook_event \<Rightarrow> ident \<Rightarrow> db \<Rightarrow> endpoint_row list" where
  "subscribed event acct d =
     filter (\<lambda>r. e_account r = acct \<and> e_isActive r \<and> event \<in> set (e_events r)) (endpoints d)"

definition dispatch ::
    "env \<Rightarrow> webhook_event \<Rightarrow> ident \<Rightarrow> string \<Rightarrow> payload \<Rightarrow> (db, nat) action" where
  "dispatch e event acct reference data =
     andThen (query (subscribed event acct)) (\<lambda>eps.
     thenDo (forEach (\<lambda>ep.
         andThen (createDelivery (e_id ep) event reference data) (\<lambda>i.
         thenDo (enqueue e ''webhook.deliver'' (WebhookDeliver i) 0) (ret ()))) eps)
     (ret (length eps)))"

section \<open>Delivery\<close>

text \<open>The POST: the URL, the headers that vary, the signature and the body.\<close>

record webhook_request =
  wr_url :: string
  wr_event :: webhook_event
  wr_reference :: string
  wr_deliveryId :: ident
  wr_signature :: string
  wr_body :: string

text \<open>What the outside does: the HMAC, the JSON text of a delivery, and the answer to a POST
  (\<open>None\<close>: a transport error, with its text).\<close>

record delivery_world =
  dw_hmac :: "string \<Rightarrow> string \<Rightarrow> string"
  dw_json :: "delivery_row \<Rightarrow> string"
  dw_post :: "webhook_request \<Rightarrow> string + nat"

definition deliveryRequest :: "delivery_world \<Rightarrow> endpoint_row \<Rightarrow> delivery_row \<Rightarrow> webhook_request" where
  "deliveryRequest w ep dl =
     (let body = dw_json w dl
      in \<lparr>wr_url = e_url ep, wr_event = dl_event dl, wr_reference = dl_reference dl,
          wr_deliveryId = dl_id dl, wr_signature = ''sha256='' @ dw_hmac w (e_secret ep) body,
          wr_body = body\<rparr>)"

definition updateDelivery :: "ident \<Rightarrow> (delivery_row \<Rightarrow> delivery_row) \<Rightarrow> (db, unit) action" where
  "updateDelivery i f = (\<lambda>d.
     if \<exists>r \<in> set (deliveries d). dl_id r = i
     then (Inr (), d\<lparr>deliveries := updateWhere (\<lambda>r. dl_id r = i) f (deliveries d)\<rparr>)
     else (Inl RecordNotFound, d))"

definition deliveryBackoffMs :: "env \<Rightarrow> nat \<Rightarrow> int" where
  "deliveryBackoffMs e attempts = cfg_webhookBackoffBase (cfg e) * 2 ^ min (attempts - 1) 5"

definition deliveredRow :: "env \<Rightarrow> nat \<Rightarrow> nat \<Rightarrow> delivery_row \<Rightarrow> delivery_row" where
  "deliveredRow e attempts status r = r\<lparr>dl_status := DlvDELIVERED, dl_attempts := attempts,
     dl_lastAttemptAt := Some (now e), dl_responseStatus := Some status\<rparr>"

definition retriedRow :: "env \<Rightarrow> nat \<Rightarrow> string + nat \<Rightarrow> delivery_row \<Rightarrow> delivery_row" where
  "retriedRow e attempts result r =
     (let exhausted = 5 \<le> attempts
      in r\<lparr>dl_status := (if exhausted then DlvDEAD else DlvPENDING), dl_attempts := attempts,
           dl_lastAttemptAt := Some (now e),
           dl_nextAttemptAt := (if exhausted then dl_nextAttemptAt r
                                else Some (now e + deliveryBackoffMs e attempts)),
           dl_responseStatus := (case result of Inl _ \<Rightarrow> dl_responseStatus r | Inr s \<Rightarrow> Some s),
           dl_lastError := Some (case result of Inl t \<Rightarrow> t | Inr s \<Rightarrow> ''HTTP '' @ showNat s)\<rparr>)"

definition httpOk :: "string + nat \<Rightarrow> bool" where
  "httpOk result = (case result of Inl _ \<Rightarrow> False | Inr s \<Rightarrow> 200 \<le> s \<and> s < 300)"

definition deliveryWithEndpoint :: "ident \<Rightarrow> db \<Rightarrow> (delivery_row \<times> endpoint_row) option" where
  "deliveryWithEndpoint i d =
     (case List.find (\<lambda>r. dl_id r = i) (deliveries d) of
        None \<Rightarrow> None
      | Some dl \<Rightarrow> map_option (Pair dl) (List.find (\<lambda>r. e_id r = dl_endpoint dl) (endpoints d)))"

definition deliverJob :: "env \<Rightarrow> delivery_world \<Rightarrow> ident \<Rightarrow> (db, unit) action" where
  "deliverJob e w i =
     andThen (query (deliveryWithEndpoint i)) (\<lambda>found.
       case found of
         None \<Rightarrow> ret ()
       | Some (dl, ep) \<Rightarrow>
           if dl_status dl = DlvDELIVERED then ret ()
           else if \<not> e_isActive ep
           then updateDelivery (dl_id dl)
                  (\<lambda>r. r\<lparr>dl_status := DlvFAILED, dl_lastError := Some ''endpoint disabled''\<rparr>)
           else
             (let attempts = dl_attempts dl + 1;
                  result = dw_post w (deliveryRequest w ep dl)
              in if httpOk result
                 then updateDelivery (dl_id dl) (deliveredRow e attempts (projr result))
                 else thenDo (updateDelivery (dl_id dl) (retriedRow e attempts result))
                      (if attempts < 5
                       then thenDo (enqueue e ''webhook.deliver'' (WebhookDeliver (dl_id dl))
                                     (deliveryBackoffMs e attempts)) (ret ())
                       else ret ())))"

text \<open>The cron job: due retries go back to the queue, fifty at a time.\<close>

definition dueRetries :: "env \<Rightarrow> db \<Rightarrow> delivery_row list" where
  "dueRetries e d = take 50 (filter (\<lambda>r. dl_status r = DlvPENDING \<and> 0 < dl_attempts r \<and>
     (case dl_nextAttemptAt r of None \<Rightarrow> False | Some t \<Rightarrow> t \<le> now e)) (deliveries d))"

definition sweepDueRetries :: "env \<Rightarrow> (db, unit) action" where
  "sweepDueRetries e =
     andThen (query (dueRetries e)) (forEach (\<lambda>r.
       thenDo (enqueue e ''webhook.deliver'' (WebhookDeliver (dl_id r)) 0) (ret ())))"

section \<open>Frame: events touch only the delivery and job tables\<close>

definition fanOutRows ::
    "env \<Rightarrow> webhook_event \<Rightarrow> string \<Rightarrow> payload \<Rightarrow> endpoint_row list \<Rightarrow> db \<Rightarrow> db" where
  "fanOutRows e event reference data eps d =
     fold (\<lambda>ep d. d\<lparr>deliveries := deliveries d @ [newDelivery (e_id ep) event reference data (next_id d)],
        jobs := jobs d @ [\<lparr>j_id = Suc (next_id d), j_queue = ''webhook.deliver'',
          j_payload = WebhookDeliver (next_id d), j_status = JobPENDING, j_attempts = 0,
          j_maxAttempts = 6, j_runAt = now e, j_lockedAt = None, j_lockedBy = None,
          j_lastError = None, j_completedAt = None, j_createdAt = now e\<rparr>],
        next_id := Suc (Suc (next_id d))\<rparr>) eps d"

lemma dispatch_run:
  "dispatch e event acct reference data d =
     (Inr (length (subscribed event acct d)),
      fanOutRows e event reference data (subscribed event acct d) d)"
proof -
  have "forEach (\<lambda>ep. andThen (createDelivery (e_id ep) event reference data) (\<lambda>i.
         thenDo (enqueue e ''webhook.deliver'' (WebhookDeliver i) 0) (ret ()))) eps d
       = (Inr (), fanOutRows e event reference data eps d)" for eps d
    by (induction eps arbitrary: d)
      (simp_all add: ret_run andThen_def createDelivery_def enqueue_def Let_def fanOutRows_def
                     jobMaxAttempts_def registered_def)
  then show ?thesis by (simp add: dispatch_def andThen_def ret_run)
qed

lemma fanOut_frame:
  "\<exists>dls js n. fanOutRows e event reference data eps d = d\<lparr>deliveries := dls, jobs := js, next_id := n\<rparr>
     \<and> next_id d \<le> n"
proof (induction eps arbitrary: d)
  case Nil
  have "fanOutRows e event reference data [] d
      = d\<lparr>deliveries := deliveries d, jobs := jobs d, next_id := next_id d\<rparr>"
    by (simp add: fanOutRows_def)
  then show ?case by blast
next
  case (Cons ep eps)
  let ?d = "d\<lparr>deliveries := deliveries d @ [newDelivery (e_id ep) event reference data (next_id d)],
        jobs := jobs d @ [\<lparr>j_id = Suc (next_id d), j_queue = ''webhook.deliver'',
          j_payload = WebhookDeliver (next_id d), j_status = JobPENDING, j_attempts = 0,
          j_maxAttempts = 6, j_runAt = now e, j_lockedAt = None, j_lockedBy = None,
          j_lastError = None, j_completedAt = None, j_createdAt = now e\<rparr>],
        next_id := Suc (Suc (next_id d))\<rparr>"
  have "fanOutRows e event reference data (ep # eps) d = fanOutRows e event reference data eps ?d"
    by (simp add: fanOutRows_def)
  moreover obtain dls js n where "fanOutRows e event reference data eps ?d
      = ?d\<lparr>deliveries := dls, jobs := js, next_id := n\<rparr>" and "next_id ?d \<le> n"
    using Cons.IH by blast
  ultimately show ?case by (intro exI [of _ dls] exI [of _ js] exI [of _ n]) simp
qed

lemma keeps_dispatch:
  assumes "\<And>d dls js n. P d \<Longrightarrow> next_id d \<le> n \<Longrightarrow> P (d\<lparr>deliveries := dls, jobs := js, next_id := n\<rparr>)"
  shows "keeps P (dispatch e event acct reference data)"
proof (rule keepsI)
  fix d
  assume "P d"
  then show "P (snd (dispatch e event acct reference data d))"
    using assms fanOut_frame [of e event reference data "subscribed event acct d" d]
    by (auto simp: dispatch_run)
qed

lemma fanOut_deliveries:
  "map (\<lambda>r. (dl_endpoint r, dl_event r, dl_reference r, dl_payload r, dl_status r, dl_attempts r))
     (deliveries (fanOutRows e event reference data eps d))
   = map (\<lambda>r. (dl_endpoint r, dl_event r, dl_reference r, dl_payload r, dl_status r, dl_attempts r))
       (deliveries d)
     @ map (\<lambda>ep. (e_id ep, event, reference, data, DlvPENDING, 0)) eps"
  by (induction eps arbitrary: d) (simp_all add: fanOutRows_def newDelivery_def)

lemma fanOut_jobs:
  "length (jobs (fanOutRows e event reference data eps d)) = length (jobs d) + length eps"
  by (induction eps arbitrary: d) (simp_all add: fanOutRows_def)

lemma deliver_missing: "deliveryWithEndpoint i d = None \<Longrightarrow> deliverJob e w i d = (Inr (), d)"
  by (simp add: deliverJob_def ret_run)

lemma deliver_done:
  "deliveryWithEndpoint i d = Some (dl, ep) \<Longrightarrow> dl_status dl = DlvDELIVERED \<Longrightarrow>
     deliverJob e w i d = (Inr (), d)"
  by (simp add: deliverJob_def ret_run)

lemma deliveryWithEndpoint_in:
  "deliveryWithEndpoint i d = Some (dl, ep) \<Longrightarrow>
     dl \<in> set (deliveries d) \<and> dl_id dl = i \<and> ep \<in> set (endpoints d) \<and> e_id ep = dl_endpoint dl"
  by (auto simp: deliveryWithEndpoint_def dest: find_SomeD split: option.splits)

lemma updateDelivery_in:
  "r \<in> set (deliveries d) \<Longrightarrow> dl_id r = i \<Longrightarrow>
     updateDelivery i f d = (Inr (), d\<lparr>deliveries := updateWhere (\<lambda>r. dl_id r = i) f (deliveries d)\<rparr>)"
  by (auto simp: updateDelivery_def)

lemma deliver_run:
  assumes "deliveryWithEndpoint i d = Some (dl, ep)" and "dl_status dl \<noteq> DlvDELIVERED"
    and "e_isActive ep" and "result = dw_post w (deliveryRequest w ep dl)"
  shows "deliverJob e w i d =
    (if httpOk result
     then (Inr (), d\<lparr>deliveries := updateWhere (\<lambda>r. dl_id r = i)
             (deliveredRow e (dl_attempts dl + 1) (projr result)) (deliveries d)\<rparr>)
     else (let d' = d\<lparr>deliveries := updateWhere (\<lambda>r. dl_id r = i)
                       (retriedRow e (dl_attempts dl + 1) result) (deliveries d)\<rparr>
           in if dl_attempts dl + 1 < 5
              then (Inr (), snd (enqueue e ''webhook.deliver'' (WebhookDeliver i)
                               (deliveryBackoffMs e (dl_attempts dl + 1)) d'))
              else (Inr (), d')))"
proof -
  note i = deliveryWithEndpoint_in [OF assms(1)]
  have u: "updateDelivery (dl_id dl) f d =
      (Inr (), d\<lparr>deliveries := updateWhere (\<lambda>r. dl_id r = i) f (deliveries d)\<rparr>)" for f
    using i updateDelivery_in by blast
  show ?thesis
    using assms i
    by (auto simp: deliverJob_def u andThen_def ret_run Let_def enqueue_def split: prod.split)
qed

section \<open>Properties\<close>

text \<open>An event reaches exactly the endpoints of its account that are active and subscribed to
  it: one pending delivery with the event's reference and data, and one job, for each; the count is
  returned, every other delivery stays, and no other table changes.\<close>

theorem dispatch_fan_out:
  "\<exists>d'. dispatch e event acct reference data d = (Inr (length (subscribed event acct d)), d') \<and>
    map (\<lambda>r. (dl_endpoint r, dl_event r, dl_reference r, dl_payload r, dl_status r, dl_attempts r))
      (deliveries d')
    = map (\<lambda>r. (dl_endpoint r, dl_event r, dl_reference r, dl_payload r, dl_status r, dl_attempts r))
      (deliveries d)
      @ map (\<lambda>ep. (e_id ep, event, reference, data, DlvPENDING, 0)) (subscribed event acct d) \<and>
    length (jobs d') = length (jobs d) + length (subscribed event acct d) \<and>
    set (subscribed event acct d) =
      {ep \<in> set (endpoints d). e_account ep = acct \<and> e_isActive ep \<and> event \<in> set (e_events ep)} \<and>
    d' = d\<lparr>deliveries := deliveries d', jobs := jobs d', next_id := next_id d'\<rparr>"
proof -
  let ?d = "fanOutRows e event reference data (subscribed event acct d) d"
  obtain dls js n where "?d = d\<lparr>deliveries := dls, jobs := js, next_id := n\<rparr>"
    using fanOut_frame by blast
  then have "?d = d\<lparr>deliveries := deliveries ?d, jobs := jobs ?d, next_id := next_id ?d\<rparr>" by simp
  then show ?thesis
    using fanOut_deliveries [of e event reference data "subscribed event acct d" d]
      fanOut_jobs [of e event reference data "subscribed event acct d" d]
    by (intro exI [of _ ?d] conjI) (simp_all add: dispatch_run, auto simp: subscribed_def)
qed


definition sample_hook_db :: db where
  "sample_hook_db = empty_db\<lparr>endpoints := [\<lparr>e_id = 0, e_account = 9, e_url = ''http://x'',
      e_secret = ''s'', e_events = [SMS_STATUS], e_isActive = True, e_createdAt = 0\<rparr>],
    deliveries := [\<lparr>dl_id = 1, dl_endpoint = 0, dl_event = SMS_STATUS, dl_reference = ''R'',
      dl_payload = [], dl_status = DlvPENDING, dl_attempts = 4, dl_lastAttemptAt = None,
      dl_nextAttemptAt = None, dl_responseStatus = None, dl_lastError = None\<rparr>], next_id := 2\<rparr>"

definition sample_world :: "nat \<Rightarrow> delivery_world" where
  "sample_world status = \<lparr>dw_hmac = (\<lambda>k m. k @ m), dw_json = (\<lambda>_. ''{}''), dw_post = (\<lambda>_. Inr status)\<rparr>"



end
