(* ===== verification/TxnStatus.thy ===== *)
theory TxnStatus
  imports Wallets Webhooks
begin

text \<open>
  webhooks/txn-status.service.ts: the status engine. Every observation of a provider status, from a
  webhook or from polling, goes through one of three handlers, for collections, deposits and
  payouts. Each writes the status, moves money at most once (credit of a collection or deposit,
  refund of a payout), tells the account's endpoints, and records an analytics event; the payout
  handler also recomputes the counters of the payout's batch.
\<close>

section \<open>Statuses\<close>

fun statusOf :: "string \<Rightarrow> tx_status" where
  "statusOf s =
     (if s \<in> set [''SUCCESS'', ''SUCCESSFUL'', ''SETTLED'', ''COMPLETED'', ''PAID'', ''ACCEPTED'']
      then TxSUCCESS
      else if s \<in> set [''PROCESSING'', ''IN_PROGRESS'', ''ONGOING''] then TxPROCESSING
      else if s \<in> set [''FAILED'', ''REJECTED'', ''CANCELLED'', ''CANCELED'', ''ERROR''] then TxFAILED
      else if s = ''REFUNDED'' then TxREFUNDED
      else if s = ''REVERSED'' then TxREVERSED
      else if s \<in> set [''EXPIRED'', ''TIMEOUT''] then TxEXPIRED
      else TxPENDING)"

declare statusOf.simps [simp del]

definition mapProviderStatus :: "string option \<Rightarrow> tx_status" where
  "mapProviderStatus s = statusOf (toUpperCase (case s of None \<Rightarrow> [] | Some x \<Rightarrow> x))"

definition TERMINAL_FAIL :: "tx_status list" where
  "TERMINAL_FAIL = [TxFAILED, TxREVERSED, TxREFUNDED]"

definition FINAL_STATUSES :: "tx_status list" where
  "FINAL_STATUSES = [TxSUCCESS, TxFAILED, TxREVERSED, TxREFUNDED]"

text \<open>\<open>String(status).toLowerCase()\<close>, as it ends an analytics name.\<close>

fun statusName :: "tx_status \<Rightarrow> string" where
  "statusName TxPENDING = ''pending''"
| "statusName TxPROCESSING = ''processing''"
| "statusName TxSUCCESS = ''success''"
| "statusName TxFAILED = ''failed''"
| "statusName TxREVERSED = ''reversed''"
| "statusName TxREFUNDED = ''refunded''"
| "statusName TxEXPIRED = ''expired''"

definition eventName :: "string \<Rightarrow> tx_status \<Rightarrow> string" where
  "eventName what s = what @ ''.'' @ (if s = TxSUCCESS then ''succeeded'' else statusName s)"

section \<open>Provider records\<close>

text \<open>The fields of a webhook's \<open>data\<close> or of a status query's answer; \<open>None\<close> is a missing field.\<close>

record provider_record =
  pr_status :: "string option"
  pr_id :: "string option"
  pr_paymentReference :: "string option"
  pr_collectedAmount :: "decimal option"
  pr_collectedCurrency :: "string option"
  pr_message :: "string option"
  pr_customer :: "string option"
  pr_fee :: "decimal option"

definition orOld :: "'a option \<Rightarrow> 'a option \<Rightarrow> 'a option" where
  "orOld new old = (case new of None \<Rightarrow> old | Some x \<Rightarrow> Some x)"

definition optStr :: "string option \<Rightarrow> pvalue" where
  "optStr x = (case x of None \<Rightarrow> PNull | Some s \<Rightarrow> PStr s)"

definition optNum :: "rat option \<Rightarrow> pvalue" where
  "optNum x = (case x of None \<Rightarrow> PNull | Some v \<Rightarrow> PNum v)"

definition optInt :: "int option \<Rightarrow> pvalue" where
  "optInt x = (case x of None \<Rightarrow> PNull | Some v \<Rightarrow> PNum (of_int v))"

type_synonym applied = "bool \<times> tx_status option"

section \<open>Collections\<close>

definition findCollection :: "string \<Rightarrow> db \<Rightarrow> collection_row option" where
  "findCollection ref d = List.find (\<lambda>c. c_reference c = ref) (collections d)"

definition collectionPatch ::
    "env \<Rightarrow> provider_record \<Rightarrow> tx_status \<Rightarrow> bool \<Rightarrow> computed_fee option \<Rightarrow> rat option \<Rightarrow> collection_row
     \<Rightarrow> collection_row" where
  "collectionPatch e rc nextStatus shouldCredit fee collected c = c\<lparr>
     c_status := nextStatus,
     c_providerStatus := orOld (pr_status rc) (c_providerStatus c),
     c_providerTxId := orOld (pr_id rc) (c_providerTxId c),
     c_paymentReference := orOld (pr_paymentReference rc) (c_paymentReference c),
     c_collectedAmount := orOld (map_option round2 collected) (c_collectedAmount c),
     c_collectedCurrency := orOld (pr_collectedCurrency rc) (c_collectedCurrency c),
     c_feeAmount := orOld (map_option feeAmount fee) (c_feeAmount c),
     c_feeBps := orOld (map_option feeBps fee) (c_feeBps c),
     c_message := orOld (pr_message rc) (c_message c),
     c_customer := orOld (pr_customer rc) (c_customer c),
     c_walletCreditedAt := (if shouldCredit then Some (now e) else c_walletCreditedAt c),
     c_updatedAt := now e\<rparr>"

definition collectionFee ::
    "bool \<Rightarrow> ident \<Rightarrow> decimal \<Rightarrow> (db, computed_fee option) action" where
  "collectionFee shouldCredit acct amount =
     (if shouldCredit then andThen (computeFee FeeCOLLECTION acct amount) (\<lambda>f. ret (Some f))
      else ret None)"

text \<open>The amount the wallet receives: what was collected, less the fee.\<close>

definition collectionNet :: "collection_row \<Rightarrow> computed_fee option \<Rightarrow> rat" where
  "collectionNet updated fee =
     (case c_collectedAmount updated of None \<Rightarrow> c_amount updated | Some g \<Rightarrow> g)
       - (case fee of None \<Rightarrow> 0 | Some f \<Rightarrow> feeAmount f)"

definition collectionEvent ::
    "provider_record \<Rightarrow> tx_status \<Rightarrow> bool \<Rightarrow> collection_row \<Rightarrow> payload" where
  "collectionEvent rc nextStatus shouldCredit updated =
     [(''status'', PTx nextStatus), (''reference'', PStr (c_reference updated)),
      (''clientReference'', optStr (c_clientReference updated)), (''amount'', PNum (c_amount updated)),
      (''collectedAmount'', optNum (c_collectedAmount updated)),
      (''currency'', PStr (c_currency updated)), (''providerStatus'', optStr (pr_status rc)),
      (''message'', optStr (c_message updated)), (''customer'', optStr (c_customer updated)),
      (''channel'', PChannel (c_channel updated)), (''feeAmount'', optNum (c_feeAmount updated)),
      (''feeBps'', optInt (c_feeBps updated)), (''walletCredited'', PBool shouldCredit)]"

text \<open>A repeated final status changes nothing.\<close>

definition collectionSkips :: "tx_status \<Rightarrow> collection_row \<Rightarrow> bool" where
  "collectionSkips nextStatus c \<longleftrightarrow> c_status c \<in> set FINAL_STATUSES \<and> c_status c = nextStatus"

definition collectionCredits :: "tx_status \<Rightarrow> collection_row \<Rightarrow> bool" where
  "collectionCredits nextStatus c \<longleftrightarrow> nextStatus = TxSUCCESS \<and> c_walletCreditedAt c = None"

definition collectionGross :: "provider_record \<Rightarrow> collection_row \<Rightarrow> decimal" where
  "collectionGross rc c = (case pr_collectedAmount rc of None \<Rightarrow> Fin (c_amount c) | Some a \<Rightarrow> a)"

definition collectionCreditMove ::
    "env \<Rightarrow> collection_row \<Rightarrow> collection_row \<Rightarrow> computed_fee option \<Rightarrow> (db, wallet_tx_row) action" where
  "collectionCreditMove e c updated fee =
     walletMove e (c_account c) WCOLLECTION COLLECTION_CREDIT
       (round2 (collectionNet updated fee)) (Some (c_reference c)) ActorSYSTEM None True"

definition updateCollection :: "ident \<Rightarrow> (collection_row \<Rightarrow> collection_row) \<Rightarrow> db \<Rightarrow> db" where
  "updateCollection i f d = d\<lparr>collections := updateWhere (\<lambda>r. c_id r = i) f (collections d)\<rparr>"

definition applyCollectionUpdate ::
    "env \<Rightarrow> string \<Rightarrow> provider_record \<Rightarrow> (db, applied) action" where
  "applyCollectionUpdate e orderReference rc =
     andThen (query (findCollection orderReference)) (\<lambda>found.
     case found of
       None \<Rightarrow> ret (False, None)
     | Some c \<Rightarrow>
        (let nextStatus = mapProviderStatus (pr_status rc);
             alreadyFinal = c_status c \<in> set FINAL_STATUSES;
             shouldCredit = collectionCredits nextStatus c
         in if collectionSkips nextStatus c then ret (True, Some nextStatus)
            else
              andThen (collectionFee shouldCredit (c_account c) (collectionGross rc c)) (\<lambda>fee.
              andThen (toDecimal (pr_collectedAmount rc)) (\<lambda>collected.
              let patch = collectionPatch e rc nextStatus shouldCredit fee collected;
                  updated = patch c in
              thenDo (modify (updateCollection (c_id c) patch))
              (thenDo (if shouldCredit
                 then thenDo (collectionCreditMove e c updated fee) (ret ()) else ret ())
              (thenDo (if alreadyFinal then ret ()
                 else thenDo (dispatch e COLLECTION_STATUS (c_account c) (c_reference c)
                        (collectionEvent rc nextStatus shouldCredit updated)) (ret ()))
              (thenDo (track e (eventName ''collection'' nextStatus) (Some (RowId (c_account c)))
                         (Some (c_amount updated)))
               (ret (True, Some nextStatus)))))))))"

section \<open>Deposits\<close>

definition findDeposit :: "string \<Rightarrow> db \<Rightarrow> deposit_row option" where
  "findDeposit ref d = List.find (\<lambda>r. d_reference r = ref) (deposits d)"

definition depositPatch ::
    "env \<Rightarrow> provider_record \<Rightarrow> tx_status \<Rightarrow> bool \<Rightarrow> rat option \<Rightarrow> deposit_row \<Rightarrow> deposit_row" where
  "depositPatch e rc nextStatus shouldCredit collected r = r\<lparr>
     d_status := nextStatus,
     d_providerStatus := orOld (pr_status rc) (d_providerStatus r),
     d_providerTxId := orOld (pr_id rc) (d_providerTxId r),
     d_paymentReference := orOld (pr_paymentReference rc) (d_paymentReference r),
     d_collectedAmount := orOld (map_option round2 collected) (d_collectedAmount r),
     d_collectedCurrency := orOld (pr_collectedCurrency rc) (d_collectedCurrency r),
     d_message := orOld (pr_message rc) (d_message r),
     d_customer := orOld (pr_customer rc) (d_customer r),
     d_walletCreditedAt := (if shouldCredit then Some (now e) else d_walletCreditedAt r),
     d_updatedAt := now e\<rparr>"

definition depositCredit :: "deposit_row \<Rightarrow> rat" where
  "depositCredit updated =
     (case d_collectedAmount updated of None \<Rightarrow> d_amount updated | Some g \<Rightarrow> g)"

definition depositEvent :: "provider_record \<Rightarrow> tx_status \<Rightarrow> bool \<Rightarrow> deposit_row \<Rightarrow> payload" where
  "depositEvent rc nextStatus shouldCredit updated =
     [(''status'', PTx nextStatus), (''reference'', PStr (d_reference updated)),
      (''clientReference'', optStr (d_clientReference updated)), (''amount'', PNum (d_amount updated)),
      (''collectedAmount'', optNum (d_collectedAmount updated)),
      (''currency'', PStr (d_currency updated)), (''providerStatus'', optStr (pr_status rc)),
      (''message'', optStr (d_message updated)), (''customer'', optStr (d_customer updated)),
      (''targetWallet'', PStr ''DISBURSEMENT''), (''walletCredited'', PBool shouldCredit)]"

definition depositSkips :: "tx_status \<Rightarrow> deposit_row \<Rightarrow> bool" where
  "depositSkips nextStatus r \<longleftrightarrow> d_status r \<in> set FINAL_STATUSES \<and> d_status r = nextStatus"

definition depositCredits :: "tx_status \<Rightarrow> deposit_row \<Rightarrow> bool" where
  "depositCredits nextStatus r \<longleftrightarrow> nextStatus = TxSUCCESS \<and> d_walletCreditedAt r = None"

definition depositCreditMove :: "env \<Rightarrow> deposit_row \<Rightarrow> deposit_row \<Rightarrow> (db, wallet_tx_row) action" where
  "depositCreditMove e r updated =
     walletMove e (d_account r) WDISBURSEMENT DEPOSIT (depositCredit updated)
       (Some (d_reference r)) ActorSYSTEM None True"

definition updateDeposit :: "ident \<Rightarrow> (deposit_row \<Rightarrow> deposit_row) \<Rightarrow> db \<Rightarrow> db" where
  "updateDeposit i f d = d\<lparr>deposits := updateWhere (\<lambda>r. d_id r = i) f (deposits d)\<rparr>"

definition applyDepositUpdate ::
    "env \<Rightarrow> string \<Rightarrow> provider_record \<Rightarrow> (db, applied) action" where
  "applyDepositUpdate e orderReference rc =
     andThen (query (findDeposit orderReference)) (\<lambda>found.
     case found of
       None \<Rightarrow> ret (False, None)
     | Some r \<Rightarrow>
        (let nextStatus = mapProviderStatus (pr_status rc);
             alreadyFinal = d_status r \<in> set FINAL_STATUSES;
             shouldCredit = depositCredits nextStatus r
         in if depositSkips nextStatus r then ret (True, Some nextStatus)
            else
              andThen (toDecimal (pr_collectedAmount rc)) (\<lambda>collected.
              let patch = depositPatch e rc nextStatus shouldCredit collected;
                  updated = patch r in
              thenDo (modify (updateDeposit (d_id r) patch))
              (thenDo (if shouldCredit
                 then thenDo (depositCreditMove e r updated) (ret ()) else ret ())
              (thenDo (if alreadyFinal then ret ()
                 else thenDo (dispatch e DEPOSIT_STATUS (d_account r) (d_reference r)
                        (depositEvent rc nextStatus shouldCredit updated)) (ret ()))
              (thenDo (track e (eventName ''deposit'' nextStatus) (Some (RowId (d_account r)))
                         (Some (d_amount updated)))
               (ret (True, Some nextStatus))))))))"

section \<open>Batches\<close>

definition findBatch :: "ident \<Rightarrow> db \<Rightarrow> batch_row option" where
  "findBatch i d = List.find (\<lambda>b. b_id b = i) (batches d)"

definition batchReference :: "ident \<Rightarrow> db \<Rightarrow> string option" where
  "batchReference i d = map_option b_reference (findBatch i d)"

definition batchPayouts :: "ident \<Rightarrow> db \<Rightarrow> payout_row list" where
  "batchPayouts i d = filter (\<lambda>p. p_batchId p = Some i) (payouts d)"

definition batchOutcome :: "nat \<Rightarrow> nat \<Rightarrow> nat \<Rightarrow> batch_status" where
  "batchOutcome success failed totalRows =
     (if success + failed = totalRows
      then if success = totalRows then BatchCOMPLETED
           else if success = 0 then BatchFAILED
           else BatchPARTIALLY_FAILED
      else BatchPROCESSING)"

definition batchEvent :: "batch_status \<Rightarrow> batch_row \<Rightarrow> payload" where
  "batchEvent status b =
     [(''batchReference'', PStr (b_reference b)), (''name'', PStr (b_name b)),
      (''status'', PBatch status), (''totalCount'', PNat (b_totalCount b)),
      (''successCount'', PNat (b_successCount b)), (''failedCount'', PNat (b_failedCount b)),
      (''totalAmount'', PNum (b_totalAmount b))]"

definition updateBatchCounters :: "env \<Rightarrow> ident \<Rightarrow> (db, unit) action" where
  "updateBatchCounters e i =
     andThen (query (batchPayouts i)) (\<lambda>ps.
       let success = countWhere (\<lambda>p. p_status p = TxSUCCESS) ps;
           failed = countWhere (\<lambda>p. p_status p \<in> set TERMINAL_FAIL) ps;
           status = batchOutcome success failed (length ps)
       in thenDo (modify (\<lambda>d. d\<lparr>batches := updateWhere (\<lambda>b. b_id b = i)
             (\<lambda>b. b\<lparr>b_successCount := success, b_failedCount := failed, b_status := status\<rparr>)
             (batches d)\<rparr>))
          (andThen (fetch RecordNotFound (findBatch i)) (\<lambda>b.
           if status = BatchPROCESSING then ret ()
           else thenDo (dispatch e BATCH_STATUS (b_account b) (b_reference b) (batchEvent status b))
                (track e ''batch.completed'' (Some (RowId (b_account b))) None))))"

section \<open>Payouts\<close>

definition findPayout :: "string \<Rightarrow> db \<Rightarrow> payout_row option" where
  "findPayout ref d = List.find (\<lambda>p. p_reference p = ref) (payouts d)"

definition payoutPatch ::
    "env \<Rightarrow> provider_record \<Rightarrow> tx_status \<Rightarrow> bool \<Rightarrow> rat option \<Rightarrow> payout_row \<Rightarrow> payout_row" where
  "payoutPatch e rc nextStatus shouldRefund providerFee p = p\<lparr>
     p_status := nextStatus,
     p_providerStatus := orOld (pr_status rc) (p_providerStatus p),
     p_providerTxId := orOld (pr_id rc) (p_providerTxId p),
     p_fee := orOld providerFee (p_fee p),
     p_message := orOld (pr_message rc) (p_message p),
     p_refundedAt := (if shouldRefund then Some (now e) else p_refundedAt p),
     p_updatedAt := now e\<rparr>"

text \<open>The full debit of a payout: its amount and its platform fee.\<close>

definition payoutDebit :: "payout_row \<Rightarrow> rat" where
  "payoutDebit p = p_amount p + (case p_feeAmount p of None \<Rightarrow> 0 | Some f \<Rightarrow> f)"

definition refundPayout :: "env \<Rightarrow> payout_row \<Rightarrow> (db, wallet_tx_row) action" where
  "refundPayout e p =
     refundMove e (Some (p_reference p)) ActorSYSTEM None (p_account p, p_sourceWallet p)
       (round2 (payoutDebit p))"

definition payoutEvent ::
    "provider_record \<Rightarrow> tx_status \<Rightarrow> bool \<Rightarrow> string option \<Rightarrow> payout_row \<Rightarrow> payload" where
  "payoutEvent rc nextStatus shouldRefund batchRef updated =
     [(''payoutReference'', PStr (p_reference updated)), (''payoutStatus'', PTx nextStatus),
      (''batchReference'', optStr batchRef), (''amount'', PNum (p_amount updated)),
      (''currency'', PStr (p_currency updated)), (''channel'', PChannel (p_channel updated)),
      (''providerStatus'', optStr (pr_status rc)), (''message'', optStr (p_message updated)),
      (''refunded'', PBool shouldRefund)]"

text \<open>The event of a batch item carries the batch's row id as its reference.\<close>

definition payoutDispatch ::
    "env \<Rightarrow> provider_record \<Rightarrow> tx_status \<Rightarrow> bool \<Rightarrow> payout_row \<Rightarrow> (db, unit) action" where
  "payoutDispatch e rc nextStatus shouldRefund updated =
     andThen (query (\<lambda>d. case p_batchId updated of None \<Rightarrow> None | Some b \<Rightarrow> batchReference b d)) (\<lambda>bref.
     thenDo (dispatch e (case p_batchId updated of None \<Rightarrow> DISBURSEMENT_STATUS | Some _ \<Rightarrow> BATCH_STATUS)
        (p_account updated)
        (case p_batchId updated of None \<Rightarrow> p_reference updated | Some b \<Rightarrow> showNat b)
        (payoutEvent rc nextStatus shouldRefund bref updated)) (ret ()))"

definition payoutSkips :: "tx_status \<Rightarrow> payout_row \<Rightarrow> bool" where
  "payoutSkips nextStatus p \<longleftrightarrow> p_status p \<in> set FINAL_STATUSES \<and> p_status p = nextStatus"

definition payoutRefunds :: "tx_status \<Rightarrow> payout_row \<Rightarrow> bool" where
  "payoutRefunds nextStatus p \<longleftrightarrow>
     nextStatus \<in> set TERMINAL_FAIL \<and> p_walletDebitedAt p \<noteq> None \<and> p_refundedAt p = None"

definition updatePayout :: "ident \<Rightarrow> (payout_row \<Rightarrow> payout_row) \<Rightarrow> db \<Rightarrow> db" where
  "updatePayout i f d = d\<lparr>payouts := updateWhere (\<lambda>r. p_id r = i) f (payouts d)\<rparr>"

definition applyPayoutUpdate ::
    "env \<Rightarrow> string \<Rightarrow> provider_record \<Rightarrow> (db, applied) action" where
  "applyPayoutUpdate e orderReference rc =
     andThen (query (findPayout orderReference)) (\<lambda>found.
     case found of
       None \<Rightarrow> ret (False, None)
     | Some p \<Rightarrow>
        (let nextStatus = mapProviderStatus (pr_status rc);
             alreadyFinal = p_status p \<in> set FINAL_STATUSES;
             shouldRefund = payoutRefunds nextStatus p
         in if payoutSkips nextStatus p then ret (True, Some nextStatus)
            else
              andThen (toDecimal (pr_fee rc)) (\<lambda>providerFee.
              let patch = payoutPatch e rc nextStatus shouldRefund providerFee;
                  updated = patch p in
              thenDo (modify (updatePayout (p_id p) patch))
              (thenDo (if shouldRefund then thenDo (refundPayout e p) (ret ()) else ret ())
              (thenDo (if alreadyFinal then ret ()
                 else payoutDispatch e rc nextStatus shouldRefund updated)
              (thenDo (case p_batchId p of None \<Rightarrow> ret () | Some b \<Rightarrow> updateBatchCounters e b)
              (thenDo (track e (eventName ''payout'' nextStatus) (Some (RowId (p_account p)))
                         (Some (p_amount p)))
               (ret (True, Some nextStatus)))))))))"

section \<open>Frames\<close>

text \<open>What follows the money: deliveries, jobs and analytics, and fresh ids.\<close>

definition eventsOnly :: "db \<Rightarrow> db \<Rightarrow> bool" where
  "eventsOnly d d' \<longleftrightarrow> (\<exists>dls js n an.
     d' = d\<lparr>deliveries := dls, jobs := js, next_id := n, analytics := an\<rparr> \<and> next_id d \<le> n)"

named_theorems events "steps that only add events"

lemma eventsOnly_refl [events]: "eventsOnly d d"
proof -
  have "d = d\<lparr>deliveries := deliveries d, jobs := jobs d, next_id := next_id d, analytics := analytics d\<rparr>"
    by simp
  then show ?thesis unfolding eventsOnly_def by blast
qed

lemma eventsOnly_trans: "eventsOnly a b \<Longrightarrow> eventsOnly b c \<Longrightarrow> eventsOnly a c"
proof -
  assume "eventsOnly a b" and "eventsOnly b c"
  then obtain x y n z x' y' n' z' where
    "b = a\<lparr>deliveries := x, jobs := y, next_id := n, analytics := z\<rparr>" "next_id a \<le> n"
    "c = b\<lparr>deliveries := x', jobs := y', next_id := n', analytics := z'\<rparr>" "next_id b \<le> n'"
    unfolding eventsOnly_def by blast
  then have "c = a\<lparr>deliveries := x', jobs := y', next_id := n', analytics := z'\<rparr> \<and> next_id a \<le> n'"
    by simp
  then show ?thesis unfolding eventsOnly_def by blast
qed

lemma eventsOnly_dispatch [events]: "eventsOnly d (snd (dispatch e ev acct ref data d))"
proof -
  obtain dls js n where
    "fanOutRows e ev ref data (subscribed ev acct d) d = d\<lparr>deliveries := dls, jobs := js, next_id := n\<rparr>"
    "next_id d \<le> n"
    using fanOut_frame by blast
  then have "snd (dispatch e ev acct ref data d)
      = d\<lparr>deliveries := dls, jobs := js, next_id := n, analytics := analytics d\<rparr> \<and> next_id d \<le> n"
    by (simp add: dispatch_run)
  then show ?thesis unfolding eventsOnly_def by blast
qed

lemma eventsOnly_track [events]: "eventsOnly d (snd (track e name acct v d))"
proof -
  have "\<exists>an. snd (track e name acct v d)
      = d\<lparr>deliveries := deliveries d, jobs := jobs d, next_id := next_id d, analytics := an\<rparr>"
    by (auto simp: track_def)
  then show ?thesis unfolding eventsOnly_def by blast
qed

lemma dispatch_Inr: "\<exists>n d'. dispatch e ev acct ref data d = (Inr n, d') \<and> eventsOnly d d'"
  using eventsOnly_dispatch [of d e ev acct ref data] by (auto simp: dispatch_run)

lemma track_Inr: "\<exists>d'. track e name acct v d = (Inr (), d') \<and> eventsOnly d d'"
  using eventsOnly_track [of d e name acct v] by (auto simp: track_def)

lemma eventsOnly_ledger_ok: "eventsOnly d d' \<Longrightarrow> ledger_ok d \<Longrightarrow> ledger_ok d'"
  by (auto simp: eventsOnly_def intro: ledger_ok_cong)

lemma eventsOnly_balance: "eventsOnly d d' \<Longrightarrow> balanceOf a ty d' = balanceOf a ty d"
  by (auto simp: eventsOnly_def intro: balanceOf_cong)

lemma eventsOnly_tables:
  "eventsOnly d d' \<Longrightarrow> wallets d' = wallets d \<and> wallet_txs d' = wallet_txs d \<and>
     collections d' = collections d \<and> deposits d' = deposits d \<and> payouts d' = payouts d \<and>
     batches d' = batches d \<and> fee_configs d' = fee_configs d \<and> accounts d' = accounts d \<and>
     endpoints d' = endpoints d"
  by (auto simp: eventsOnly_def)

text \<open>Ledger rows of one type for one reference.\<close>

definition ledgerCount :: "wallet_tx_type \<Rightarrow> string \<Rightarrow> db \<Rightarrow> nat" where
  "ledgerCount x ref d = countWhere (\<lambda>t. t_type t = x \<and> t_reference t = Some ref) (wallet_txs d)"

lemma eventsOnly_count: "eventsOnly d d' \<Longrightarrow> ledgerCount x ref d' = ledgerCount x ref d"
  by (auto simp: eventsOnly_def ledgerCount_def)

lemma walletMove_count:
  assumes "wallets_keyed d"
  shows "ledgerCount x r (snd (walletMove e a ty x' v ref aty actor ig d)) =
    ledgerCount x r d + (if isl (fst (walletMove e a ty x' v ref aty actor ig d)) then 0
                         else if x = x' \<and> ref = Some r then 1 else 0)"
  by (simp add: walletMove_def move_run [OF assms] ledgerCount_def post_def moveRow_def Let_def
                countWhere_def split: sum.split prod.split)

lemma walletMove_frame:
  "wallets_keyed d \<Longrightarrow> \<exists>ws ts n. snd (walletMove e a ty x' v ref aty actor ig d)
     = d\<lparr>wallets := ws, wallet_txs := ts, next_id := n\<rparr>"
proof -
  assume keyed: "wallets_keyed d"
  have "\<exists>ws ts n. d = d\<lparr>wallets := ws, wallet_txs := ts, next_id := n\<rparr>"
    by (rule exI [of _ "wallets d"], rule exI [of _ "wallet_txs d"], rule exI [of _ "next_id d"]) simp
  then show ?thesis
    by (auto simp: walletMove_def move_run [OF keyed] post_def split: sum.split prod.split)
qed

section \<open>What an update does\<close>

text \<open>
  The three handlers have one shape: a stage that may fail before anything is written, a change
  of the row, an optional movement, then events only.
\<close>

definition moveStage ::
    "bool \<Rightarrow> (db, wallet_tx_row) action \<Rightarrow> db \<Rightarrow> (err + unit) \<times> db" where
  "moveStage go m = (if go then thenDo m (ret ()) else ret ())"

lemma moveStage_no [simp]: "moveStage False m d = (Inr (), d)"
  by (simp add: moveStage_def ret_run)

lemma moveStage_yes:
  "moveStage True m d = (case m d of (Inl e, d') \<Rightarrow> (Inl e, d') | (Inr x, d') \<Rightarrow> (Inr (), d'))"
  by (simp add: moveStage_def andThen_def ret_run split: prod.split sum.split)

text \<open>The tail after the movement only adds events and returns.\<close>

lemma events_tail:
  assumes "m d = (Inr (), d2)"
    and "\<exists>d3. k d2 = (Inr (), d3) \<and> eventsOnly d2 d3"
  shows "\<exists>d'. thenDo m (thenDo k (thenDo (track e name acct v) (ret x))) d = (Inr x, d') \<and> eventsOnly d2 d'"
proof -
  obtain d3 where d3: "k d2 = (Inr (), d3)" "eventsOnly d2 d3" using assms(2) by blast
  obtain d4 where "track e name acct v d3 = (Inr (), d4)" "eventsOnly d3 d4" using track_Inr by blast
  with assms(1) d3 show ?thesis by (auto simp: andThen_def ret_run intro: eventsOnly_trans)
qed

lemma optional_dispatch:
  "\<exists>d'. (if b then ret () else thenDo (dispatch e ev acct ref data) (ret ())) d = (Inr (), d')
     \<and> eventsOnly d d'"
proof (cases b)
  case True
  then show ?thesis by (auto simp: ret_run events)
next
  case False
  then show ?thesis using dispatch_Inr [of e ev acct ref data d] by (auto simp: andThen_def ret_run)
qed

lemma collection_unknown:
  "findCollection ref d = None \<Longrightarrow> applyCollectionUpdate e ref rc d = (Inr (False, None), d)"
  by (simp add: applyCollectionUpdate_def ret_run)

lemma collection_skip:
  "findCollection ref d = Some c \<Longrightarrow> collectionSkips (mapProviderStatus (pr_status rc)) c \<Longrightarrow>
     applyCollectionUpdate e ref rc d = (Inr (True, Some (mapProviderStatus (pr_status rc))), d)"
  by (simp add: applyCollectionUpdate_def ret_run Let_def)

lemma collectionFee_frame:
  "\<exists>fc. snd (collectionFee b acct amount d) = d\<lparr>fee_configs := fc\<rparr>"
proof -
  obtain fc where fc: "snd (getConfig acct d) = d\<lparr>fee_configs := fc\<rparr>" using getConfig_frame by blast
  show ?thesis
  proof (cases b)
    case True
    have "snd (collectionFee b acct amount d) = snd (computeFee FeeCOLLECTION acct amount d)"
      using True by (simp add: collectionFee_def snd_andThen_pure ret_run)
    with fc show ?thesis by (simp add: snd_computeFee) blast
  next
    case False
    then have "snd (collectionFee b acct amount d) = d\<lparr>fee_configs := fee_configs d\<rparr>"
      by (simp add: collectionFee_def ret_run)
    then show ?thesis by blast
  qed
qed

text \<open>Every run of the collection handler past its guard, in one statement.\<close>

lemma collection_cases:
  assumes found: "findCollection ref d = Some c"
    and go: "\<not> collectionSkips nx c" and nx: "nx = mapProviderStatus (pr_status rc)"
    and sc: "sc = collectionCredits nx c"
  obtains
    (early) err fc where "applyCollectionUpdate e ref rc d = (Inl err, d\<lparr>fee_configs := fc\<rparr>)"
      "isl (fst (collectionFee sc (c_account c) (collectionGross rc c) d)) \<or>
       threshold (pr_collectedAmount rc) = None"
  | (moveFailed) fee collected fc err where "sc"
      "collectionFee sc (c_account c) (collectionGross rc c) d = (Inr fee, d\<lparr>fee_configs := fc\<rparr>)"
      "threshold (pr_collectedAmount rc) = Some collected"
      "fst (collectionCreditMove e c (collectionPatch e rc nx sc fee collected c) fee
         (updateCollection (c_id c) (collectionPatch e rc nx sc fee collected) (d\<lparr>fee_configs := fc\<rparr>)))
         = Inl err"
      "applyCollectionUpdate e ref rc d = (Inl err,
         snd (collectionCreditMove e c (collectionPatch e rc nx sc fee collected c) fee
         (updateCollection (c_id c) (collectionPatch e rc nx sc fee collected) (d\<lparr>fee_configs := fc\<rparr>))))"
  | (finished) fee collected fc d2 d' where
      "collectionFee sc (c_account c) (collectionGross rc c) d = (Inr fee, d\<lparr>fee_configs := fc\<rparr>)"
      "threshold (pr_collectedAmount rc) = Some collected"
      "moveStage sc (collectionCreditMove e c (collectionPatch e rc nx sc fee collected c) fee)
         (updateCollection (c_id c) (collectionPatch e rc nx sc fee collected) (d\<lparr>fee_configs := fc\<rparr>))
         = (Inr (), d2)"
      "eventsOnly d2 d'"
      "applyCollectionUpdate e ref rc d = (Inr (True, Some nx), d')"
proof -
  let ?tail = "\<lambda>fee collected.
     let patch = collectionPatch e rc nx sc fee collected; updated = patch c in
     thenDo (modify (updateCollection (c_id c) patch))
     (thenDo (moveStage sc (collectionCreditMove e c updated fee))
     (thenDo (if c_status c \<in> set FINAL_STATUSES then ret ()
        else thenDo (dispatch e COLLECTION_STATUS (c_account c) (c_reference c)
               (collectionEvent rc nx sc updated)) (ret ()))
     (thenDo (track e (eventName ''collection'' nx) (Some (RowId (c_account c)))
                (Some (c_amount updated)))
      (ret (True, Some nx)))))"
  have run: "applyCollectionUpdate e ref rc d =
    andThen (collectionFee sc (c_account c) (collectionGross rc c)) (\<lambda>fee.
    andThen (toDecimal (pr_collectedAmount rc)) (\<lambda>collected. ?tail fee collected)) d"
    using found go unfolding applyCollectionUpdate_def nx [symmetric] moveStage_def sc
    by (simp only: andThen_query option.case Let_def if_False)
  obtain fc where fc: "snd (collectionFee sc (c_account c) (collectionGross rc c) d) = d\<lparr>fee_configs := fc\<rparr>"
    using collectionFee_frame by blast
  show thesis
  proof (cases "fst (collectionFee sc (c_account c) (collectionGross rc c) d)")
    case (Inl err)
    then have "applyCollectionUpdate e ref rc d = (Inl err, d\<lparr>fee_configs := fc\<rparr>)"
      unfolding run using fc by (cases "collectionFee sc (c_account c) (collectionGross rc c) d")
        (simp add: andThen_def)
    then show thesis using Inl by (intro early) simp_all
  next
    case (Inr fee)
    then have fee: "collectionFee sc (c_account c) (collectionGross rc c) d = (Inr fee, d\<lparr>fee_configs := fc\<rparr>)"
      using fc by (simp add: prod_eq_iff)
    show thesis
    proof (cases "pr_collectedAmount rc" rule: toDecimal_cases)
      case bad
      have "applyCollectionUpdate e ref rc d = (Inl DecimalError, d\<lparr>fee_configs := fc\<rparr>)"
        unfolding run using fee bad(1) by (simp add: andThen_def raise_run)
      then show thesis using bad by (intro early) simp_all
    next
      case (ok collected)
      let ?p = "collectionPatch e rc nx sc fee collected"
      let ?d1 = "updateCollection (c_id c) ?p (d\<lparr>fee_configs := fc\<rparr>)"
      have run2: "applyCollectionUpdate e ref rc d =
          thenDo (moveStage sc (collectionCreditMove e c (?p c) fee))
           (thenDo (if c_status c \<in> set FINAL_STATUSES then ret ()
              else thenDo (dispatch e COLLECTION_STATUS (c_account c) (c_reference c)
                     (collectionEvent rc nx sc (?p c))) (ret ()))
           (thenDo (track e (eventName ''collection'' nx) (Some (RowId (c_account c)))
                      (Some (c_amount (?p c))))
            (ret (True, Some nx)))) ?d1"
        unfolding run using fee ok(1) by (simp add: andThen_def ret_run Let_def)
      note dec = ok(2)
      show thesis
      proof (cases "moveStage sc (collectionCreditMove e c (?p c) fee) ?d1")
        case (Pair r d2)
        show thesis
        proof (cases r)
          case (Inl err)
          then have "sc" and m: "collectionCreditMove e c (?p c) fee ?d1 = (Inl err, d2)"
            using Pair by (cases sc; auto simp: moveStage_yes split: prod.splits sum.splits)+
          moreover have "applyCollectionUpdate e ref rc d = (Inl err, d2)"
            unfolding run2 using Pair Inl by (simp add: andThen_def)
          ultimately show thesis using fee dec
            by (intro moveFailed [where fee = fee and collected = collected and fc = fc and err = err]) simp_all
        next
          case (Inr z)
          then have m: "moveStage sc (collectionCreditMove e c (?p c) fee) ?d1 = (Inr (), d2)"
            using Pair by simp
          let ?ev = "if c_status c \<in> set FINAL_STATUSES then ret ()
              else thenDo (dispatch e COLLECTION_STATUS (c_account c) (c_reference c)
                     (collectionEvent rc nx sc (?p c))) (ret ())"
          obtain d' where d': "applyCollectionUpdate e ref rc d = (Inr (True, Some nx), d')" "eventsOnly d2 d'"
            using events_tail [where m = "moveStage sc (collectionCreditMove e c (?p c) fee)" and d = ?d1
              and k = ?ev and e = e and name = "eventName ''collection'' nx"
              and acct = "Some (RowId (c_account c))" and v = "Some (c_amount (?p c))"
              and x = "(True, Some nx)", OF m optional_dispatch] run2 by auto
          show thesis by (rule finished [OF fee dec m d'(2,1)])
        qed
      qed
    qed
  qed
qed


lemma moveStage_Inl:
  "moveStage sc m d = (Inl err, d2) \<Longrightarrow> sc \<and> m d = (Inl err, d2)"
  by (cases sc) (auto simp: moveStage_yes split: prod.splits sum.splits)

lemma moveStage_Inr:
  "moveStage sc m d = (Inr z, d2) \<Longrightarrow> (if sc then \<exists>row. m d = (Inr row, d2) else d2 = d)"
  by (cases sc) (auto simp: moveStage_yes split: prod.splits sum.splits)

lemma deposit_unknown:
  "findDeposit ref d = None \<Longrightarrow> applyDepositUpdate e ref rc d = (Inr (False, None), d)"
  by (simp add: applyDepositUpdate_def ret_run)

lemma deposit_skip:
  "findDeposit ref d = Some r \<Longrightarrow> depositSkips (mapProviderStatus (pr_status rc)) r \<Longrightarrow>
     applyDepositUpdate e ref rc d = (Inr (True, Some (mapProviderStatus (pr_status rc))), d)"
  by (simp add: applyDepositUpdate_def ret_run Let_def)

lemma deposit_cases:
  assumes found: "findDeposit ref d = Some r"
    and go: "\<not> depositSkips nx r" and nx: "nx = mapProviderStatus (pr_status rc)"
    and sc: "sc = depositCredits nx r"
  obtains
    (early) "applyDepositUpdate e ref rc d = (Inl DecimalError, d)"
  | (moveFailed) collected d1 d2 err where "sc" "threshold (pr_collectedAmount rc) = Some collected"
      "d1 = updateDeposit (d_id r) (depositPatch e rc nx sc collected) d"
      "depositCreditMove e r (depositPatch e rc nx sc collected r) d1 = (Inl err, d2)"
      "applyDepositUpdate e ref rc d = (Inl err, d2)"
  | (finished) collected d1 d2 d' where "threshold (pr_collectedAmount rc) = Some collected"
      "d1 = updateDeposit (d_id r) (depositPatch e rc nx sc collected) d"
      "moveStage sc (depositCreditMove e r (depositPatch e rc nx sc collected r)) d1 = (Inr (), d2)"
      "eventsOnly d2 d'"
      "applyDepositUpdate e ref rc d = (Inr (True, Some nx), d')"
proof (cases "pr_collectedAmount rc" rule: toDecimal_cases)
  case bad
  then have "applyDepositUpdate e ref rc d = (Inl DecimalError, d)"
    using found go unfolding applyDepositUpdate_def nx [symmetric] sc
    by (simp add: Let_def raise_run)
  then show thesis by (rule early)
next
  case (ok collected)
  let ?p = "depositPatch e rc nx sc collected"
  let ?d1 = "updateDeposit (d_id r) ?p d" and ?mv = "depositCreditMove e r (?p r)"
  let ?ev = "if d_status r \<in> set FINAL_STATUSES then ret ()
      else thenDo (dispatch e DEPOSIT_STATUS (d_account r) (d_reference r)
             (depositEvent rc nx sc (?p r))) (ret ())"
  have run: "applyDepositUpdate e ref rc d = thenDo (moveStage sc ?mv) (thenDo ?ev
      (thenDo (track e (eventName ''deposit'' nx) (Some (RowId (d_account r))) (Some (d_amount (?p r))))
       (ret (True, Some nx)))) ?d1"
    using found go ok(1) unfolding applyDepositUpdate_def nx [symmetric] moveStage_def sc
    by (simp add: Let_def)
  show thesis
  proof (cases "moveStage sc ?mv ?d1")
    case (Pair z d2)
    show thesis
    proof (cases z)
      case (Inl err)
      note m = Pair [unfolded Inl]
      have "applyDepositUpdate e ref rc d = (Inl err, d2)" unfolding run using m by (simp add: andThen_def)
      with moveStage_Inl [OF m] ok(2) show thesis by (intro moveFailed) (auto intro: refl)
    next
      case (Inr u)
      then have m: "moveStage sc ?mv ?d1 = (Inr (), d2)" using Pair by simp
      obtain d' where d': "applyDepositUpdate e ref rc d = (Inr (True, Some nx), d')" "eventsOnly d2 d'"
        using events_tail [where m = "moveStage sc ?mv" and d = ?d1 and k = ?ev and e = e
              and name = "eventName ''deposit'' nx" and acct = "Some (RowId (d_account r))"
              and v = "Some (d_amount (?p r))" and x = "(True, Some nx)", OF m optional_dispatch] run
        by auto
      show thesis by (rule finished [OF ok(2) refl m d'(2,1)])
    qed
  qed
qed

text \<open>Besides events, a payout update recomputes its batch.\<close>

definition followUps :: "db \<Rightarrow> db \<Rightarrow> bool" where
  "followUps d d' \<longleftrightarrow> (\<exists>bs. eventsOnly (d\<lparr>batches := bs\<rparr>) d')"

lemma followUps_refl: "followUps d d"
proof -
  have "eventsOnly (d\<lparr>batches := batches d\<rparr>) d" using eventsOnly_refl [of d] by simp
  then show ?thesis unfolding followUps_def by blast
qed

lemma eventsOnly_batches:
  "eventsOnly a b \<Longrightarrow> eventsOnly (a\<lparr>batches := bs\<rparr>) (b\<lparr>batches := bs\<rparr>)"
proof -
  assume "eventsOnly a b"
  then obtain dls js n an where b: "b = a\<lparr>deliveries := dls, jobs := js, next_id := n, analytics := an\<rparr>"
      "next_id a \<le> n" unfolding eventsOnly_def by blast
  have "b\<lparr>batches := bs\<rparr>
      = a\<lparr>batches := bs\<rparr>\<lparr>deliveries := dls, jobs := js, next_id := n, analytics := an\<rparr>"
    and "next_id (a\<lparr>batches := bs\<rparr>) \<le> n" using b by simp_all
  then show ?thesis unfolding eventsOnly_def by blast
qed

lemma followUps_trans: "followUps a b \<Longrightarrow> followUps b c \<Longrightarrow> followUps a c"
proof -
  assume "followUps a b" and "followUps b c"
  then obtain bs bs' where ab: "eventsOnly (a\<lparr>batches := bs\<rparr>) b" and bc: "eventsOnly (b\<lparr>batches := bs'\<rparr>) c"
    unfolding followUps_def by blast
  from eventsOnly_batches [OF ab, of bs'] have "eventsOnly (a\<lparr>batches := bs'\<rparr>) (b\<lparr>batches := bs'\<rparr>)" by simp
  from eventsOnly_trans [OF this bc] show ?thesis unfolding followUps_def by blast
qed

lemma followUps_events: "eventsOnly a b \<Longrightarrow> followUps a b"
proof -
  assume "eventsOnly a b"
  then have "eventsOnly (a\<lparr>batches := batches a\<rparr>) b" by simp
  then show ?thesis unfolding followUps_def by blast
qed

lemma followUps_tables:
  "followUps d d' \<Longrightarrow> wallets d' = wallets d \<and> wallet_txs d' = wallet_txs d \<and>
     collections d' = collections d \<and> deposits d' = deposits d \<and> payouts d' = payouts d \<and>
     next_id d \<le> next_id d'"
  by (auto simp: followUps_def eventsOnly_def)

lemma followUps_ledger_ok: "followUps d d' \<Longrightarrow> ledger_ok d \<Longrightarrow> ledger_ok d'"
  using followUps_tables [of d d'] by (auto intro: ledger_ok_cong)

lemma followUps_balance: "followUps d d' \<Longrightarrow> balanceOf a ty d' = balanceOf a ty d"
  using followUps_tables [of d d'] by (auto intro: balanceOf_cong)

definition counted :: "ident \<Rightarrow> db \<Rightarrow> db" where
  "counted i d = (let ps = batchPayouts i d;
       success = countWhere (\<lambda>p. p_status p = TxSUCCESS) ps;
       failed = countWhere (\<lambda>p. p_status p \<in> set TERMINAL_FAIL) ps
     in d\<lparr>batches := updateWhere (\<lambda>b. b_id b = i)
          (\<lambda>b. b\<lparr>b_successCount := success, b_failedCount := failed,
                 b_status := batchOutcome success failed (length ps)\<rparr>) (batches d)\<rparr>)"

lemma updateBatchCounters_run:
  "updateBatchCounters e i d = (case findBatch i (counted i d) of
     None \<Rightarrow> (Inl RecordNotFound, counted i d)
   | Some b \<Rightarrow> if b_status b = BatchPROCESSING then (Inr (), counted i d)
       else thenDo (dispatch e BATCH_STATUS (b_account b) (b_reference b) (batchEvent (b_status b) b))
              (track e ''batch.completed'' (Some (RowId (b_account b))) None) (counted i d))"
proof -
  let ?ps = "batchPayouts i d"
  let ?st = "batchOutcome (countWhere (\<lambda>p. p_status p = TxSUCCESS) ?ps)
                (countWhere (\<lambda>p. p_status p \<in> set TERMINAL_FAIL) ?ps) (length ?ps)"
  have st: "b_status b = ?st" if "findBatch i (counted i d) = Some b" for b
  proof -
    have "b \<in> set (batches (counted i d))" and "b_id b = i"
      using that by (auto simp: findBatch_def dest: find_SomeD)
    then have "b \<in> set (updateWhere (\<lambda>b. b_id b = i)
        (\<lambda>b. b\<lparr>b_successCount := countWhere (\<lambda>p. p_status p = TxSUCCESS) ?ps,
               b_failedCount := countWhere (\<lambda>p. p_status p \<in> set TERMINAL_FAIL) ?ps,
               b_status := ?st\<rparr>) (batches d))"
      by (simp add: counted_def Let_def)
    then show ?thesis
    proof (cases rule: in_updateWhereE)
      case (updated x)
      then show ?thesis by (subst updated(3)) simp
    qed (use \<open>b_id b = i\<close> in simp)
  qed
  show ?thesis
  proof (cases "findBatch i (counted i d)")
    case None
    then show ?thesis by (simp add: updateBatchCounters_def Let_def counted_def fetch_def andThen_def)
  next
    case (Some b)
    from Some st [OF Some] show ?thesis
      by (simp add: updateBatchCounters_def Let_def counted_def andThen_fetch ret_run)
  qed
qed

lemma updateBatchCounters_followUps: "followUps d (snd (updateBatchCounters e i d))"
proof -
  have c: "followUps d (counted i d)"
    unfolding followUps_def counted_def Let_def by (blast intro: eventsOnly_refl)
  have t: "eventsOnly x (snd (thenDo (dispatch e ev acct ref data) (track e nm ac v) x))"
    for x ev acct ref data nm ac v
  proof -
    obtain n y where y: "dispatch e ev acct ref data x = (Inr n, y)" "eventsOnly x y"
      using dispatch_Inr by blast
    have "snd (thenDo (dispatch e ev acct ref data) (track e nm ac v) x) = snd (track e nm ac v y)"
      using y(1) by (simp add: andThen_def)
    then show ?thesis using eventsOnly_trans [OF y(2) eventsOnly_track [of y e nm ac v]] by simp
  qed
  show ?thesis
    using c t followUps_trans [OF c followUps_events]
    by (auto simp: updateBatchCounters_run split: option.split)
qed

lemma payout_unknown:
  "findPayout ref d = None \<Longrightarrow> applyPayoutUpdate e ref rc d = (Inr (False, None), d)"
  by (simp add: applyPayoutUpdate_def ret_run)

lemma payout_skip:
  "findPayout ref d = Some p \<Longrightarrow> payoutSkips (mapProviderStatus (pr_status rc)) p \<Longrightarrow>
     applyPayoutUpdate e ref rc d = (Inr (True, Some (mapProviderStatus (pr_status rc))), d)"
  by (simp add: applyPayoutUpdate_def ret_run Let_def)

lemma payoutDispatch_Inr:
  "\<exists>d'. payoutDispatch e rc nx sr p d = (Inr (), d') \<and> eventsOnly d d'"
proof -
  obtain n d' where "dispatch e (case p_batchId p of None \<Rightarrow> DISBURSEMENT_STATUS | Some _ \<Rightarrow> BATCH_STATUS)
        (p_account p) (case p_batchId p of None \<Rightarrow> p_reference p | Some b \<Rightarrow> showNat b)
        (payoutEvent rc nx sr (case p_batchId p of None \<Rightarrow> None | Some b \<Rightarrow> batchReference b d) p) d
      = (Inr n, d')" "eventsOnly d d'"
    using dispatch_Inr by blast
  then show ?thesis by (simp add: payoutDispatch_def andThen_def ret_run)
qed

lemma payout_cases:
  assumes found: "findPayout ref d = Some p"
    and go: "\<not> payoutSkips nx p" and nx: "nx = mapProviderStatus (pr_status rc)"
    and sr: "sr = payoutRefunds nx p"
  obtains
    (early) "applyPayoutUpdate e ref rc d = (Inl DecimalError, d)" "threshold (pr_fee rc) = None"
  | (refundFailed) fee d1 d2 err where "sr" "d1 = updatePayout (p_id p) (payoutPatch e rc nx sr fee) d"
      "refundPayout e p d1 = (Inl err, d2)" "applyPayoutUpdate e ref rc d = (Inl err, d2)"
  | (finished) fee d1 d2 d' where "d1 = updatePayout (p_id p) (payoutPatch e rc nx sr fee) d"
      "moveStage sr (refundPayout e p) d1 = (Inr (), d2)" "followUps d2 d'"
      "fst (applyPayoutUpdate e ref rc d) \<in> {Inr (True, Some nx), Inl RecordNotFound}"
      "snd (applyPayoutUpdate e ref rc d) = d'"
proof (cases "pr_fee rc" rule: toDecimal_cases)
  case bad
  then have "applyPayoutUpdate e ref rc d = (Inl DecimalError, d)"
    using found go unfolding applyPayoutUpdate_def nx [symmetric] sr
    by (simp add: Let_def raise_run)
  then show thesis using bad(2) by (rule early)
next
  case (ok fee)
  let ?p = "payoutPatch e rc nx sr fee"
  let ?d1 = "updatePayout (p_id p) ?p d"
  let ?ev = "if p_status p \<in> set FINAL_STATUSES then ret () else payoutDispatch e rc nx sr (?p p)"
  let ?ct = "case p_batchId p of None \<Rightarrow> ret () | Some b \<Rightarrow> updateBatchCounters e b"
  have run: "applyPayoutUpdate e ref rc d = thenDo (moveStage sr (refundPayout e p)) (thenDo ?ev
      (thenDo ?ct (thenDo (track e (eventName ''payout'' nx) (Some (RowId (p_account p))) (Some (p_amount p)))
       (ret (True, Some nx))))) ?d1"
    using found go ok(1) unfolding applyPayoutUpdate_def nx [symmetric] moveStage_def sr
    by (simp add: Let_def)
  show thesis
  proof (cases "moveStage sr (refundPayout e p) ?d1")
    case (Pair z d2)
    show thesis
    proof (cases z)
      case (Inl err)
      note m = Pair [unfolded Inl]
      have "applyPayoutUpdate e ref rc d = (Inl err, d2)" unfolding run using m by (simp add: andThen_def)
      with moveStage_Inl [OF m] show thesis by (intro refundFailed) (auto intro: refl)
    next
      case (Inr u)
      then have m: "moveStage sr (refundPayout e p) ?d1 = (Inr (), d2)" using Pair by simp
      obtain d3 where d3: "?ev d2 = (Inr (), d3)" "eventsOnly d2 d3"
        using payoutDispatch_Inr [of e rc nx sr "?p p" d2] eventsOnly_refl
        by (cases "p_status p \<in> set FINAL_STATUSES") (auto simp: ret_run)
      obtain r4 d4 where d4: "?ct d3 = (r4, d4)" by (cases "?ct d3")
      have f4: "followUps d3 d4" and r4: "r4 \<in> {Inr (), Inl RecordNotFound}"
      proof -
        show "followUps d3 d4"
          using d4 followUps_refl updateBatchCounters_followUps
          by (cases "p_batchId p") (auto simp: ret_run, metis snd_conv)
        show "r4 \<in> {Inr (), Inl RecordNotFound}" by (cases r4) (use d4 in \<open>auto simp: ret_run
            updateBatchCounters_run track_def dispatch_run andThen_def split: option.splits if_splits\<close>)
      qed
      show thesis
      proof (cases r4)
        case (Inl err)
        then have "err = RecordNotFound" using r4 by simp
        moreover have "applyPayoutUpdate e ref rc d = (Inl err, d4)"
          unfolding run using m d3 d4 Inl by (simp add: andThen_def)
        ultimately show thesis
          using finished [OF refl m followUps_trans [OF followUps_events [OF d3(2)] f4]] by simp
      next
        case (Inr v)
        obtain d5 where d5: "track e (eventName ''payout'' nx) (Some (RowId (p_account p))) (Some (p_amount p)) d4
            = (Inr (), d5)" "eventsOnly d4 d5" using track_Inr by blast
        have "applyPayoutUpdate e ref rc d = (Inr (True, Some nx), d5)"
          unfolding run using m d3 d4 d5 Inr by (simp add: andThen_def ret_run)
        moreover have "followUps d2 d5"
          using followUps_trans [OF followUps_trans [OF followUps_events [OF d3(2)] f4] followUps_events [OF d5(2)]] .
        ultimately show thesis using finished [OF refl m] by simp
      qed
    qed
  qed
qed


section \<open>At most one movement per row\<close>

text \<open>
  A table whose rows carry a mark for the one movement each may cause: ids and references are
  unique, and the number of movements recorded for a reference is at most one, and zero while the
  mark is missing.
\<close>

definition once_ok ::
    "('r \<Rightarrow> ident) \<Rightarrow> ('r \<Rightarrow> string) \<Rightarrow> ('r \<Rightarrow> int option) \<Rightarrow> (string \<Rightarrow> nat) \<Rightarrow> 'r list \<Rightarrow> bool" where
  "once_ok idf ref mark cnt rows \<longleftrightarrow>
     distinct (map idf rows) \<and> distinct (map ref rows) \<and>
     (\<forall>r \<in> set rows. cnt (ref r) \<le> (if mark r = None then 0 else 1))"

lemma once_step:
  assumes ok: "once_ok idf ref mark cnt rows" and x: "x \<in> set rows"
    and f: "\<And>r. idf (f r) = idf r" "\<And>r. ref (f r) = ref r" "mark x \<noteq> None \<Longrightarrow> mark (f x) \<noteq> None"
    and cnt: "\<And>k. cnt' k = cnt k + (if moved \<and> k = ref x then 1 else 0)"
    and moved: "moved \<Longrightarrow> mark x = None \<and> mark (f x) \<noteq> None"
  shows "once_ok idf ref mark cnt' (updateWhere (\<lambda>r. idf r = idf x) f rows)"
proof -
  note o = ok [unfolded once_ok_def]
  have "cnt' (ref r) \<le> (if mark r = None then 0 else 1)"
    if "r \<in> set (updateWhere (\<lambda>r. idf r = idf x) f rows)" for r
    using that
  proof (cases rule: in_updateWhereE)
    case (updated y)
    then have "y = x" using o x by (auto simp: distinct_map inj_on_def)
    have "cnt (ref x) \<le> (if mark x = None then 0 else 1)" using o x by blast
    then show ?thesis using cnt [of "ref x"] moved f(2,3) [of] updated(3) \<open>y = x\<close>
      by (cases moved; cases "mark x = None"; cases "mark (f x) = None") auto
  next
    case kept
    then have "ref r \<noteq> ref x" using o x by (auto simp: distinct_map inj_on_def)
    then show ?thesis using cnt [of "ref r"] o kept(1) by simp
  qed
  then show ?thesis using o f(1,2) by (simp add: once_ok_def map_updateWhere)
qed

lemma once_same: "once_ok idf ref mark cnt rows \<Longrightarrow> (\<And>k. cnt' k = cnt k) \<Longrightarrow> once_ok idf ref mark cnt' rows"
  by (simp add: once_ok_def)

definition collections_once :: "db \<Rightarrow> bool" where
  "collections_once d \<longleftrightarrow>
     once_ok c_id c_reference c_walletCreditedAt (\<lambda>k. ledgerCount COLLECTION_CREDIT k d) (collections d)"

definition deposits_once :: "db \<Rightarrow> bool" where
  "deposits_once d \<longleftrightarrow>
     once_ok d_id d_reference d_walletCreditedAt (\<lambda>k. ledgerCount DEPOSIT k d) (deposits d)"

definition payouts_once :: "db \<Rightarrow> bool" where
  "payouts_once d \<longleftrightarrow>
     once_ok p_id p_reference p_refundedAt (\<lambda>k. ledgerCount REFUND k d) (payouts d)"

definition status_inv :: "db \<Rightarrow> bool" where
  "status_inv d \<longleftrightarrow> ledger_ok d \<and> collections_once d \<and> deposits_once d \<and> payouts_once d"

lemmas once_defs = collections_once_def deposits_once_def payouts_once_def

lemma status_inv_frame:
  assumes "status_inv d" and "wallets d' = wallets d" and "wallet_txs d' = wallet_txs d"
    and "collections d' = collections d" and "deposits d' = deposits d" and "payouts d' = payouts d"
    and "next_id d \<le> next_id d'"
  shows "status_inv d'"
  using assms ledger_ok_cong [of d' d]
  by (simp add: status_inv_def once_defs ledgerCount_def)

lemma status_inv_events: "eventsOnly d d' \<Longrightarrow> status_inv d \<Longrightarrow> status_inv d'"
  using eventsOnly_tables [of d d'] status_inv_frame [of d d'] by (auto simp: eventsOnly_def)

lemma status_inv_followUps: "followUps d d' \<Longrightarrow> status_inv d \<Longrightarrow> status_inv d'"
  using followUps_tables [of d d'] status_inv_frame [of d d'] by blast

text \<open>A movement of a given type and reference, made right after the row was marked.\<close>

lemma walletMove_tables:
  assumes "wallets_keyed d"
  shows "collections (snd (walletMove e a ty x v ref aty actor ig d)) = collections d"
    and "deposits (snd (walletMove e a ty x v ref aty actor ig d)) = deposits d"
    and "payouts (snd (walletMove e a ty x v ref aty actor ig d)) = payouts d"
  using walletMove_frame [OF assms, of e a ty x v ref aty actor ig] by auto

lemma walletMove_credit_ledger_ok:
  "ledger_ok d \<Longrightarrow> \<not> isDebitMove x v \<Longrightarrow> ledger_ok (snd (walletMove e a ty x v ref aty actor ig d))"
  unfolding walletMove_def by (rule ledger_ok_move) auto

lemma ledgerCount_upd [simp]:
  "ledgerCount x k (updateCollection i f d) = ledgerCount x k d"
  "ledgerCount x k (updateDeposit i g d) = ledgerCount x k d"
  "ledgerCount x k (updatePayout i h d) = ledgerCount x k d"
  "ledgerCount x k (d\<lparr>fee_configs := fc\<rparr>) = ledgerCount x k d"
  by (simp_all add: ledgerCount_def updateCollection_def updateDeposit_def updatePayout_def)

lemma ledger_ok_upd [simp]:
  "ledger_ok (updateCollection i f d) = ledger_ok d"
  "ledger_ok (updateDeposit i g d) = ledger_ok d"
  "ledger_ok (updatePayout i h d) = ledger_ok d"
  by (simp_all add: updateCollection_def updateDeposit_def updatePayout_def
        ledger_ok_def wallets_keyed_def wallet_ledger_ok_def ledgerOf_def)

lemma wallets_keyed_upd [simp]:
  "wallets_keyed (updateCollection i f d) = wallets_keyed d"
  "wallets_keyed (updateDeposit i g d) = wallets_keyed d"
  "wallets_keyed (updatePayout i h d) = wallets_keyed d"
  "wallets_keyed (d\<lparr>fee_configs := fc\<rparr>) = wallets_keyed d"
  by (simp_all add: updateCollection_def updateDeposit_def updatePayout_def wallets_keyed_def)

lemma table_upd [simp]:
  "collections (updateCollection i f d) = updateWhere (\<lambda>r. c_id r = i) f (collections d)"
  "deposits (updateCollection i f d) = deposits d" "payouts (updateCollection i f d) = payouts d"
  "deposits (updateDeposit i g d) = updateWhere (\<lambda>r. d_id r = i) g (deposits d)"
  "collections (updateDeposit i g d) = collections d" "payouts (updateDeposit i g d) = payouts d"
  "payouts (updatePayout i h d) = updateWhere (\<lambda>r. p_id r = i) h (payouts d)"
  "collections (updatePayout i h d) = collections d" "deposits (updatePayout i h d) = deposits d"
  by (simp_all add: updateCollection_def updateDeposit_def updatePayout_def)

lemma ledger_keyed: "ledger_ok d \<Longrightarrow> wallets_keyed d"
  by (simp add: ledger_ok_def)

lemma findCollection_in: "findCollection ref d = Some c \<Longrightarrow> c \<in> set (collections d) \<and> c_reference c = ref"
  by (auto simp: findCollection_def dest: find_SomeD)

lemma findDeposit_in: "findDeposit ref d = Some r \<Longrightarrow> r \<in> set (deposits d) \<and> d_reference r = ref"
  by (auto simp: findDeposit_def dest: find_SomeD)

lemma findPayout_in: "findPayout ref d = Some p \<Longrightarrow> p \<in> set (payouts d) \<and> p_reference p = ref"
  by (auto simp: findPayout_def dest: find_SomeD)

text \<open>The row is marked, then the movement is tried: the invariant holds whatever comes of it.\<close>

lemma status_inv_collection:
  assumes inv: "status_inv d" and c: "c \<in> set (collections d)" and sc: "sc = collectionCredits nx c"
    and d1_def: "d1 = updateCollection (c_id c) (collectionPatch e rc nx sc fee collected) (d\<lparr>fee_configs := fc\<rparr>)"
  shows "status_inv d1" and "sc \<Longrightarrow> status_inv (snd (collectionCreditMove e c u fee d1))"
proof -
  let ?f = "collectionPatch e rc nx sc fee collected"
  have f: "c_id (?f r) = c_id r" "c_reference (?f r) = c_reference r"
      "c_walletCreditedAt c \<noteq> None \<Longrightarrow> c_walletCreditedAt (?f c) \<noteq> None" for r
    by (auto simp: collectionPatch_def)
  have ok1: "ledger_ok d1" using inv by (simp add: d1_def status_inv_def)
  have once: "once_ok c_id c_reference c_walletCreditedAt cnt (collections d1)"
    if "\<And>k. cnt k = ledgerCount COLLECTION_CREDIT k d + (if moved \<and> k = c_reference c then 1 else 0)"
      and "moved \<Longrightarrow> sc" for cnt moved
  proof -
    have "once_ok c_id c_reference c_walletCreditedAt cnt
        (updateWhere (\<lambda>r. c_id r = c_id c) ?f (collections d))"
    proof (rule once_step [where moved = moved and cnt = "\<lambda>k. ledgerCount COLLECTION_CREDIT k d"])
      show "once_ok c_id c_reference c_walletCreditedAt (\<lambda>k. ledgerCount COLLECTION_CREDIT k d) (collections d)"
        using inv by (simp add: status_inv_def collections_once_def)
      show "moved \<Longrightarrow> c_walletCreditedAt c = None \<and> c_walletCreditedAt (?f c) \<noteq> None"
        using that(2) sc by (simp add: collectionCredits_def collectionPatch_def)
    qed (fact c f that(1))+
    then show ?thesis by (simp add: d1_def)
  qed
  have dep: "deposits_once d1" and pay: "payouts_once d1"
    using inv by (simp_all add: status_inv_def deposits_once_def payouts_once_def d1_def)
  show "status_inv d1"
    using ok1 dep pay once [of "\<lambda>k. ledgerCount COLLECTION_CREDIT k d1" False]
    by (simp add: status_inv_def collections_once_def d1_def)
  assume "sc"
  let ?m = "collectionCreditMove e c u fee d1"
  have keyed: "wallets_keyed d1" using ok1 by (rule ledger_keyed)
  have "ledger_ok (snd ?m)"
    using ok1 unfolding collectionCreditMove_def
    by (intro walletMove_credit_ledger_ok) (simp_all add: isDebitMove_def DEBIT_TYPES_def)
  moreover have "ledgerCount x k (snd ?m) = ledgerCount x k d
      + (if \<not> isl (fst ?m) \<and> x = COLLECTION_CREDIT \<and> k = c_reference c then 1 else 0)" for x k
    using walletMove_count [OF keyed] by (auto simp: collectionCreditMove_def d1_def)
  moreover have "collections (snd ?m) = collections d1" "deposits (snd ?m) = deposits d1"
      "payouts (snd ?m) = payouts d1"
    unfolding collectionCreditMove_def by (rule walletMove_tables [OF keyed])+
  ultimately show "status_inv (snd ?m)"
    using dep pay \<open>sc\<close> once [of "\<lambda>k. ledgerCount COLLECTION_CREDIT k (snd ?m)" "\<not> isl (fst ?m)"]
    by (simp add: status_inv_def once_defs d1_def)
qed


lemma status_inv_deposit:
  assumes inv: "status_inv d" and r: "r \<in> set (deposits d)" and sc: "sc = depositCredits nx r"
    and d1_def: "d1 = updateDeposit (d_id r) (depositPatch e rc nx sc collected) d"
  shows "status_inv d1" and "sc \<Longrightarrow> status_inv (snd (depositCreditMove e r u d1))"
proof -
  let ?f = "depositPatch e rc nx sc collected"
  have f: "d_id (?f x) = d_id x" "d_reference (?f x) = d_reference x"
      "d_walletCreditedAt r \<noteq> None \<Longrightarrow> d_walletCreditedAt (?f r) \<noteq> None" for x
    by (auto simp: depositPatch_def)
  have ok1: "ledger_ok d1" using inv by (simp add: d1_def status_inv_def)
  have once: "once_ok d_id d_reference d_walletCreditedAt cnt (deposits d1)"
    if "\<And>k. cnt k = ledgerCount DEPOSIT k d + (if moved \<and> k = d_reference r then 1 else 0)"
      and "moved \<Longrightarrow> sc" for cnt moved
  proof -
    have "once_ok d_id d_reference d_walletCreditedAt cnt
        (updateWhere (\<lambda>x. d_id x = d_id r) ?f (deposits d))"
    proof (rule once_step [where moved = moved and cnt = "\<lambda>k. ledgerCount DEPOSIT k d"])
      show "once_ok d_id d_reference d_walletCreditedAt (\<lambda>k. ledgerCount DEPOSIT k d) (deposits d)"
        using inv by (simp add: status_inv_def deposits_once_def)
      show "moved \<Longrightarrow> d_walletCreditedAt r = None \<and> d_walletCreditedAt (?f r) \<noteq> None"
        using that(2) sc by (simp add: depositCredits_def depositPatch_def)
    qed (fact r f that(1))+
    then show ?thesis by (simp add: d1_def)
  qed
  have col: "collections_once d1" and pay: "payouts_once d1"
    using inv by (simp_all add: status_inv_def collections_once_def payouts_once_def d1_def)
  show "status_inv d1"
    using ok1 col pay once [of "\<lambda>k. ledgerCount DEPOSIT k d1" False]
    by (simp add: status_inv_def deposits_once_def d1_def)
  assume "sc"
  let ?m = "depositCreditMove e r u d1"
  have keyed: "wallets_keyed d1" using ok1 by (rule ledger_keyed)
  have "ledger_ok (snd ?m)"
    using ok1 unfolding depositCreditMove_def
    by (intro walletMove_credit_ledger_ok) (simp_all add: isDebitMove_def DEBIT_TYPES_def)
  moreover have "ledgerCount x k (snd ?m) = ledgerCount x k d
      + (if \<not> isl (fst ?m) \<and> x = DEPOSIT \<and> k = d_reference r then 1 else 0)" for x k
    using walletMove_count [OF keyed] by (auto simp: depositCreditMove_def d1_def)
  moreover have "collections (snd ?m) = collections d1" "deposits (snd ?m) = deposits d1"
      "payouts (snd ?m) = payouts d1"
    unfolding depositCreditMove_def by (rule walletMove_tables [OF keyed])+
  ultimately show "status_inv (snd ?m)"
    using col pay \<open>sc\<close> once [of "\<lambda>k. ledgerCount DEPOSIT k (snd ?m)" "\<not> isl (fst ?m)"]
    by (simp add: status_inv_def once_defs d1_def)
qed

lemma status_inv_payout:
  assumes inv: "status_inv d" and p: "p \<in> set (payouts d)" and sr: "sr = payoutRefunds nx p"
    and d1_def: "d1 = updatePayout (p_id p) (payoutPatch e rc nx sr fee) d"
  shows "status_inv d1" and "sr \<Longrightarrow> status_inv (snd (refundPayout e p d1))"
proof -
  let ?f = "payoutPatch e rc nx sr fee"
  have f: "p_id (?f x) = p_id x" "p_reference (?f x) = p_reference x"
      "p_refundedAt p \<noteq> None \<Longrightarrow> p_refundedAt (?f p) \<noteq> None" for x
    by (auto simp: payoutPatch_def)
  have ok1: "ledger_ok d1" using inv by (simp add: d1_def status_inv_def)
  have once: "once_ok p_id p_reference p_refundedAt cnt (payouts d1)"
    if "\<And>k. cnt k = ledgerCount REFUND k d + (if moved \<and> k = p_reference p then 1 else 0)"
      and "moved \<Longrightarrow> sr" for cnt moved
  proof -
    have "once_ok p_id p_reference p_refundedAt cnt (updateWhere (\<lambda>x. p_id x = p_id p) ?f (payouts d))"
    proof (rule once_step [where moved = moved and cnt = "\<lambda>k. ledgerCount REFUND k d"])
      show "once_ok p_id p_reference p_refundedAt (\<lambda>k. ledgerCount REFUND k d) (payouts d)"
        using inv by (simp add: status_inv_def payouts_once_def)
      show "moved \<Longrightarrow> p_refundedAt p = None \<and> p_refundedAt (?f p) \<noteq> None"
        using that(2) sr by (simp add: payoutRefunds_def payoutPatch_def)
    qed (fact p f that(1))+
    then show ?thesis by (simp add: d1_def)
  qed
  have col: "collections_once d1" and dep: "deposits_once d1"
    using inv by (simp_all add: status_inv_def collections_once_def deposits_once_def d1_def)
  show "status_inv d1"
    using ok1 col dep once [of "\<lambda>k. ledgerCount REFUND k d1" False]
    by (simp add: status_inv_def payouts_once_def d1_def)
  assume "sr"
  let ?m = "refundPayout e p d1"
  have keyed: "wallets_keyed d1" using ok1 by (rule ledger_keyed)
  have "ledger_ok (snd ?m)"
    using ok1 unfolding refundPayout_def refundMove_def
    by (intro walletMove_credit_ledger_ok) (simp_all add: isDebitMove_def DEBIT_TYPES_def)
  moreover have "ledgerCount x k (snd ?m) = ledgerCount x k d
      + (if \<not> isl (fst ?m) \<and> x = REFUND \<and> k = p_reference p then 1 else 0)" for x k
    using walletMove_count [OF keyed] by (auto simp: refundPayout_def refundMove_def d1_def)
  moreover have "collections (snd ?m) = collections d1" "deposits (snd ?m) = deposits d1"
      "payouts (snd ?m) = payouts d1"
    unfolding refundPayout_def refundMove_def by (rule walletMove_tables [OF keyed])+
  ultimately show "status_inv (snd ?m)"
    using col dep \<open>sr\<close> once [of "\<lambda>k. ledgerCount REFUND k (snd ?m)" "\<not> isl (fst ?m)"]
    by (simp add: status_inv_def once_defs d1_def)
qed

lemma status_inv_fee_configs: "status_inv d \<Longrightarrow> status_inv (d\<lparr>fee_configs := fc\<rparr>)"
  by (erule status_inv_frame) simp_all

lemma keeps_applyCollectionUpdate [keeps_rules]: "keeps status_inv (applyCollectionUpdate e ref rc)"
proof (rule keepsI)
  fix d
  assume inv: "status_inv d"
  show "status_inv (snd (applyCollectionUpdate e ref rc d))"
  proof (cases "findCollection ref d")
    case None
    then show ?thesis using inv by (simp add: collection_unknown)
  next
    case (Some c)
    note c = findCollection_in [OF Some, THEN conjunct1]
    show ?thesis
    proof (cases "collectionSkips (mapProviderStatus (pr_status rc)) c")
      case True
      then show ?thesis using inv Some by (simp add: collection_skip)
    next
      case False
      from Some False refl refl show ?thesis
      proof (cases rule: collection_cases [where e = e])
        case early
        then show ?thesis using inv by (simp add: status_inv_fee_configs)
      next
        case moveFailed
        then show ?thesis using status_inv_collection(2) [OF inv c refl refl] by simp
      next
        case finished
        then show ?thesis
          using status_inv_collection [OF inv c refl refl] moveStage_Inr [OF finished(3)]
            status_inv_events [OF finished(4)]
          by (metis snd_conv)
      qed
    qed
  qed
qed

lemma keeps_applyDepositUpdate [keeps_rules]: "keeps status_inv (applyDepositUpdate e ref rc)"
proof (rule keepsI)
  fix d
  assume inv: "status_inv d"
  show "status_inv (snd (applyDepositUpdate e ref rc d))"
  proof (cases "findDeposit ref d")
    case None
    then show ?thesis using inv by (simp add: deposit_unknown)
  next
    case (Some r)
    note r = findDeposit_in [OF Some, THEN conjunct1]
    show ?thesis
    proof (cases "depositSkips (mapProviderStatus (pr_status rc)) r")
      case True
      then show ?thesis using inv Some by (simp add: deposit_skip)
    next
      case False
      from Some False refl refl show ?thesis
      proof (cases rule: deposit_cases [where e = e])
        case early
        then show ?thesis using inv by simp
      next
        case moveFailed
        then show ?thesis using status_inv_deposit(2) [OF inv r refl moveFailed(3)] by (metis snd_conv)
      next
        case finished
        then show ?thesis
          using status_inv_deposit [OF inv r refl finished(2)] moveStage_Inr [OF finished(3)]
            status_inv_events [OF finished(4)]
          by (metis snd_conv)
      qed
    qed
  qed
qed

lemma keeps_applyPayoutUpdate [keeps_rules]: "keeps status_inv (applyPayoutUpdate e ref rc)"
proof (rule keepsI)
  fix d
  assume inv: "status_inv d"
  show "status_inv (snd (applyPayoutUpdate e ref rc d))"
  proof (cases "findPayout ref d")
    case None
    then show ?thesis using inv by (simp add: payout_unknown)
  next
    case (Some p)
    note p = findPayout_in [OF Some, THEN conjunct1]
    show ?thesis
    proof (cases "payoutSkips (mapProviderStatus (pr_status rc)) p")
      case True
      then show ?thesis using inv Some by (simp add: payout_skip)
    next
      case False
      from Some False refl refl show ?thesis
      proof (cases rule: payout_cases [where e = e])
        case early
        then show ?thesis using inv by simp
      next
        case refundFailed
        then show ?thesis using status_inv_payout(2) [OF inv p refl refundFailed(2)] by (metis snd_conv)
      next
        case finished
        then show ?thesis
          using status_inv_payout [OF inv p refl finished(1)] moveStage_Inr [OF finished(2)]
            status_inv_followUps [OF finished(3)]
          by (metis snd_conv)
      qed
    qed
  qed
qed


section \<open>Properties\<close>

datatype rail = CollectionRail | DepositRail | PayoutRail

text \<open>One observation of a provider status, by webhook or by polling.\<close>

definition applyEvent :: "rail \<Rightarrow> env \<Rightarrow> string \<Rightarrow> provider_record \<Rightarrow> (db, applied) action" where
  "applyEvent k e ref rc =
     (case k of CollectionRail \<Rightarrow> applyCollectionUpdate e ref rc
              | DepositRail \<Rightarrow> applyDepositUpdate e ref rc
              | PayoutRail \<Rightarrow> applyPayoutUpdate e ref rc)"

text \<open>Observations one after the other; both callers swallow an error and go on.\<close>

fun applyEvents :: "(rail \<times> env \<times> string \<times> provider_record) list \<Rightarrow> db \<Rightarrow> db" where
  "applyEvents [] d = d"
| "applyEvents ((k, e, ref, rc) # evs) d = applyEvents evs (snd (applyEvent k e ref rc d))"

lemma status_inv_applyEvents: "status_inv d \<Longrightarrow> status_inv (applyEvents evs d)"
proof (induction evs d rule: applyEvents.induct)
  case (2 k e ref rc evs d)
  have "keeps status_inv (applyEvent k e ref rc)"
    unfolding applyEvent_def by (cases k) (auto intro: keeps_rules)
  then show ?case using 2 by (simp add: keeps_def)
qed simp

lemma collectionFee_run:
  assumes "fees_ok d" and "accountExists acct d"
  obtains c where "fee_config_ok c" and "fst (getConfig acct d) = Inr c"
    and "collectionFee True acct (Fin v) d
           = (Inr (Some (tierFee FeeCOLLECTION c v)), snd (getConfig acct d))"
proof -
  obtain c d1 where c: "getConfig acct d = (Inr c, d1)" and f: "findFeeConfig acct d1 = Some c"
    by (rule getConfig_found [OF assms(2)]) (rule that)
  have "fee_config_ok c" using getConfig_result_ok [OF assms(1) c] .
  then show thesis
    using that c by (simp add: collectionFee_def computeFee_def andThen_def ret_run)
qed

text \<open>C11: whatever webhooks and polls report, in any order, any number of times and with any errors
  in between, each collection credits a wallet at most once, each deposit at most once, each payout
  is refunded at most once, and every wallet keeps a consistent, never negative ledger.\<close>

theorem status_movements_once:
  assumes "status_inv d"
  shows "let d' = applyEvents evs d in
    (\<forall>c \<in> set (collections d'). ledgerCount COLLECTION_CREDIT (c_reference c) d' \<le> 1) \<and>
    (\<forall>r \<in> set (deposits d'). ledgerCount DEPOSIT (d_reference r) d' \<le> 1) \<and>
    (\<forall>p \<in> set (payouts d'). ledgerCount REFUND (p_reference p) d' \<le> 1) \<and>
    ledger_ok d'"
proof -
  have "status_inv (applyEvents evs d)" using assms by (rule status_inv_applyEvents)
  then show ?thesis
    unfolding Let_def status_inv_def once_defs once_ok_def
    by (auto split: if_splits)
qed


definition sample_record :: "string \<Rightarrow> provider_record" where
  "sample_record s = \<lparr>pr_status = Some s, pr_id = None, pr_paymentReference = None,
     pr_collectedAmount = None, pr_collectedCurrency = None, pr_message = None, pr_customer = None,
     pr_fee = None\<rparr>"

definition sample_collection :: collection_row where
  "sample_collection = \<lparr>c_id = 10, c_account = 0, c_reference = ''OUT1'', c_clientReference = None,
     c_channel = MOBILE_MONEY, c_provider = ''clickpesa'', c_amount = 200, c_currency = ''TZS'',
     c_phoneNumber = ''255712345678'', c_status = TxPENDING, c_providerTxId = None,
     c_providerStatus = None, c_paymentReference = None, c_collectedAmount = None,
     c_collectedCurrency = None, c_feeAmount = None, c_feeBps = None, c_message = None,
     c_failureReason = None, c_customer = None, c_walletCreditedAt = None, c_createdAt = 0,
     c_updatedAt = 0\<rparr>"

definition sample_payout :: payout_row where
  "sample_payout = \<lparr>p_id = 11, p_account = 0, p_batchId = None, p_channel = MOBILE_MONEY,
     p_reference = ''PAY1'', p_clientReference = None, p_sourceWallet = WCOLLECTION,
     p_payoutKind = CUSTOMER, p_amount = 40, p_currency = ''TZS'', p_phoneNumber = None,
     p_accountNumber = None, p_accountName = None, p_bic = None, p_transferType = None,
     p_status = TxPROCESSING, p_providerTxId = None, p_providerStatus = None, p_fee = None,
     p_feeAmount = Some 2, p_feeBps = Some 500, p_message = None, p_walletDebitedAt = Some 0,
     p_refundedAt = None, p_createdAt = 0, p_updatedAt = 0\<rparr>"

definition sample_status_db :: db where
  "sample_status_db = sample_db\<lparr>collections := [sample_collection], payouts := [sample_payout],
     next_id := 12\<rparr>"

lemma sample_status_ok: "status_inv sample_status_db"
  by (simp add: status_inv_def once_defs once_ok_def sample_status_db_def sample_collection_def
        sample_payout_def ledgerCount_def countWhere_def sample_db_def empty_db_def ledger_ok_def
        wallets_keyed_def wallet_ledger_ok_def ledgerOf_def lastAfter_def is_cents_def)

lemma sample_fees_ok: "fees_ok sample_status_db"
  by (simp add: fees_ok_def sample_status_db_def sample_db_def empty_db_def)

definition sample_events :: "(rail \<times> env \<times> string \<times> provider_record) list" where
  "sample_events = [(CollectionRail, default_env, ''OUT1'', sample_record ''SUCCESS''),
     (CollectionRail, default_env, ''OUT1'', sample_record ''FAILED''),
     (CollectionRail, default_env, ''OUT1'', sample_record ''SUCCESS'')]"

theorem status_movements_once_witness:
  "ledgerCount COLLECTION_CREDIT ''OUT1'' (applyEvents sample_events sample_status_db) \<le> 1 \<and>
   ledger_ok (applyEvents sample_events sample_status_db)"
proof -
  have "map c_reference (collections (applyEvents sample_events sample_status_db)) = [''OUT1'']"
    by code_simp
  then obtain c where "c \<in> set (collections (applyEvents sample_events sample_status_db))"
    and "c_reference c = ''OUT1''"
    by (auto simp: map_eq_Cons_conv)
  with status_movements_once [OF sample_status_ok, of sample_events] show ?thesis
    unfolding Let_def by (metis (no_types))
qed

lemma walletMove_zero:
  "walletMove e a ty x 0 ref aty actor ig d = (Inl (Forbidden VALIDATION_FAILED), d)"
  by (simp add: walletMove_def move_def raise_run)

text \<open>A credit of a net amount that may be zero, in one statement.\<close>

lemma credit_net:
  assumes ok: "ledger_ok d" and b: "balanceOf a ty d = Some b" and v: "0 \<le> v" "is_cents v"
    and x: "\<not> isDebitMove x v"
  obtains (none) "v = 0" "walletMove e a ty x v ref aty actor True d = (Inl (Forbidden VALIDATION_FAILED), d)"
  | (credited) row d' where "0 < v" "walletMove e a ty x v ref aty actor True d = (Inr row, d')"
      "ledger_ok d'" "balanceOf a ty d' = Some (b + v)"
      "\<forall>a' ty'. (a', ty') \<noteq> (a, ty) \<longrightarrow> balanceOf a' ty' d' = balanceOf a' ty' d"
proof (cases "v = 0")
  case True
  then show thesis using none by (simp add: walletMove_zero)
next
  case False
  then have p: "0 < v" using v by simp
  obtain row d' where run: "walletMove e a ty x v ref aty actor True d = (Inr row, d')"
    using walletMove_credit_total [OF ledger_keyed [OF ok] b p x] by blast
  show thesis
    using walletMove_balance [OF ok p v(2) run] b x by (intro credited [OF p run]) auto
qed

lemma updateWhere_mem: "x \<in> set rows \<Longrightarrow> p x \<Longrightarrow> f x \<in> set (updateWhere p f rows)"
  by (auto simp: updateWhere_def)




lemma sample_found:
  "findCollection ''OUT1'' sample_status_db = Some sample_collection"
  "findPayout ''PAY1'' sample_status_db = Some sample_payout"
  by (simp_all add: findCollection_def findPayout_def sample_status_db_def sample_collection_def
        sample_payout_def)


lemma payout_refund_run:
  assumes "status_inv d" and "findPayout ref d = Some p"
    and "p_walletDebitedAt p \<noteq> None" and "p_refundedAt p = None"
    and "mapProviderStatus (pr_status rc) = nx" and "nx \<in> set TERMINAL_FAIL" and "p_status p \<noteq> nx"
    and "threshold (pr_fee rc) \<noteq> None" and "0 < payoutDebit p" and "is_cents (payoutDebit p)"
    and "balanceOf (p_account p) (p_sourceWallet p) d = Some b"
    and "applyPayoutUpdate e ref rc d = (res, d')"
  shows "balanceOf (p_account p) (p_sourceWallet p) d' = Some (b + payoutDebit p) \<and>
    (\<forall>k. k \<noteq> (p_account p, p_sourceWallet p) \<longrightarrow> balanceOf (fst k) (snd k) d' = balanceOf (fst k) (snd k) d) \<and>
    ledgerCount REFUND ref d' = 1 \<and> status_inv d' \<and>
    applyPayoutUpdate e' ref rc d' = (Inr (True, Some nx), d') \<and>
    (\<exists>p'. findPayout ref d' = Some p' \<and> p_id p' = p_id p \<and> p_status p' = nx \<and> p_refundedAt p' = Some (now e))"
proof -
  let ?k = "(p_account p, p_sourceWallet p)"
  note p = findPayout_in [OF assms(2)]
  have sr: "True = payoutRefunds nx p" and go: "\<not> payoutSkips nx p"
    using assms(3,4,6,7) by (simp_all add: payoutRefunds_def payoutSkips_def)
  have ok: "ledger_ok d" using assms(1) by (simp add: status_inv_def)
  have cnt0: "ledgerCount REFUND ref d = 0"
    using assms(1,4) p by (fastforce simp: status_inv_def payouts_once_def once_ok_def)
  have inv: "status_inv d'"
    using keepsD [OF keeps_applyPayoutUpdate assms(1), of e ref rc] assms(12) by simp
  have "\<exists>fee d1 d2 row. d1 = updatePayout (p_id p) (payoutPatch e rc nx True fee) d \<and>
      refundPayout e p d1 = (Inr row, d2) \<and> followUps d2 d'"
    using assms(2) go assms(5) [symmetric] sr
  proof (cases rule: payout_cases [where e = e])
    case early
    then show ?thesis using assms(8) by simp
  next
    case (refundFailed fee d1 d2 err)
    have "ledger_ok d1" using ok refundFailed(2) by simp
    moreover have "balanceOf (fst ?k) (snd ?k) d1 = Some b"
      using assms(11) refundFailed(2) balanceOf_cong [of d1 d] by (simp add: updatePayout_def)
    ultimately obtain r s where "refundMove e (Some (p_reference p)) ActorSYSTEM None ?k (payoutDebit p) d1
        = (Inr r, s)"
      using payout_hold.release_total [OF _ assms(9,10)] by blast
    then show ?thesis using refundFailed(3) assms(10) by (simp add: refundPayout_def)
  next
    case (finished fee d1 d2 d'')
    then show ?thesis using assms(12) moveStage_Inr [OF finished(2)] by auto
  qed
  then obtain fee d1 d2 row where d1: "d1 = updatePayout (p_id p) (payoutPatch e rc nx True fee) d"
    and mv: "refundPayout e p d1 = (Inr row, d2)" and fu: "followUps d2 d'" by blast
  have ok1: "ledger_ok d1" using ok d1 by simp
  have b1: "balanceOf a ty d1 = balanceOf a ty d" for a ty
    by (rule balanceOf_cong) (simp add: d1 updatePayout_def)
  have mv': "refundMove e (Some ref) ActorSYSTEM None ?k (payoutDebit p) d1 = (Inr row, d2)"
    using mv assms(10) p by (simp add: refundPayout_def)
  note rel = payout_hold.release_ok [OF ok1 assms(9,10) mv']
  have cnt: "ledgerCount REFUND ref d2 = 1"
    using walletMove_count [OF ledger_keyed [OF ok1], of REFUND ref e "fst ?k" "snd ?k" REFUND
        "payoutDebit p" "Some ref" ActorSYSTEM None True] mv' cnt0
    by (simp add: refundMove_def d1)
  have "payouts d2 = payouts d1"
    using walletMove_tables [OF ledger_keyed [OF ok1]] mv' unfolding refundMove_def by (metis snd_conv)
  then have found: "findPayout ref d' = Some (payoutPatch e rc nx True fee p)"
    using followUps_tables [OF fu] assms(2)
    by (simp add: findPayout_def d1 find_updateWhere payoutPatch_def)
  have "\<exists>p'. findPayout ref d' = Some p' \<and> p_id p' = p_id p \<and> p_status p' = nx \<and> p_refundedAt p' = Some (now e)"
    using found by (simp add: payoutPatch_def)
  moreover have "applyPayoutUpdate e' ref rc d' = (Inr (True, Some nx), d')"
    using found assms(5,6) by (intro payout_skip [of ref d' _ rc e', unfolded assms(5)])
      (auto simp: payoutSkips_def payoutPatch_def TERMINAL_FAIL_def FINAL_STATUSES_def)
  moreover have "balanceOf a ty d' = balanceOf a ty d2" for a ty by (rule followUps_balance [OF fu])
  moreover have "ledgerCount REFUND ref d' = ledgerCount REFUND ref d2"
    using followUps_tables [OF fu] by (simp add: ledgerCount_def)
  ultimately show ?thesis using rel cnt inv b1 assms(11) by auto
qed

text \<open>C13: a payout that fails, is reversed or is refunded after its wallet was debited gets its full
  debit, the amount and the platform fee, back into the wallet it came from, exactly once and
  whatever the freeze state; no other balance moves, and the same report repeated changes nothing.\<close>

theorem payout_refund_exact:
  assumes "status_inv d" and "findPayout ref d = Some p"
    and "p_walletDebitedAt p \<noteq> None" and "p_refundedAt p = None"
    and "mapProviderStatus (pr_status rc) = nx" and "nx \<in> set TERMINAL_FAIL" and "p_status p \<noteq> nx"
    and "threshold (pr_fee rc) \<noteq> None" and "0 < payoutDebit p" and "is_cents (payoutDebit p)"
    and "balanceOf (p_account p) (p_sourceWallet p) d = Some b"
    and "applyPayoutUpdate e ref rc d = (res, d')"
  shows "balanceOf (p_account p) (p_sourceWallet p) d' = Some (b + payoutDebit p) \<and>
    (\<forall>k. k \<noteq> (p_account p, p_sourceWallet p) \<longrightarrow> balanceOf (fst k) (snd k) d' = balanceOf (fst k) (snd k) d) \<and>
    ledgerCount REFUND ref d' = 1 \<and> status_inv d' \<and>
    applyPayoutUpdate e' ref rc d' = (Inr (True, Some nx), d')"
  using payout_refund_run [OF assms] by blast

theorem payout_refund_exact_witness:
  "balanceOf 0 WCOLLECTION (snd (applyPayoutUpdate default_env ''PAY1'' (sample_record ''FAILED'')
     sample_status_db)) = Some 142 \<and>
   ledgerCount REFUND ''PAY1'' (snd (applyPayoutUpdate default_env ''PAY1'' (sample_record ''FAILED'')
     sample_status_db)) = 1"
proof -
  have ms: "mapProviderStatus (pr_status (sample_record ''FAILED'')) = TxFAILED" by code_simp
  have b: "balanceOf (p_account sample_payout) (p_sourceWallet sample_payout) sample_status_db = Some 100"
    by code_simp
  have p: "p_walletDebitedAt sample_payout \<noteq> None" "p_refundedAt sample_payout = None"
      "TxFAILED \<in> set TERMINAL_FAIL" "p_status sample_payout \<noteq> TxFAILED"
      "threshold (pr_fee (sample_record ''FAILED'')) \<noteq> None"
      "p_account sample_payout = 0" "p_sourceWallet sample_payout = WCOLLECTION" "payoutDebit sample_payout = 42"
    by (simp_all add: sample_payout_def sample_record_def TERMINAL_FAIL_def payoutDebit_def)
  show ?thesis
    using payout_refund_exact [OF sample_status_ok sample_found(2) p(1,2) ms p(3-5) _ _ b
        surjective_pairing [of "applyPayoutUpdate default_env ''PAY1'' (sample_record ''FAILED'')
          sample_status_db"], of default_env]
    by (simp add: p(6-8) is_cents_def)
qed

lemma countWhere_split:
  "(\<And>x. x \<in> set xs \<Longrightarrow> \<not> (p x \<and> q x)) \<Longrightarrow>
     countWhere p xs + countWhere q xs = countWhere (\<lambda>x. p x \<or> q x) xs"
  by (induction xs) (auto simp: countWhere_def)

lemma countWhere_all: "countWhere p xs = length xs \<longleftrightarrow> (\<forall>x \<in> set xs. p x)"
  by (induction xs) (auto simp: countWhere_def, metis length_filter_le Suc_n_not_le_n)

lemma countWhere_zero: "countWhere p xs = 0 \<longleftrightarrow> (\<forall>x \<in> set xs. \<not> p x)"
  by (auto simp: countWhere_def filter_empty_conv)

lemma batchOutcome_iff:
  assumes "s + f \<le> n"
  shows "batchOutcome s f n = BatchCOMPLETED \<longleftrightarrow> s = n"
    and "batchOutcome s f n = BatchFAILED \<longleftrightarrow> n \<noteq> 0 \<and> f = n"
    and "batchOutcome s f n = BatchPROCESSING \<longleftrightarrow> s + f \<noteq> n"
  using assms by (auto simp: batchOutcome_def)



definition sample_batch_db :: db where
  "sample_batch_db = sample_status_db\<lparr>batches :=
     [\<lparr>b_id = 20, b_account = 0, b_name = ''Pay'', b_reference = ''B1'', b_status = BatchPROCESSING,
       b_totalCount = 2, b_totalAmount = 80, b_successCount = 0, b_failedCount = 0, b_createdAt = 0\<rparr>],
     payouts := [sample_payout\<lparr>p_batchId := Some 20, p_status := TxSUCCESS\<rparr>,
       sample_payout\<lparr>p_id := 12, p_reference := ''PAY2'', p_batchId := Some 20, p_status := TxEXPIRED\<rparr>],
     next_id := 21\<rparr>"


text \<open>An EXPIRED report is not treated as a failure: whatever the payout, it moves no money,
  leaves the refund mark as it was and the payout's batch unfinished, so the hold stays taken.\<close>

theorem payout_expired_keeps_hold:
  assumes "findPayout ref d = Some p" and "mapProviderStatus (pr_status rc) = TxEXPIRED"
    and "applyPayoutUpdate e ref rc d = (Inr r, d')"
  shows "wallets d' = wallets d \<and> wallet_txs d' = wallet_txs d \<and>
    (\<exists>p'. findPayout ref d' = Some p' \<and> p_status p' = TxEXPIRED \<and> p_refundedAt p' = p_refundedAt p \<and>
       p_status p' \<notin> set TERMINAL_FAIL)"
proof -
  have sr: "False = payoutRefunds TxEXPIRED p" and go: "\<not> payoutSkips TxEXPIRED p"
    by (auto simp: payoutRefunds_def payoutSkips_def TERMINAL_FAIL_def FINAL_STATUSES_def)
  have "\<exists>fee. wallets d' = wallets d \<and> wallet_txs d' = wallet_txs d \<and>
      payouts d' = payouts (updatePayout (p_id p) (payoutPatch e rc TxEXPIRED False fee) d)"
    using assms(1) go assms(2) [symmetric] sr
  proof (cases rule: payout_cases [where e = e])
    case (finished fee d1 d2 d'')
    then show ?thesis using assms(3) followUps_tables [OF finished(3)]
      by (auto simp: updatePayout_def)
  qed (use assms(3) in auto)
  then obtain fee where w: "wallets d' = wallets d" "wallet_txs d' = wallet_txs d"
    and "payouts d' = payouts (updatePayout (p_id p) (payoutPatch e rc TxEXPIRED False fee) d)" by blast
  then have "findPayout ref d' = Some (payoutPatch e rc TxEXPIRED False fee p)"
    using assms(1) by (simp add: findPayout_def find_updateWhere payoutPatch_def)
  then show ?thesis using w by (simp add: payoutPatch_def TERMINAL_FAIL_def)
qed

theorem payout_expired_keeps_hold_witness:
  "\<exists>r d'. applyPayoutUpdate default_env ''PAY1'' (sample_record ''TIMEOUT'') sample_status_db = (Inr r, d') \<and>
     wallets d' = wallets sample_status_db"
proof -
  have "\<not> isl (fst (applyPayoutUpdate default_env ''PAY1'' (sample_record ''TIMEOUT'') sample_status_db))"
    by code_simp
  then obtain r d' where run: "applyPayoutUpdate default_env ''PAY1'' (sample_record ''TIMEOUT'')
      sample_status_db = (Inr r, d')"
    by (metis isl_def surjective_pairing sum.collapse(2))
  have "mapProviderStatus (pr_status (sample_record ''TIMEOUT'')) = TxEXPIRED" by code_simp
  from payout_expired_keeps_hold [OF sample_found(2) this run] run show ?thesis by blast
qed

end
