(* ===== verification/Phone.thy ===== *)
theory Phone
  imports Schema Strings
begin

text \<open>
  common/utils/phone.util.ts: Tanzanian mobile numbers in the canonical form \<open>255XXXXXXXXX\<close>,
  bank identifier codes, and the operator of a number by its prefix.
\<close>

section \<open>Numbers\<close>

text \<open>\<open>/^255[67]\\d{8}$/\<close>.\<close>

definition canonicalPhone :: "string \<Rightarrow> bool" where
  "canonicalPhone s \<longleftrightarrow>
     length s = 12 \<and> take 3 s = ''255'' \<and> s ! 3 \<in> {CHR ''6'', CHR ''7''} \<and> list_all isDigit s"

definition withCountryCode :: "string \<Rightarrow> string" where
  "withCountryCode digits =
     (if startsWith digits ''255'' then digits
      else if startsWith digits ''0'' then ''255'' @ drop 1 digits
      else if length digits = 9 then ''255'' @ digits
      else digits)"

definition normalizePhoneNumber :: "string \<Rightarrow> string option" where
  "normalizePhoneNumber raw =
     (if raw = [] then None
      else let digits = withCountryCode (digitsOnly raw)
           in if canonicalPhone digits then Some digits else None)"

definition isValidPhoneNumber :: "string \<Rightarrow> bool" where
  "isValidPhoneNumber raw \<longleftrightarrow> normalizePhoneNumber raw \<noteq> None"

text \<open>\<open>/^[A-Z]{6}[A-Z0-9]{2}([A-Z0-9]{3})?$/i\<close> of the trimmed string.\<close>

definition isValidBic :: "string \<Rightarrow> bool" where
  "isValidBic raw \<longleftrightarrow>
     (let s = toUpperCase (trim raw)
      in (length s = 8 \<or> length s = 11) \<and> list_all isUpperAZ (take 6 s) \<and>
         list_all (\<lambda>c. isUpperAZ c \<or> isDigit c) (drop 6 s))"

section \<open>Operators\<close>

datatype mobile_operator = Operator mobile_method | UNKNOWN

definition detectMobileOperator :: "string \<Rightarrow> mobile_operator" where
  "detectMobileOperator s =
     (let p = digitsOnly s in
      if \<not> startsWith p ''255'' \<or> length p < 12 then UNKNOWN
      else let prefix = take 2 (drop 3 p) in
        if prefix \<in> set [''74'', ''75'', ''76''] then Operator VODACOM
        else if prefix \<in> set [''78'', ''68''] then Operator AIRTEL
        else if prefix \<in> set [''61'', ''65'', ''66'', ''67'', ''71'', ''73''] then Operator TIGO
        else if prefix = ''62'' then Operator HALOPESA
        else UNKNOWN)"

section \<open>Lemmas\<close>

lemma normalize_Some: "normalizePhoneNumber raw = Some p \<Longrightarrow> canonicalPhone p"
  by (simp add: normalizePhoneNumber_def Let_def split: if_splits)

lemma canonical_digits: "canonicalPhone p \<Longrightarrow> digitsOnly p = p"
  by (rule digitsOnly_id) (simp add: canonicalPhone_def list_all_iff)

lemma canonical_shape:
  assumes "canonicalPhone p"
  obtains q where "p = ''255'' @ q" and "length q = 9" and "hd q \<in> {CHR ''6'', CHR ''7''}"
    and "list_all isDigit q"
proof -
  have p: "p = ''255'' @ drop 3 p"
    using assms append_take_drop_id [of 3 p] by (simp only: canonicalPhone_def)
  moreover have "length (drop 3 p) = 9" using assms by (simp add: canonicalPhone_def)
  moreover have "hd (drop 3 p) \<in> {CHR ''6'', CHR ''7''}"
    using assms by (simp add: canonicalPhone_def hd_drop_conv_nth)
  moreover have "list_all isDigit (drop 3 p)"
    using assms by (auto simp: canonicalPhone_def list_all_iff dest: in_set_dropD)
  ultimately show ?thesis by (rule that)
qed

lemma canonical_prefix: "canonicalPhone p \<Longrightarrow> startsWith p ''255''"
  by (simp add: canonicalPhone_def startsWith_def numeral_3_eq_3)

lemma withCountryCode_canonical: "canonicalPhone p \<Longrightarrow> withCountryCode p = p"
  by (simp add: withCountryCode_def canonical_prefix)

lemma withCountryCode_Nil: "\<not> canonicalPhone (withCountryCode [])"
  by code_simp

lemma normalize_digits:
  assumes "withCountryCode (digitsOnly raw) = p" and "canonicalPhone p"
  shows "normalizePhoneNumber raw = Some p"
proof -
  have "raw \<noteq> []"
  proof
    assume "raw = []"
    then have "p = withCountryCode []" using assms(1) by (simp only: digitsOnly_def filter.simps)
    then show False using assms(2) withCountryCode_Nil by blast
  qed
  then show ?thesis using assms by (simp add: normalizePhoneNumber_def)
qed

lemma normalize_SomeD:
  "normalizePhoneNumber raw = Some p \<Longrightarrow> withCountryCode (digitsOnly raw) = p \<and> canonicalPhone p"
  by (auto simp: normalizePhoneNumber_def Let_def split: if_splits)

section \<open>Properties\<close>

text \<open>A number is normalised to twelve digits that start with 2556 or 2557, and the result does
  not depend on how the number was written: its canonical form, the form with a plus sign, the
  national form with a leading zero and the bare nine digits all have the same canonical form,
  whatever separators stand between the digits.\<close>

theorem normalizePhoneNumber_canonical:
  assumes "normalizePhoneNumber raw = Some p"
  shows "length p = 12 \<and> take 3 p = ''255'' \<and> p ! 3 \<in> {CHR ''6'', CHR ''7''} \<and> list_all isDigit p \<and>
    normalizePhoneNumber p = Some p \<and>
    normalizePhoneNumber (CHR ''+'' # p) = Some p \<and>
    normalizePhoneNumber (CHR ''0'' # drop 3 p) = Some p \<and>
    normalizePhoneNumber (drop 3 p) = Some p \<and>
    (\<forall>s. digitsOnly s = digitsOnly raw \<longrightarrow> normalizePhoneNumber s = Some p)"
proof -
  have can: "canonicalPhone p" using assms by (rule normalize_Some)
  obtain q where p: "p = ''255'' @ q" and len: "length q = 9"
    and hd: "hd q \<in> {CHR ''6'', CHR ''7''}" and dig: "list_all isDigit q"
    using can by (rule canonical_shape)
  have q: "digitsOnly q = q" using dig by (simp add: digitsOnly_id list_all_iff)
  have q0: "q \<noteq> []" using len by auto
  note same = withCountryCode_canonical [OF can]
  have 1: "normalizePhoneNumber p = Some p"
    using same canonical_digits [OF can] can by (intro normalize_digits) simp_all
  have 2: "normalizePhoneNumber (CHR ''+'' # p) = Some p"
    using same canonical_digits [OF can] can
    by (intro normalize_digits) (simp_all add: digitsOnly_def isDigit_def)
  have 3: "normalizePhoneNumber (CHR ''0'' # q) = Some p"
  proof (rule normalize_digits [OF _ can])
    have "digitsOnly (CHR ''0'' # q) = CHR ''0'' # q" using q by (simp add: digitsOnly_def isDigit_def)
    then show "withCountryCode (digitsOnly (CHR ''0'' # q)) = p"
      by (simp add: withCountryCode_def startsWith_def p)
  qed
  have 4: "normalizePhoneNumber q = Some p"
  proof (rule normalize_digits [OF _ can])
    have "\<not> startsWith q ''255''" and "\<not> startsWith q ''0''"
      using hd q0 by (auto simp: startsWith_append)
    then show "withCountryCode (digitsOnly q) = p"
      by (simp add: withCountryCode_def q len p)
  qed
  have 5: "normalizePhoneNumber s = Some p" if "digitsOnly s = digitsOnly raw" for s
    using normalize_SomeD [OF assms] that by (intro normalize_digits) simp_all
  have "drop 3 p = q" by (simp add: p)
  then show ?thesis using can 1 2 3 4 5 unfolding canonicalPhone_def by simp
qed

theorem normalizePhoneNumber_canonical_witness:
  "normalizePhoneNumber ''+255 712-345-678'' = Some ''255712345678'' \<and>
   normalizePhoneNumber ''0712345678'' = Some ''255712345678''"
proof -
  have n: "normalizePhoneNumber ''+255 712-345-678'' = Some ''255712345678''" by code_simp
  from normalizePhoneNumber_canonical [OF n] show ?thesis using n by simp
qed

end
