(* ===== verification/Providers.thy ===== *)
theory Providers
  imports TxnStatus Phone
begin

text \<open>
  providers/provider.types.ts and providers/mock.providers.ts: what the services see of the payment
  and SMS rails, and the in-process mocks used in development and tests. A service gets a rail as
  a record of functions; the answers of the real rails (ClickPesa, Beem) are whatever these functions
  return. An amount a caller sends as text is a \<open>decimal\<close>.
\<close>

section \<open>Interfaces\<close>

record 'a provider_result =
  rs_ok :: bool
  rs_httpStatus :: "nat option"
  rs_data :: "'a option"
  rs_error :: "string option"

record ussd_request =
  uq_amount :: decimal
  uq_currency :: string
  uq_orderReference :: string
  uq_phoneNumber :: string
  uq_fetchSenderDetails :: bool

record ussd_method =
  um_name :: string
  um_status :: string
  um_fee :: rat

record ussd_sender =
  us_accountName :: string
  us_accountNumber :: string
  us_accountProvider :: string

record ussd_preview =
  up_activeMethods :: "ussd_method list"
  up_sender :: "ussd_sender option"

record ussd_initiated =
  ui_id :: "string option"
  ui_status :: "string option"
  ui_channel :: string
  ui_orderReference :: string
  ui_collectedAmount :: decimal
  ui_collectedCurrency :: string

record mno_request =
  mq_amount :: rat
  mq_currency :: string
  mq_orderReference :: string
  mq_phoneNumber :: string

record bank_request =
  bq_amount :: rat
  bq_accountNumber :: string
  bq_accountName :: string
  bq_orderReference :: string
  bq_bic :: string
  bq_accountCurrency :: string
  bq_currency :: string
  bq_transferType :: "string option"

record collection_provider =
  cp_name :: string
  cp_previewUssdPush :: "ussd_request \<Rightarrow> ussd_preview provider_result"
  cp_initiateUssdPush :: "ussd_request \<Rightarrow> ussd_initiated provider_result"
  cp_queryPayment :: "string \<Rightarrow> provider_record list provider_result"

record payout_provider =
  pp_name :: string
  pp_createMobileMoneyPayout :: "mno_request \<Rightarrow> provider_record provider_result"
  pp_createBankPayout :: "bank_request \<Rightarrow> provider_record provider_result"
  pp_queryPayout :: "string \<Rightarrow> provider_record list provider_result"
  pp_previewMnoPayout :: "(mno_request \<Rightarrow> ussd_preview provider_result) option"

record sms_send_request =
  sq_source_addr :: string
  sq_message :: string
  sq_encoding :: nat
  sq_recipients :: "(nat \<times> string) list"
  sq_schedule_time :: "int option"

record sms_send_response =
  sr_successful :: bool
  sr_request_id :: "string option"
  sr_code :: nat
  sr_message :: "string option"
  sr_valid :: "nat option"
  sr_invalid :: "nat option"

record delivery_report =
  dr_status :: "string option"

record sms_provider =
  sp_name :: string
  sp_send :: "sms_send_request \<Rightarrow> sms_send_response provider_result"
  sp_listSenderNames :: "(string \<times> string option) list provider_result"
  sp_deliveryReport :: "string \<Rightarrow> string \<Rightarrow> delivery_report provider_result"

section \<open>Mock rails\<close>

definition okResult :: "'a \<Rightarrow> 'a provider_result" where
  "okResult x = \<lparr>rs_ok = True, rs_httpStatus = None, rs_data = Some x, rs_error = None\<rparr>"

definition failResult :: "string \<Rightarrow> 'a provider_result" where
  "failResult msg = \<lparr>rs_ok = False, rs_httpStatus = None, rs_data = None, rs_error = Some msg\<rparr>"

record mock_collections =
  mc_default :: string
  mc_statuses :: "string \<rightharpoonup> string"
  mc_amounts :: "string \<rightharpoonup> decimal"

definition mockMethods :: "ussd_method list" where
  "mockMethods = map (\<lambda>n. \<lparr>um_name = n, um_status = ''AVAILABLE'', um_fee = 0\<rparr>)
     [''M-PESA'', ''MIXX BY YAS'', ''AIRTEL MONEY'', ''HALOPESA'']"

definition mockPreviewUssdPush :: "ussd_request \<Rightarrow> ussd_preview provider_result" where
  "mockPreviewUssdPush q = okResult \<lparr>up_activeMethods = mockMethods,
     up_sender = (if uq_fetchSenderDetails q
       then Some \<lparr>us_accountName = ''MOCK SENDER'', us_accountNumber = uq_phoneNumber q,
                  us_accountProvider = ''M-PESA''\<rparr> else None)\<rparr>"

text \<open>\<open>Date.now().toString().slice(-8)\<close>.\<close>

definition lastChars :: "nat \<Rightarrow> string \<Rightarrow> string" where
  "lastChars n s = drop (length s - n) s"

definition mockInitiateUssdPush ::
    "int \<Rightarrow> mock_collections \<Rightarrow> ussd_request \<Rightarrow> ussd_initiated provider_result \<times> mock_collections" where
  "mockInitiateUssdPush time m q =
     (okResult \<lparr>ui_id = Some (''MOCKPAY'' @ lastChars 8 (showNat (nat time))),
        ui_status = Some ''PROCESSING'', ui_channel = ''MOBILE MONEY'',
        ui_orderReference = uq_orderReference q, ui_collectedAmount = Fin 0,
        ui_collectedCurrency = uq_currency q\<rparr>,
      m\<lparr>mc_amounts := (mc_amounts m)(uq_orderReference q \<mapsto> uq_amount q)\<rparr>)"

definition mockCollectionStatus :: "mock_collections \<Rightarrow> string \<Rightarrow> string" where
  "mockCollectionStatus m ref = (case mc_statuses m ref of None \<Rightarrow> mc_default m | Some s \<Rightarrow> s)"

definition mockQueryPayment :: "mock_collections \<Rightarrow> string \<Rightarrow> provider_record list provider_result" where
  "mockQueryPayment m ref =
     (let status = mockCollectionStatus m ref in
      okResult [\<lparr>pr_status = Some status, pr_id = Some (''MOCKPAY'' @ lastChars 8 ref),
        pr_paymentReference = Some (''pr-'' @ toLowerCase ref),
        pr_collectedAmount = Some (if status = ''SUCCESS''
          then (case mc_amounts m ref of None \<Rightarrow> Fin 0 | Some a \<Rightarrow> a) else Fin 0),
        pr_collectedCurrency = Some ''TZS'',
        pr_message = Some (if status = ''SUCCESS'' then ''success''
          else if status = ''FAILED'' then ''Insufficient balance'' else ''pending''),
        pr_customer = Some ''Mock Customer'', pr_fee = None\<rparr>])"

record mock_payouts =
  mp_default :: string
  mp_statuses :: "string \<rightharpoonup> string"

text \<open>Destinations whose digits end in 0000 always fail.\<close>

definition doomed :: "string option \<Rightarrow> bool" where
  "doomed dest \<longleftrightarrow> (case dest of None \<Rightarrow> False
     | Some s \<Rightarrow> s \<noteq> [] \<and> lastChars 4 (digitsOnly s) = ''0000'')"

definition mockOutcome :: "mock_payouts \<Rightarrow> string \<Rightarrow> string option \<Rightarrow> string" where
  "mockOutcome m ref dest =
     (case mp_statuses m ref of Some s \<Rightarrow> s
      | None \<Rightarrow> if doomed dest then ''FAILED'' else mp_default m)"

definition mockPayoutRecord :: "int \<Rightarrow> string \<Rightarrow> string \<Rightarrow> string \<Rightarrow> provider_record" where
  "mockPayoutRecord time status accepted rejected =
     \<lparr>pr_status = Some status, pr_id = Some (''MOCKPO'' @ lastChars 8 (showNat (nat time))),
      pr_paymentReference = None, pr_collectedAmount = None, pr_collectedCurrency = None,
      pr_message = Some (if status = ''SUCCESS'' then accepted else rejected), pr_customer = None,
      pr_fee = Some (Fin 0)\<rparr>"

definition mockMobileMoneyPayout :: "int \<Rightarrow> mock_payouts \<Rightarrow> mno_request \<Rightarrow> provider_record provider_result" where
  "mockMobileMoneyPayout time m q = okResult (mockPayoutRecord time
     (mockOutcome m (mq_orderReference q) (Some (mq_phoneNumber q)))
     ''Payout accepted'' ''Payout rejected by mock'')"

definition mockBankPayout :: "int \<Rightarrow> mock_payouts \<Rightarrow> bank_request \<Rightarrow> provider_record provider_result" where
  "mockBankPayout time m q = okResult (mockPayoutRecord time
     (mockOutcome m (bq_orderReference q) (Some (bq_accountNumber q)))
     ''Bank payout accepted'' ''Bank payout rejected by mock'')"

definition mockPreviewMnoPayout :: "mno_request \<Rightarrow> ussd_preview provider_result" where
  "mockPreviewMnoPayout q = okResult \<lparr>up_activeMethods = mockMethods,
     up_sender = Some \<lparr>us_accountName = ''MOCK BENEFICIARY'', us_accountNumber = mq_phoneNumber q,
                       us_accountProvider = ''M-PESA''\<rparr>\<rparr>"

definition mockQueryPayout :: "mock_payouts \<Rightarrow> string \<Rightarrow> provider_record list provider_result" where
  "mockQueryPayout m ref =
     (let status = mockOutcome m ref None in
      okResult [\<lparr>pr_status = Some status, pr_id = Some (''MOCKPO'' @ lastChars 8 ref),
        pr_paymentReference = None, pr_collectedAmount = None, pr_collectedCurrency = None,
        pr_message = Some status, pr_customer = None, pr_fee = None\<rparr>])"

record mock_sms =
  ms_failNext :: bool
  ms_sendCounter :: nat

text \<open>\<open>/^255\d{9}$/\<close>.\<close>

definition smsNumberOk :: "string \<Rightarrow> bool" where
  "smsNumberOk s \<longleftrightarrow> length s = 12 \<and> startsWith s ''255'' \<and> list_all isDigit s"

definition mockSmsSend :: "mock_sms \<Rightarrow> sms_send_request \<Rightarrow> sms_send_response provider_result \<times> mock_sms" where
  "mockSmsSend m q =
     (if ms_failNext m then (failResult ''Mock SMS gateway unavailable'', m\<lparr>ms_failNext := False\<rparr>)
      else let invalid = countWhere (\<lambda>r. \<not> smsNumberOk (snd r)) (sq_recipients q);
               n = Suc (ms_sendCounter m)
           in (okResult \<lparr>sr_successful = (invalid < length (sq_recipients q)),
                 sr_request_id = Some (''mockreq'' @ showNat n), sr_code = 100,
                 sr_message = Some ''Message submitted successfully'',
                 sr_valid = Some (length (sq_recipients q) - invalid), sr_invalid = Some invalid\<rparr>,
               m\<lparr>ms_sendCounter := n\<rparr>))"

definition mockListSenderNames :: "(string \<times> string option) list provider_result" where
  "mockListSenderNames = okResult [(''MOCKINFO'', Some ''ACTIVE'')]"

definition mockDeliveryReport :: "string \<Rightarrow> string \<Rightarrow> delivery_report provider_result" where
  "mockDeliveryReport requestId destAddr = okResult \<lparr>dr_status = Some ''DELIVERED''\<rparr>"

text \<open>The mock rails as the services get them, in a given state of the mock.\<close>

definition mockCollectionProvider :: "int \<Rightarrow> mock_collections \<Rightarrow> collection_provider" where
  "mockCollectionProvider time m = \<lparr>cp_name = ''MOCK-CLICKPESA'',
     cp_previewUssdPush = mockPreviewUssdPush,
     cp_initiateUssdPush = (\<lambda>q. fst (mockInitiateUssdPush time m q)),
     cp_queryPayment = mockQueryPayment m\<rparr>"

definition mockPayoutProvider :: "int \<Rightarrow> mock_payouts \<Rightarrow> payout_provider" where
  "mockPayoutProvider time m = \<lparr>pp_name = ''MOCK-CLICKPESA'',
     pp_createMobileMoneyPayout = mockMobileMoneyPayout time m,
     pp_createBankPayout = mockBankPayout time m, pp_queryPayout = mockQueryPayout m,
     pp_previewMnoPayout = Some mockPreviewMnoPayout\<rparr>"

definition mockSmsProvider :: "mock_sms \<Rightarrow> sms_provider" where
  "mockSmsProvider m = \<lparr>sp_name = ''MOCK-BEEM'', sp_send = (\<lambda>q. fst (mockSmsSend m q)),
     sp_listSenderNames = mockListSenderNames, sp_deliveryReport = mockDeliveryReport\<rparr>"

definition quiet_mock :: mock_collections where
  "quiet_mock = \<lparr>mc_default = ''SUCCESS'', mc_statuses = Map.empty, mc_amounts = Map.empty\<rparr>"

definition quiet_payouts :: mock_payouts where
  "quiet_payouts = \<lparr>mp_default = ''SUCCESS'', mp_statuses = Map.empty\<rparr>"

section \<open>The contract of a rail\<close>

text \<open>
  What the services rely on: a payment that was initiated is found under its reference, and when
  it is reported as a success the collected amount is the amount that was asked for.
\<close>

locale payment_rail =
  fixes initiate :: "'m \<Rightarrow> ussd_request \<Rightarrow> ussd_initiated provider_result \<times> 'm"
    and query :: "'m \<Rightarrow> string \<Rightarrow> provider_record list provider_result"
    and usable :: "'m \<Rightarrow> bool"
  assumes initiated_found: "usable m \<Longrightarrow> initiate m q = (r, m') \<Longrightarrow> rs_ok r \<Longrightarrow>
      usable m' \<and> rs_ok (query m' (uq_orderReference q)) \<and>
      (\<exists>rc. rs_data (query m' (uq_orderReference q)) = Some [rc] \<and>
        (pr_status rc = Some ''SUCCESS'' \<longrightarrow> pr_collectedAmount rc = Some (uq_amount q)))"
    and initiate_keeps: "usable m \<Longrightarrow> initiate m q = (r, m') \<Longrightarrow> ref \<noteq> uq_orderReference q \<Longrightarrow>
      query m' ref = query m ref"
begin

lemma initiated_twice:
  assumes "usable m" and "initiate m q = (r, m')" and "rs_ok r"
    and "initiate m' q' = (r', m'')" and "uq_orderReference q' \<noteq> uq_orderReference q"
  shows "query m'' (uq_orderReference q) = query m' (uq_orderReference q)"
  using initiate_keeps [OF _ assms(4)] initiated_found [OF assms(1-3)] assms(5) by auto

lemma gross_collected:
  assumes "usable m" and "initiate m q = (r, m')" and "rs_ok r"
    and "rs_data (query m' (uq_orderReference q)) = Some (rc # rcs)"
    and "pr_status rc = Some ''SUCCESS''"
  shows "collectionGross rc c = uq_amount q"
  using initiated_found [OF assms(1-3)] assms(4,5) by (auto simp: collectionGross_def)

end

interpretation mock_rail: payment_rail "mockInitiateUssdPush time" mockQueryPayment "\<lambda>_. True"
  for time
  by unfold_locales
    (auto simp: mockInitiateUssdPush_def mockQueryPayment_def okResult_def Let_def mockCollectionStatus_def
          split: option.split)

end
