(* ===== verification/Checksum.thy ===== *)
theory Checksum
  imports Strings "HOL-Library.Char_ord" "HOL-Library.List_Lexorder" "HOL-Library.Multiset"
begin

text \<open>
  common/utils/checksum.util.ts: the canonical form of a JSON payload (keys sorted at every
  level, the checksum fields left out), its compact text, the HMAC over it and the comparison.
  HMAC-SHA256 is a parameter. A number is the text JavaScript prints for it.
\<close>

section \<open>JSON values\<close>

datatype json =
    JNull
  | JUndefined
  | JBool bool
  | JNum string
  | JStr string
  | JArr "json list"
  | JObj "(string \<times> json) list"

text \<open>
  The order in which JavaScript enumerates the keys of an object: array indices first, in
  numeric order, then the other keys in insertion order.
\<close>

definition isIndexKey :: "string \<Rightarrow> bool" where
  "isIndexKey s \<longleftrightarrow> s = ''0'' \<or>
     (s \<noteq> [] \<and> list_all isDigit s \<and> hd s \<noteq> CHR ''0'' \<and> digitsValue s < 4294967295)"

definition enumerated :: "(string \<times> json) list \<Rightarrow> (string \<times> json) list" where
  "enumerated kvs = sort_key (\<lambda>kv. digitsValue (fst kv)) (filter (\<lambda>kv. isIndexKey (fst kv)) kvs)
                   @ filter (\<lambda>kv. \<not> isIndexKey (fst kv)) kvs"

definition isChecksumKey :: "string \<Rightarrow> bool" where
  "isChecksumKey k \<longleftrightarrow> k = ''checksum'' \<or> k = ''checksumMethod''"

fun canonicalize :: "json \<Rightarrow> json" where
  "canonicalize (JObj kvs) =
     JObj (enumerated (filter (\<lambda>kv. \<not> isChecksumKey (fst kv))
       (sort_key fst (map (\<lambda>(k, v). (k, canonicalize v)) kvs))))"
| "canonicalize (JArr xs) = JArr (map canonicalize xs)"
| "canonicalize JUndefined = JNull"
| "canonicalize v = v"

section \<open>Text\<close>

definition hexDigit :: "nat \<Rightarrow> char" where
  "hexDigit n = ''0123456789abcdef'' ! n"

definition escapeChar :: "char \<Rightarrow> string" where
  "escapeChar c =
     (let n = of_char c :: nat in
      if n = 34 then [char_of (92 :: nat), c]
      else if n = 92 then [c, c]
      else if n = 8 then [char_of (92 :: nat), CHR ''b'']
      else if n = 9 then [char_of (92 :: nat), CHR ''t'']
      else if n = 10 then [char_of (92 :: nat), CHR ''n'']
      else if n = 12 then [char_of (92 :: nat), CHR ''f'']
      else if n = 13 then [char_of (92 :: nat), CHR ''r'']
      else if n < 32 then [char_of (92 :: nat), CHR ''u'', CHR ''0'', CHR ''0'',
                           hexDigit (n div 16), hexDigit (n mod 16)]
      else [c])"

definition quoteString :: "string \<Rightarrow> string" where
  "quoteString s = char_of (34 :: nat) # concat (map escapeChar s) @ [char_of (34 :: nat)]"

definition commaSep :: "string list \<Rightarrow> string" where
  "commaSep xs = concat (case xs of [] \<Rightarrow> [] | y # ys \<Rightarrow> y # map (\<lambda>s. CHR '','' # s) ys)"

text \<open>\<open>JSON.stringify\<close> of a value without undefined members.\<close>

fun stringify :: "json \<Rightarrow> string" where
  "stringify JNull = ''null''"
| "stringify JUndefined = ''null''"
| "stringify (JBool b) = (if b then ''true'' else ''false'')"
| "stringify (JNum n) = n"
| "stringify (JStr s) = quoteString s"
| "stringify (JArr xs) = CHR ''['' # commaSep (map stringify xs) @ '']''"
| "stringify (JObj kvs) =
     CHR ''{'' # commaSep (map (\<lambda>(k, v). quoteString k @ CHR '':'' # stringify v) kvs) @ ''}''"

section \<open>Checksums\<close>

type_synonym hmac = "string \<Rightarrow> string \<Rightarrow> string"

definition createPayloadChecksum :: "hmac \<Rightarrow> string \<Rightarrow> json \<Rightarrow> string" where
  "createPayloadChecksum hm key payload = hm key (stringify (canonicalize payload))"

text \<open>The loop \<open>diff |= expected.charCodeAt(i) ^ provided.charCodeAt(i)\<close>.\<close>

definition compareStep :: "string \<Rightarrow> string \<Rightarrow> nat \<Rightarrow> int \<Rightarrow> int" where
  "compareStep expected provided i diff =
     Bit_Operations.or diff (Bit_Operations.xor (of_char (expected ! i)) (of_char (provided ! i)))"

definition constantTimeEqual :: "string \<Rightarrow> string \<Rightarrow> bool" where
  "constantTimeEqual expected provided \<longleftrightarrow>
     length provided = length expected \<and>
     fold (compareStep expected provided) [0..<length expected] 0 = 0"

definition member :: "string \<Rightarrow> (string \<times> json) list \<Rightarrow> json" where
  "member k kvs = (case map_of kvs k of None \<Rightarrow> JUndefined | Some v \<Rightarrow> v)"

text \<open>
  \<open>verifyPayloadChecksum\<close>: an absent or falsy checksum fails; a value of the wrong length fails;
  an array or object of the right \<open>length\<close> has no \<open>charCodeAt\<close> and raises a TypeError.
\<close>

definition verifyPayloadChecksum :: "hmac \<Rightarrow> string \<Rightarrow> (string \<times> json) list \<Rightarrow> err + bool" where
  "verifyPayloadChecksum hm key payload =
     (let expected = createPayloadChecksum hm key (JObj payload) in
      case member ''checksum'' payload of
        JStr provided \<Rightarrow>
          if provided = [] then Inr False else Inr (constantTimeEqual expected provided)
      | JArr xs \<Rightarrow>
          if length xs = length expected \<and> expected \<noteq> [] then Inl (JsError ''TypeError'') else Inr False
      | JObj kvs \<Rightarrow>
          if member ''length'' kvs = JNum (showNat (length expected)) \<and> expected \<noteq> []
          then Inl (JsError ''TypeError'') else Inr False
      | _ \<Rightarrow> Inr False)"

section \<open>Lemmas\<close>

lemma int_xor_0: "Bit_Operations.xor a b = (0 :: int) \<longleftrightarrow> a = b"
proof
  assume "Bit_Operations.xor a b = 0"
  then have "Bit_Operations.xor (Bit_Operations.xor a b) b = b" by simp
  then show "a = b" by (simp add: xor.assoc)
qed simp

lemma char_xor_0: "Bit_Operations.xor (of_char a :: int) (of_char b) = 0 \<longleftrightarrow> a = b"
  by (simp add: int_xor_0)

lemma compare_fold:
  "fold (compareStep e p) is d = 0 \<longleftrightarrow> d = 0 \<and> (\<forall>i \<in> set is. e ! i = p ! i)"
  by (induction "is" arbitrary: d) (auto simp: compareStep_def or_eq_0_iff char_xor_0)

lemma constantTimeEqual_iff: "constantTimeEqual e p \<longleftrightarrow> e = p"
  by (auto simp: constantTimeEqual_def compare_fold intro: nth_equalityI)

lemma distinct_single: "distinct zs \<Longrightarrow> set zs = {k} \<Longrightarrow> zs = [k]"
proof (cases zs)
  case (Cons x xs)
  moreover assume "distinct zs" and "set zs = {k}"
  ultimately show "zs = [k]" by (cases xs) auto
qed simp

lemma sort_key_mset_eq:
  assumes "mset xs = mset ys" and "distinct (map f xs)"
  shows "sort_key f xs = sort_key f ys"
proof (rule properties_for_sort_key)
  have inj: "inj_on f (set xs)" and dx: "distinct xs" using assms(2) by (simp_all add: distinct_map)
  have ss: "set (sort_key f ys) = set xs" using mset_eq_setD [OF assms(1)] by simp
  have ds: "distinct (sort_key f ys)" using dx mset_eq_imp_distinct_iff [OF assms(1)] by simp
  show "mset (sort_key f ys) = mset xs" using assms(1) by simp
  fix k
  assume "k \<in> set (sort_key f ys)"
  then have k: "k \<in> set xs" using ss by simp
  have single: "filter (\<lambda>x. f k = f x) zs = [k]" if "set zs = set xs" "distinct zs" for zs
  proof (rule distinct_single)
    show "set (filter (\<lambda>x. f k = f x) zs) = {k}" using inj that(1) k by (auto simp: inj_on_def)
  qed (use that in simp)
  show "filter (\<lambda>x. f k = f x) (sort_key f ys) = filter (\<lambda>x. f k = f x) xs"
    using single [OF ss ds] single [OF refl dx] by simp
qed simp

text \<open>Two payloads that differ only in the order of keys and in checksum fields, at any depth.\<close>

inductive same_payload :: "json \<Rightarrow> json \<Rightarrow> bool" where
  same_refl: "same_payload v v"
| same_array: "list_all2 same_payload xs ys \<Longrightarrow> same_payload (JArr xs) (JArr ys)"
| same_members: "map fst kvs = map fst lvs \<Longrightarrow> list_all2 same_payload (map snd kvs) (map snd lvs)
     \<Longrightarrow> same_payload (JObj kvs) (JObj lvs)"
| same_order: "distinct (map fst kvs) \<Longrightarrow> mset kvs = mset lvs \<Longrightarrow> same_payload (JObj kvs) (JObj lvs)"
| same_checksum: "distinct (map fst kvs) \<Longrightarrow> isChecksumKey k \<Longrightarrow>
     same_payload (JObj kvs) (JObj (kvs @ [(k, v)]))"
| same_trans: "same_payload u v \<Longrightarrow> same_payload v w \<Longrightarrow> same_payload u w"

lemma canonicalize_member: "fst (case kv of (k, v) \<Rightarrow> (k, canonicalize v)) = fst kv"
  by (simp split: prod.split)

lemma map_fst_canonicalize: "map fst (map (\<lambda>(k, v). (k, canonicalize v)) kvs) = map fst kvs"
  by (simp add: canonicalize_member)

lemma filter_sort_key: "filter P (sort_key f xs) = sort_key f (filter P xs)"
  by (rule filter_sort)

lemma canonicalize_same: "same_payload u v \<Longrightarrow> canonicalize u = canonicalize v"
proof (induction rule: same_payload.induct)
  case (same_array xs ys)
  then show ?case by (simp add: list_all2_conv_all_nth list_eq_iff_nth_eq)
next
  case (same_members kvs lvs)
  have len: "length kvs = length lvs" using same_members(1) by (metis length_map)
  have "map (\<lambda>(k, v). (k, canonicalize v)) kvs = map (\<lambda>(k, v). (k, canonicalize v)) lvs"
  proof (rule nth_equalityI)
    fix i
    assume i: "i < length (map (\<lambda>(k, v). (k, canonicalize v)) kvs)"
    then have "fst (kvs ! i) = fst (lvs ! i)"
      using same_members(1) len by (metis length_map nth_map)
    moreover have "canonicalize (snd (kvs ! i)) = canonicalize (snd (lvs ! i))"
      using same_members(2) i len by (auto simp: list_all2_conv_all_nth)
    ultimately show "map (\<lambda>(k, v). (k, canonicalize v)) kvs ! i = map (\<lambda>(k, v). (k, canonicalize v)) lvs ! i"
      using i len by (cases "kvs ! i"; cases "lvs ! i") simp
  qed (simp add: len)
  then show ?case by simp
next
  case (same_order kvs lvs)
  have "sort_key fst (map (\<lambda>(k, v). (k, canonicalize v)) kvs)
      = sort_key fst (map (\<lambda>(k, v). (k, canonicalize v)) lvs)"
    using same_order by (intro sort_key_mset_eq) (simp_all add: canonicalize_member comp_def)
  then show ?case by simp
next
  case (same_checksum kvs k v)
  then show ?case by (simp add: filter_sort)
qed simp_all

lemma verify_iff:
  assumes "member ''checksum'' payload = JStr s"
  shows "verifyPayloadChecksum hm key payload
      = Inr (s \<noteq> [] \<and> s = createPayloadChecksum hm key (JObj payload))"
  using assms by (auto simp: verifyPayloadChecksum_def constantTimeEqual_iff Let_def)

section \<open>Properties\<close>

text \<open>C18: the checksum depends only on what the payload says: payloads that differ in the order of
  their keys, at any depth, or in their checksum fields have the same checksum. A payload signed by
  the code, with the checksum added as a field, is accepted by its verification, and a payload that
  carries any other checksum text is rejected.\<close>

theorem checksum_roundtrip:
  assumes "same_payload (JObj kvs) (JObj lvs)" and "distinct (map fst lvs)"
    and "''checksum'' \<notin> fst ` set lvs" and "createPayloadChecksum hm key (JObj kvs) = c" and "c \<noteq> []"
  shows "verifyPayloadChecksum hm key (lvs @ [(''checksum'', JStr c)]) = Inr True \<and>
    (\<forall>s. s \<noteq> c \<longrightarrow> verifyPayloadChecksum hm key (lvs @ [(''checksum'', JStr s)]) = Inr False)"
proof -
  have "same_payload (JObj lvs) (JObj (lvs @ [(''checksum'', JStr s)]))" for s
    using assms(2) by (intro same_checksum) (simp_all add: isChecksumKey_def)
  from canonicalize_same [OF this]
  have eq: "createPayloadChecksum hm key (JObj (lvs @ [(''checksum'', JStr s)])) = c" for s
    using canonicalize_same [OF assms(1)] assms(4)
    by (simp only: createPayloadChecksum_def)
  have "map_of lvs ''checksum'' = None" using assms(3) by (simp add: map_of_eq_None_iff)
  then have m: "member ''checksum'' (lvs @ [(''checksum'', JStr s)]) = JStr s" for s
    by (simp add: member_def map_add_def)
  show ?thesis using assms(5) by (auto simp: verify_iff [OF m] eq)
qed

definition sample_payload :: "(string \<times> json) list" where
  "sample_payload = [(''b'', JNum ''1''), (''a'', JObj [(''y'', JStr ''q''), (''x'', JNull)])]"

definition sample_payload' :: "(string \<times> json) list" where
  "sample_payload' = [(''a'', JObj [(''x'', JNull), (''y'', JStr ''q'')]), (''b'', JNum ''1'')]"

theorem checksum_roundtrip_witness:
  "verifyPayloadChecksum (\<lambda>k m. k @ m) ''key'' (sample_payload' @ [(''checksum'',
     JStr (createPayloadChecksum (\<lambda>k m. k @ m) ''key'' (JObj sample_payload)))]) = Inr True"
proof -
  let ?mid = "[(''b'', JNum ''1''), (''a'', JObj [(''x'', JNull), (''y'', JStr ''q'')])]"
  have "same_payload (JObj [(''y'', JStr ''q''), (''x'', JNull)]) (JObj [(''x'', JNull), (''y'', JStr ''q'')])"
    by (rule same_order) (simp_all add: add_mset_commute)
  then have "same_payload (JObj sample_payload) (JObj ?mid)"
    unfolding sample_payload_def by (intro same_members) (simp_all add: same_refl)
  moreover have "same_payload (JObj ?mid) (JObj sample_payload')"
    unfolding sample_payload'_def by (rule same_order) (simp_all add: add_mset_commute)
  ultimately have "same_payload (JObj sample_payload) (JObj sample_payload')" by (rule same_trans)
  moreover have "createPayloadChecksum (\<lambda>k m. k @ m) ''key'' (JObj sample_payload) \<noteq> []"
    by (simp add: createPayloadChecksum_def)
  moreover have "distinct (map fst sample_payload')" and "''checksum'' \<notin> fst ` set sample_payload'"
    by (simp_all add: sample_payload'_def)
  ultimately show ?thesis using checksum_roundtrip by blast
qed

end
