(* ===== verification/Receiver.thy ===== *)
theory Receiver
  imports Providers Checksum
begin

text \<open>
  webhooks/webhook-receiver.controller.ts with \<open>verifyClickPesaWebhook\<close> of
  clickpesa/clickpesa.client.ts: the two public endpoints the providers call. HMAC-SHA256 and the
  decimal constructor of Prisma are parameters.
\<close>

section \<open>JavaScript conversions\<close>

text \<open>\<open>String(v)\<close>, \<open>v ?? w\<close> and \<open>!v\<close> on JSON values.\<close>

fun jsString :: "json \<Rightarrow> string" where
  "jsString JNull = ''null''"
| "jsString JUndefined = ''undefined''"
| "jsString (JBool b) = (if b then ''true'' else ''false'')"
| "jsString (JNum n) = n"
| "jsString (JStr s) = s"
| "jsString (JArr xs) = commaSep (map (\<lambda>x. if x = JNull \<or> x = JUndefined then [] else jsString x) xs)"
| "jsString (JObj kvs) = ''[object Object]''"

definition nullish :: "json \<Rightarrow> bool" where
  "nullish v \<longleftrightarrow> v = JNull \<or> v = JUndefined"

definition coalesce :: "json \<Rightarrow> json \<Rightarrow> json" where
  "coalesce v w = (if nullish v then w else v)"

definition falsy :: "json \<Rightarrow> bool" where
  "falsy v \<longleftrightarrow> nullish v \<or> v = JBool False \<or> v = JNum ''0'' \<or> v = JStr []"

definition field :: "string \<Rightarrow> json \<Rightarrow> json" where
  "field k v = (case v of JObj kvs \<Rightarrow> member k kvs | _ \<Rightarrow> JUndefined)"

section \<open>The ClickPesa webhook\<close>

definition verifyClickPesaWebhook :: "hmac \<Rightarrow> config \<Rightarrow> json \<Rightarrow> bool" where
  "verifyClickPesaWebhook hm c payload =
     (if \<not> truthy (cfg_checksumKey c) then True
      else let provided = field ''checksum'' payload in
           if falsy provided then True
           else jsString provided = createPayloadChecksum hm (the (cfg_checksumKey c)) payload)"

text \<open>
  The \<open>data\<close> object as the status engine reads it. A text field that holds something else than
  text makes the engine or Prisma throw, and the receiver swallows it; the model stops such a payload
  here (the source may have stored the account's default fee schedule by then).
\<close>

definition textField :: "string \<Rightarrow> json \<Rightarrow> string option option" where
  "textField k v =
     (case field k v of JNull \<Rightarrow> Some None | JUndefined \<Rightarrow> Some None | JStr s \<Rightarrow> Some (Some s) | _ \<Rightarrow> None)"

definition amountField :: "(string \<Rightarrow> decimal) \<Rightarrow> string \<Rightarrow> json \<Rightarrow> decimal option" where
  "amountField dec k v = (if nullish (field k v) then None else Some (dec (jsString (field k v))))"

definition recordOf :: "(string \<Rightarrow> decimal) \<Rightarrow> json \<Rightarrow> provider_record option" where
  "recordOf dec v =
     (case (textField ''status'' v, textField ''id'' v, textField ''paymentReference'' v,
            textField ''collectedCurrency'' v, textField ''message'' v) of
        (Some st, Some i, Some pr, Some cur, Some msg) \<Rightarrow>
          Some \<lparr>pr_status = st, pr_id = i, pr_paymentReference = pr,
                pr_collectedAmount = amountField dec ''collectedAmount'' v,
                pr_collectedCurrency = cur, pr_message = msg,
                pr_customer = (if nullish (field ''customer'' v) then None
                               else Some (stringify (field ''customer'' v))),
                pr_fee = amountField dec ''fee'' v\<rparr>
      | _ \<Rightarrow> None)"

definition ignored :: "(db, applied) action \<Rightarrow> (db, unit) action" where
  "ignored m = thenDo m (ret ())"

definition applyWebhook :: "env \<Rightarrow> string \<Rightarrow> string \<Rightarrow> provider_record \<Rightarrow> (db, unit) action" where
  "applyWebhook e event orderReference rc =
     (if startsWith event ''PAYMENT'' then
        andThen (applyCollectionUpdate e orderReference rc) (\<lambda>applied.
          if fst applied then ret () else ignored (applyDepositUpdate e orderReference rc))
      else if startsWith event ''PAYOUT'' then ignored (applyPayoutUpdate e orderReference rc)
      else ret ())"

definition clickpesaWebhook :: "hmac \<Rightarrow> (string \<Rightarrow> decimal) \<Rightarrow> env \<Rightarrow> json \<Rightarrow> (db, unit) action" where
  "clickpesaWebhook hm dec e body =
     (if \<not> verifyClickPesaWebhook hm (cfg e) body then ret ()
      else let event = toUpperCase (jsString (coalesce (field ''event'' body) (JStr [])));
               data = coalesce (field ''data'' body) (JObj []);
               orderReference = jsString (coalesce (field ''orderReference'' data) (JStr []))
           in if orderReference = [] then ret ()
              else attempt
                (case recordOf dec data of
                   None \<Rightarrow> raise (JsError ''TypeError'')
                 | Some rc \<Rightarrow> applyWebhook e event orderReference rc)
                (\<lambda>_. ret ()))"

section \<open>The Beem delivery report\<close>

definition reported :: "env \<Rightarrow> string \<Rightarrow> string \<Rightarrow> sms_recipient \<Rightarrow> sms_recipient" where
  "reported e dest status r =
     (if rc_destAddr r = dest then r\<lparr>rc_status := status, rc_reportedAt := Some (now e)\<rparr> else r)"

definition findSmsByRequest :: "string \<Rightarrow> db \<Rightarrow> sms_row option" where
  "findSmsByRequest requestId d = List.find (\<lambda>m. m_providerRequestId m = Some requestId) (smses d)"

definition reportedSms :: "env \<Rightarrow> string \<Rightarrow> string \<Rightarrow> sms_row \<Rightarrow> sms_row" where
  "reportedSms e dest status m =
     (let updated = map (reported e dest status) (m_recipients m);
          allDelivered = list_all (\<lambda>r. toUpperCase (rc_status r) = ''DELIVERED'') updated
      in m\<lparr>m_recipients := updated,
           m_status := (if allDelivered then SmsDELIVERED
                        else if status = ''FAILED'' then SmsFAILED else m_status m),
           m_deliveredAt := (if allDelivered then Some (now e) else m_deliveredAt m),
           m_updatedAt := now e\<rparr>)"

definition beemWebhook :: "env \<Rightarrow> json \<Rightarrow> (db, unit) action" where
  "beemWebhook e body =
     (let requestId = jsString (coalesce (field ''requestId'' body)
                        (coalesce (field ''request_id'' body) (JStr [])));
          dest = jsString (coalesce (field ''destAddr'' body)
                   (coalesce (field ''dest_addr'' body) (JStr [])));
          status = toUpperCase (jsString (coalesce (field ''status'' body) (JStr [])))
      in if requestId = [] \<or> dest = [] then ret ()
         else andThen (query (findSmsByRequest requestId)) (\<lambda>found.
           case found of
             None \<Rightarrow> ret ()
           | Some m \<Rightarrow> modify (\<lambda>d. d\<lparr>smses := updateWhere (\<lambda>r. m_id r = m_id m)
                        (\<lambda>_. reportedSms e dest status m) (smses d)\<rparr>)))"

section \<open>Lemmas\<close>

lemma keeps_ignored [keeps_rules]: "keeps P m \<Longrightarrow> keeps P (ignored m)"
  unfolding ignored_def by (intro keeps_rules)

lemma keeps_applyWebhook [keeps_rules]: "keeps status_inv (applyWebhook e ev ref rc)"
  unfolding applyWebhook_def by (intro keeps_rules)

lemma keeps_clickpesaWebhook [keeps_rules]: "keeps status_inv (clickpesaWebhook hm dec e body)"
  unfolding clickpesaWebhook_def by (intro keeps_rules)

lemma attempt_total: "\<exists>d'. attempt m (\<lambda>_. ret ()) d = (Inr (x :: unit), d')"
  by (simp add: attempt_def ret_run split: prod.split sum.split)

lemma clickpesaWebhook_total: "\<exists>d'. clickpesaWebhook hm dec e body d = (Inr (), d')"
  using attempt_total by (auto simp: clickpesaWebhook_def Let_def ret_run)

section \<open>Properties\<close>


definition sample_key_env :: env where
  "sample_key_env = default_env\<lparr>cfg := default_config\<lparr>cfg_checksumKey := Some ''k''\<rparr>\<rparr>"

definition sample_body :: "string \<Rightarrow> json" where
  "sample_body c = JObj [(''event'', JStr ''PAYMENT RECEIVED''), (''checksum'', JStr c), (''data'',
     JObj [(''orderReference'', JStr ''OUT1''), (''status'', JStr ''SUCCESS'')])]"


end
