(* ===== verification/Reference.thy ===== *)
theory Reference
  imports Strings
begin

text \<open>
  common/utils/reference.util.ts and common/utils/api-key.util.ts: the 20-character references
  (a 5-character source code per account, then 15 characters from the client or from random
  draws), source codes, random ids and API keys. Random draws are arguments: \<open>rnd i\<close> is the
  \<open>i\<close>-th draw, reduced to an index of the alphabet. SHA-256 is a parameter.
\<close>

section \<open>References\<close>

definition ALPHANUMERIC :: string where
  "ALPHANUMERIC = ''ABCDEFGHIJKLMNOPQRSTUVWXYZ0123456789''"

definition SOURCE_CODE_LENGTH :: nat where "SOURCE_CODE_LENGTH = 5"
definition CLIENT_REF_LENGTH :: nat where "CLIENT_REF_LENGTH = 15"
definition REFERENCE_LENGTH :: nat where
  "REFERENCE_LENGTH = SOURCE_CODE_LENGTH + CLIENT_REF_LENGTH"

definition randomChars :: "(nat \<Rightarrow> nat) \<Rightarrow> nat \<Rightarrow> string" where
  "randomChars rnd n = map (\<lambda>i. ALPHANUMERIC ! (rnd i mod 36)) [0..<n]"

text \<open>The loop of \<open>generateSourceCode\<close>, with the attempts that are left.\<close>

fun sourceCodeLoop :: "nat \<Rightarrow> (nat \<Rightarrow> nat \<Rightarrow> nat) \<Rightarrow> nat \<Rightarrow> string list \<Rightarrow> err + string" where
  "sourceCodeLoop 0 rnd tries existing = Inl (JsError ''Unable to generate a unique source code'')"
| "sourceCodeLoop (Suc n) rnd tries existing =
     (let code = randomChars (rnd tries) SOURCE_CODE_LENGTH
      in if code \<notin> set existing then Inr code else sourceCodeLoop n rnd (Suc tries) existing)"

definition generateSourceCode :: "(nat \<Rightarrow> nat \<Rightarrow> nat) \<Rightarrow> string list \<Rightarrow> err + string" where
  "generateSourceCode rnd existing = sourceCodeLoop 50 rnd 0 existing"

text \<open>\<open>/^[A-Z0-9]{1,15}$/\<close>.\<close>

definition validClientPart :: "string \<Rightarrow> bool" where
  "validClientPart s \<longleftrightarrow>
     1 \<le> length s \<and> length s \<le> 15 \<and> list_all (\<lambda>c. isUpperAZ c \<or> isDigit c) s"

definition sanitizeClientReference :: "string option \<Rightarrow> err + string option" where
  "sanitizeClientReference raw =
     (case raw of
        None \<Rightarrow> Inr None
      | Some r \<Rightarrow>
          let trimmed = toUpperCase (trim r) in
          if trimmed = [] then Inr None
          else if \<not> validClientPart trimmed then Inl (JsError ''INVALID_CLIENT_REFERENCE'')
          else Inr (Some trimmed))"

definition buildReference :: "(nat \<Rightarrow> nat) \<Rightarrow> string \<Rightarrow> string option \<Rightarrow> err + string" where
  "buildReference rnd sourceCode clientReference =
     (if length sourceCode \<noteq> SOURCE_CODE_LENGTH then Inl (JsError ''INVALID_SOURCE_CODE'')
      else case sanitizeClientReference clientReference of
        Inl e \<Rightarrow> Inl e
      | Inr client \<Rightarrow>
          let padded = (case client of
                          Some c \<Rightarrow> c @ randomChars rnd (CLIENT_REF_LENGTH - length c)
                        | None \<Rightarrow> randomChars rnd CLIENT_REF_LENGTH);
              reference = sourceCode @ padded
          in if length reference \<noteq> REFERENCE_LENGTH then Inl (JsError ''INVALID_REFERENCE_LENGTH'')
             else Inr reference)"

section \<open>Random ids and API keys\<close>

definition ID_ALPHABET :: string where
  "ID_ALPHABET = ''ABCDEFGHJKLMNPQRSTUVWXYZ23456789''"

text \<open>\<open>createRandomId\<close>: one random byte per character.\<close>

definition createRandomId :: "(nat \<Rightarrow> nat) \<Rightarrow> nat \<Rightarrow> string" where
  "createRandomId bytes n = map (\<lambda>i. ID_ALPHABET ! (bytes i mod length ID_ALPHABET)) [0..<n]"

definition buildUniqueReference :: "(nat \<Rightarrow> nat) \<Rightarrow> (nat \<Rightarrow> nat) \<Rightarrow> string \<Rightarrow> string option \<Rightarrow> err + string" where
  "buildUniqueReference rnd bytes sourceCode clientReference =
     buildReference rnd sourceCode
       (case clientReference of None \<Rightarrow> Some (createRandomId bytes 15) | Some c \<Rightarrow> Some c)"

definition API_KEY_MIN_LENGTH :: nat where "API_KEY_MIN_LENGTH = 32"
definition API_KEY_DISPLAY_PREFIX_LENGTH :: nat where "API_KEY_DISPLAY_PREFIX_LENGTH = 12"

definition HEX :: string where "HEX = ''0123456789abcdef''"

definition hexBytes :: "(nat \<Rightarrow> nat) \<Rightarrow> nat \<Rightarrow> string" where
  "hexBytes bytes n = concat (map (\<lambda>i. [HEX ! (bytes i mod 256 div 16), HEX ! (bytes i mod 16)]) [0..<n])"

record generated_key =
  gk_full :: string
  gk_displayPrefix :: string
  gk_hash :: string

definition generateApiKey :: "(string \<Rightarrow> string) \<Rightarrow> (nat \<Rightarrow> nat) \<Rightarrow> string \<Rightarrow> generated_key" where
  "generateApiKey hashApiKey bytes pfx =
     (let full = pfx @ ''_live_'' @ hexBytes bytes 32
      in \<lparr>gk_full = full, gk_displayPrefix = take API_KEY_DISPLAY_PREFIX_LENGTH full,
          gk_hash = hashApiKey full\<rparr>)"

definition isValidApiKeyShape :: "string \<Rightarrow> bool" where
  "isValidApiKeyShape rawKey \<longleftrightarrow> API_KEY_MIN_LENGTH \<le> length rawKey"

section \<open>Lemmas\<close>

definition alnumUpper :: "char \<Rightarrow> bool" where
  "alnumUpper c \<longleftrightarrow> isUpperAZ c \<or> isDigit c"

lemma ALPHANUMERIC_chars: "list_all alnumUpper ALPHANUMERIC"
  by code_simp

lemma ID_ALPHABET_chars: "list_all alnumUpper ID_ALPHABET"
  by code_simp

lemma length_ALPHANUMERIC: "length ALPHANUMERIC = 36" and length_ID_ALPHABET: "length ID_ALPHABET = 32"
  by code_simp+

lemma length_randomChars [simp]: "length (randomChars rnd n) = n"
  by (simp add: randomChars_def)

lemma randomChars_0 [simp]: "randomChars rnd 0 = []"
  by (simp add: randomChars_def)

lemma randomChars_chars: "list_all alnumUpper (randomChars rnd n)"
  using ALPHANUMERIC_chars length_ALPHANUMERIC
  by (auto simp: list_all_iff randomChars_def)

lemma length_createRandomId [simp]: "length (createRandomId bytes n) = n"
  by (simp add: createRandomId_def)

lemma createRandomId_chars: "list_all alnumUpper (createRandomId bytes n)"
  using ID_ALPHABET_chars length_ID_ALPHABET
  by (auto simp: list_all_iff createRandomId_def)

lemma length_hexBytes [simp]: "length (hexBytes bytes n) = 2 * n"
  by (induction n) (simp_all add: hexBytes_def)

lemma sourceCodeLoop_Inr:
  "sourceCodeLoop n rnd k existing = Inr code \<Longrightarrow>
     code \<notin> set existing \<and> length code = 5 \<and> list_all alnumUpper code"
  by (induction n rnd k existing rule: sourceCodeLoop.induct)
    (auto simp: Let_def SOURCE_CODE_LENGTH_def randomChars_chars split: if_splits)

lemma sanitize_valid:
  "validClientPart s \<Longrightarrow> trim s = s \<Longrightarrow> toUpperCase s = s \<Longrightarrow>
     sanitizeClientReference (Some s) = Inr (Some s)"
  by (auto simp: sanitizeClientReference_def validClientPart_def)

lemma sanitize_Inr:
  "sanitizeClientReference raw = Inr (Some c) \<Longrightarrow> validClientPart c"
  by (auto simp: sanitizeClientReference_def Let_def split: option.splits if_splits)

lemma not_space_alnum: "alnumUpper c \<Longrightarrow> \<not> isSpaceChar c" and not_lower_alnum: "alnumUpper c \<Longrightarrow> \<not> isLowerAZ c"
  by (auto simp: alnumUpper_def isSpaceChar_def isUpperAZ_def isDigit_def isLowerAZ_def)

lemma alnum_sanitized:
  assumes "list_all alnumUpper s"
  shows "trim s = s" and "toUpperCase s = s"
proof -
  show "trim s = s"
    using assms by (cases "s = []") (auto simp: list_all_iff intro!: trim_id dest: not_space_alnum)
  show "toUpperCase s = s" using assms by (auto simp: list_all_iff not_lower_alnum intro: toUpperCase_id)
qed

section \<open>Properties\<close>

text \<open>A reference is built exactly when the source code has five characters and the client
  part, trimmed and upper-cased, is empty or consists of at most fifteen letters and digits; it then
  has twenty characters, starts with the source code, continues with the client part, and holds
  only upper-case letters and digits after the source code. With a full fifteen-character client
  part nothing in it is random, so the same request gives the same reference.\<close>

theorem buildReference_format:
  shows "((\<exists>r. buildReference rnd code ref = Inr r) \<longleftrightarrow>
      length code = 5 \<and> (\<exists>c. sanitizeClientReference ref = Inr c)) \<and>
    (\<forall>r. buildReference rnd code ref = Inr r \<longrightarrow>
      length r = 20 \<and> take 5 r = code \<and> list_all alnumUpper (drop 5 r) \<and>
      (\<forall>c. sanitizeClientReference ref = Inr (Some c) \<longrightarrow>
         take (length c) (drop 5 r) = c \<and>
         (length c = 15 \<longrightarrow> (\<forall>rnd'. buildReference rnd' code ref = Inr r))))"
proof -
  have len: "length c \<le> 15" "list_all alnumUpper c" if "sanitizeClientReference ref = Inr (Some c)" for c
    using sanitize_Inr [OF that] by (auto simp: validClientPart_def list_all_iff alnumUpper_def)
  show ?thesis
    using len
    by (auto simp: buildReference_def Let_def SOURCE_CODE_LENGTH_def CLIENT_REF_LENGTH_def
          REFERENCE_LENGTH_def randomChars_chars split: sum.splits option.splits)
qed

theorem buildReference_format_witness:
  "\<exists>r. buildReference (\<lambda>i. i) ''SHOP1'' (Some ''order42'') = Inr r \<and> length r = 20 \<and> take 5 r = ''SHOP1''"
proof -
  have "\<exists>c. sanitizeClientReference (Some ''order42'') = Inr c"
    by (rule exI [of _ "Some ''ORDER42''"]) code_simp
  moreover have "length ''SHOP1'' = 5" by simp
  ultimately obtain r where "buildReference (\<lambda>i. i) ''SHOP1'' (Some ''order42'') = Inr r"
    using buildReference_format [of "\<lambda>i. i" "''SHOP1''" "Some ''order42''"] by blast
  with buildReference_format [of "\<lambda>i. i" "''SHOP1''" "Some ''order42''"] show ?thesis by blast
qed

end
