(* ===== verification/Validation.thy ===== *)
theory Validation
  imports Receiver Reference Phone
begin

text \<open>
  common/validators.ts and the dto classes: which request bodies reach a service. A class is a list
  of rules, one for each decorated property, in the order of the source; a body is accepted when it is
  an object without other properties whose properties satisfy their decorators. The bodies are
  taken as the pipe has converted them. What the library decides about emails, URLs and dates is a
  parameter.
\<close>

section \<open>Patterns\<close>

definition isAlnum :: "char \<Rightarrow> bool" where
  "isAlnum c \<longleftrightarrow> isUpperAZ c \<or> isLowerAZ c \<or> isDigit c"

definition isAlpha :: "char \<Rightarrow> bool" where
  "isAlpha c \<longleftrightarrow> isUpperAZ c \<or> isLowerAZ c"

text \<open>\<open>AMOUNT_PATTERN\<close>, \<open>/^\d+(\.\d{1,2})?$/\<close>.\<close>

definition amountPattern :: "string \<Rightarrow> bool" where
  "amountPattern s \<longleftrightarrow>
     (let whole = takeWhile isDigit s; rest = dropWhile isDigit s in
      whole \<noteq> [] \<and>
      (rest = [] \<or> (hd rest = CHR ''.'' \<and> length (tl rest) \<in> {1, 2} \<and> list_all isDigit (tl rest))))"

text \<open>\<open>/^255[67]\d{8}$/\<close>.\<close>

definition strictPhone :: "string \<Rightarrow> bool" where
  "strictPhone s \<longleftrightarrow> length s = 12 \<and> take 3 s = ''255'' \<and> s ! 3 \<in> {CHR ''6'', CHR ''7''} \<and> list_all isDigit (drop 3 s)"

text \<open>\<open>/^(\+?255|0)?[67]\d{8}$/\<close>.\<close>

definition subscriberPart :: "string \<Rightarrow> bool" where
  "subscriberPart s \<longleftrightarrow> length s = 9 \<and> hd s \<in> {CHR ''6'', CHR ''7''} \<and> list_all isDigit s"

definition loosePhone :: "string \<Rightarrow> bool" where
  "loosePhone s \<longleftrightarrow> subscriberPart s \<or>
     (startsWith s ''+255'' \<and> subscriberPart (drop 4 s)) \<or>
     (startsWith s ''255'' \<and> subscriberPart (drop 3 s)) \<or>
     (startsWith s ''0'' \<and> subscriberPart (drop 1 s))"

text \<open>\<open>/^[A-Za-z0-9]{1,15}$/\<close>.\<close>

definition clientReferencePattern :: "string \<Rightarrow> bool" where
  "clientReferencePattern s \<longleftrightarrow> 1 \<le> length s \<and> length s \<le> 15 \<and> list_all isAlnum s"

text \<open>\<open>/^[A-Za-z]{6}[A-Za-z0-9]{2}([A-Za-z0-9]{3})?$/\<close>.\<close>

definition bicPattern :: "string \<Rightarrow> bool" where
  "bicPattern s \<longleftrightarrow> (length s = 8 \<or> length s = 11) \<and> list_all isAlpha (take 6 s) \<and> list_all isAlnum (drop 6 s)"

text \<open>\<open>/^[A-Za-z0-9 ]{2,11}$/\<close>.\<close>

definition senderPattern :: "string \<Rightarrow> bool" where
  "senderPattern s \<longleftrightarrow> 2 \<le> length s \<and> length s \<le> 11 \<and> list_all (\<lambda>c. isAlnum c \<or> c = CHR '' '') s"

text \<open>\<open>/^\d{4}-\d{2}-\d{2}$/\<close>.\<close>

definition datePattern :: "string \<Rightarrow> bool" where
  "datePattern s \<longleftrightarrow> length s = 10 \<and> s ! 4 = CHR ''-'' \<and> s ! 7 = CHR ''-'' \<and>
     list_all isDigit (take 4 s) \<and> list_all isDigit (take 2 (drop 5 s)) \<and> list_all isDigit (drop 8 s)"

text \<open>\<open>/(?=.*[a-z])(?=.*[A-Z])(?=.*\d)/\<close>: a line that has all three, since the dot stops at a line end.\<close>

fun splitLines :: "string \<Rightarrow> string list" where
  "splitLines [] = [[]]"
| "splitLines (c # cs) =
     (if (of_char c :: nat) \<in> {10, 13} then [] # splitLines cs
      else case splitLines cs of [] \<Rightarrow> [[c]] | l # ls \<Rightarrow> (c # l) # ls)"

definition passwordPattern :: "string \<Rightarrow> bool" where
  "passwordPattern s \<longleftrightarrow> list_ex (\<lambda>l. list_ex isLowerAZ l \<and> list_ex isUpperAZ l \<and> list_ex isDigit l) (splitLines s)"

section \<open>Decorators\<close>

type_synonym check = "json \<Rightarrow> bool"

definition isString :: check where
  "isString v \<longleftrightarrow> (case v of JStr _ \<Rightarrow> True | _ \<Rightarrow> False)"

definition onText :: "(string \<Rightarrow> bool) \<Rightarrow> check" where
  "onText p v \<longleftrightarrow> (case v of JStr s \<Rightarrow> p s | _ \<Rightarrow> False)"

definition minLength :: "nat \<Rightarrow> check" where "minLength n = onText (\<lambda>s. n \<le> length s)"
definition maxLength :: "nat \<Rightarrow> check" where "maxLength n = onText (\<lambda>s. length s \<le> n)"
definition isIn :: "string list \<Rightarrow> check" where "isIn xs = onText (\<lambda>s. s \<in> set xs)"

definition isBoolean :: check where
  "isBoolean v \<longleftrightarrow> (case v of JBool _ \<Rightarrow> True | _ \<Rightarrow> False)"

text \<open>An integer as JavaScript prints it, up to \<open>1e21\<close>.\<close>

definition intOf :: "json \<Rightarrow> int option" where
  "intOf v = (case v of
     JNum s \<Rightarrow> (if s \<noteq> [] \<and> list_all isDigit s then Some (digitsValue s)
               else if s \<noteq> [] \<and> hd s = CHR ''-'' \<and> tl s \<noteq> [] \<and> list_all isDigit (tl s)
               then Some (- digitsValue (tl s)) else None)
   | _ \<Rightarrow> None)"

definition intBetween :: "int \<Rightarrow> int \<Rightarrow> check" where
  "intBetween lo hi v \<longleftrightarrow> (case intOf v of None \<Rightarrow> False | Some n \<Rightarrow> lo \<le> n \<and> n \<le> hi)"

definition isArray :: check where
  "isArray v \<longleftrightarrow> (case v of JArr _ \<Rightarrow> True | _ \<Rightarrow> False)"

definition arraySize :: "nat \<Rightarrow> nat \<Rightarrow> check" where
  "arraySize lo hi v \<longleftrightarrow> (case v of JArr xs \<Rightarrow> lo \<le> length xs \<and> length xs \<le> hi | _ \<Rightarrow> False)"

definition arrayMinSize :: "nat \<Rightarrow> check" where
  "arrayMinSize lo v \<longleftrightarrow> (case v of JArr xs \<Rightarrow> lo \<le> length xs | _ \<Rightarrow> False)"

definition each :: "check \<Rightarrow> check" where
  "each p v \<longleftrightarrow> (case v of JArr xs \<Rightarrow> list_all p xs | _ \<Rightarrow> False)"

definition isObject :: check where
  "isObject v \<longleftrightarrow> (case v of JObj _ \<Rightarrow> True | _ \<Rightarrow> False)"

text \<open>A property: its name, whether it may be missing or \<open>null\<close>, and its decorators.\<close>

datatype rule = Rule (rule_name: string) (rule_optional: bool) (rule_checks: "check list")

abbreviation must :: "string \<Rightarrow> check list \<Rightarrow> rule" where "must n cs \<equiv> Rule n False cs"
abbreviation may :: "string \<Rightarrow> check list \<Rightarrow> rule" where "may n cs \<equiv> Rule n True cs"

definition ruleOk :: "json \<Rightarrow> rule \<Rightarrow> bool" where
  "ruleOk body r \<longleftrightarrow> (let v = field (rule_name r) body in
     (rule_optional r \<and> nullish v) \<or> list_all (\<lambda>c. c v) (rule_checks r))"

text \<open>The pipe of main.ts: \<open>whitelist\<close> with \<open>forbidNonWhitelisted\<close>.\<close>

definition accepts :: "rule list \<Rightarrow> json \<Rightarrow> bool" where
  "accepts rules body \<longleftrightarrow> (case body of
     JObj kvs \<Rightarrow> (\<forall>kv \<in> set kvs. fst kv \<in> rule_name ` set rules) \<and> (\<forall>r \<in> set rules. ruleOk body r)
   | _ \<Rightarrow> False)"

section \<open>The classes\<close>

text \<open>What class-validator decides.\<close>

record library =
  or_email :: "string \<Rightarrow> bool"
  or_url :: "string \<Rightarrow> bool"
  or_date :: "string \<Rightarrow> bool"

definition phone_rule :: check where "phone_rule = onText strictPhone"
definition amount_rule :: check where "amount_rule = onText amountPattern"
definition reference_rule :: check where "reference_rule = onText clientReferencePattern"

definition walletAmountDto :: "rule list" where
  "walletAmountDto =
     [must ''amount'' [amount_rule],
      must ''reason'' [isString, minLength 3, maxLength 120],
      may ''reference'' [isString, maxLength 40]]"

definition walletTransferDto :: "rule list" where
  "walletTransferDto = [must ''amount'' [amount_rule], may ''reference'' [reference_rule]]"

definition walletWithdrawalDto :: "rule list" where
  "walletWithdrawalDto =
     [must ''amount'' [amount_rule], may ''reference'' [reference_rule], may ''settlementAccountId'' [isString]]"

definition mobileMoneyPayoutDto :: "rule list" where
  "mobileMoneyPayoutDto =
     [must ''amount'' [amount_rule], must ''phoneNumber'' [isString, phone_rule],
      may ''reference'' [isString, reference_rule]]"

definition bankPayoutDto :: "rule list" where
  "bankPayoutDto =
     [must ''amount'' [amount_rule], must ''accountNumber'' [isString, minLength 3, maxLength 30],
      must ''accountName'' [isString, minLength 3, maxLength 100], must ''bic'' [isString, onText bicPattern],
      may ''transferType'' [isIn [''ACH'', ''RTGS'']], may ''reference'' [isString, reference_rule]]"

definition batchItemDto :: "rule list" where
  "batchItemDto =
     [must ''channel'' [isIn [''MOBILE_MONEY'', ''BANK'']], must ''amount'' [amount_rule],
      may ''phoneNumber'' [isString, phone_rule], may ''accountNumber'' [isString, maxLength 30],
      may ''accountName'' [isString, maxLength 100], may ''bic'' [isString, onText bicPattern],
      may ''reference'' [isString, reference_rule]]"

definition createBatchDto :: "rule list" where
  "createBatchDto =
     [must ''name'' [isString, minLength 2, maxLength 80],
      must ''items'' [isArray, arraySize 1 500, each (accepts batchItemDto)],
      may ''metadata'' [isObject]]"

definition mnoPayoutPreviewDto :: "rule list" where
  "mnoPayoutPreviewDto =
     [must ''amount'' [amount_rule], may ''currency'' [isString], must ''phoneNumber'' [isString]]"

definition createPayoutLinkDto :: "rule list" where
  "createPayoutLinkDto = [must ''amount'' [amount_rule], may ''expiresInMinutes'' [intBetween 1 1440]]"

definition payoutLinkDetailsDto :: "rule list" where
  "payoutLinkDetailsDto =
     [must ''phoneNumber'' [isString, phone_rule], must ''payoutMethod'' [isString, minLength 2, maxLength 40]]"

definition depositPreviewDto :: "rule list" where
  "depositPreviewDto =
     [must ''amount'' [amount_rule], may ''currency'' [isString], must ''phoneNumber'' [isString],
      may ''reference'' [reference_rule]]"

definition ussdPushPreviewDto :: "rule list" where
  "ussdPushPreviewDto =
     [must ''amount'' [amount_rule], may ''currency'' [isString, maxLength 10],
      must ''phoneNumber'' [isString, phone_rule], may ''fetchSenderDetails'' [isBoolean],
      may ''reference'' [isString, reference_rule]]"

definition sendSmsDto :: "library \<Rightarrow> rule list" where
  "sendSmsDto w =
     [may ''senderName'' [isString, onText senderPattern],
      must ''message'' [isString, minLength 1, maxLength 1600],
      must ''recipients'' [isArray, arraySize 1 250, each (onText loosePhone)],
      may ''scheduleAt'' [onText (or_date w)]]"

definition serviceKeys :: "string list" where
  "serviceKeys = [''COLLECTION'', ''DISBURSEMENT'', ''SMS'']"

definition createPlanDto :: "rule list" where
  "createPlanDto =
     [must ''name'' [isString, minLength 2, maxLength 60], may ''description'' [isString, maxLength 300],
      must ''services'' [isArray, each (isIn serviceKeys)], must ''recurringAmount'' [amount_rule],
      may ''periodDays'' [intBetween 1 365]]"

definition assignPlanDto :: "rule list" where
  "assignPlanDto = [must ''planId'' [isString]]"

definition createBillDto :: "library \<Rightarrow> rule list" where
  "createBillDto w =
     [must ''type'' [isIn [''SUBSCRIPTION'', ''PAY_AS_YOU_GO'', ''MANUAL'']],
      must ''title'' [isString, minLength 2, maxLength 120], may ''description'' [isString, maxLength 400],
      must ''amount'' [amount_rule], may ''isRecurring'' [isBoolean], may ''periodDays'' [intBetween 1 365],
      may ''dueDate'' [onText (or_date w)], may ''metadata'' [isObject]]"

definition loginDto :: "library \<Rightarrow> rule list" where
  "loginDto w =
     [must ''email'' [onText (or_email w)], must ''password'' [isString, minLength 8, maxLength 128]]"

definition createStaffDto :: "library \<Rightarrow> rule list" where
  "createStaffDto w =
     [must ''name'' [isString, minLength 2, maxLength 60], must ''email'' [onText (or_email w)],
      must ''password'' [isString, minLength 10, onText passwordPattern],
      must ''role'' [isIn [''ADMIN'', ''SERVICEMAN'']]]"

definition computationsQueryDto :: "rule list" where
  "computationsQueryDto =
     [may ''preset'' [isIn [''day'', ''month'', ''custom'']], may ''from'' [onText datePattern],
      may ''to'' [onText datePattern]]"

definition webhookEvents :: "string list" where
  "webhookEvents = [''COLLECTION_STATUS'', ''DISBURSEMENT_STATUS'', ''BATCH_STATUS'', ''SMS_STATUS'',
     ''WALLET_UPDATE'', ''DEPOSIT_STATUS'']"

definition createWebhookDto :: "library \<Rightarrow> rule list" where
  "createWebhookDto w =
     [must ''url'' [onText (or_url w)], must ''events'' [isArray, arrayMinSize 1, each (isIn webhookEvents)]]"

definition updateWebhookDto :: "library \<Rightarrow> rule list" where
  "updateWebhookDto w =
     [may ''url'' [onText (or_url w)], may ''events'' [isArray, each (isIn webhookEvents)],
      may ''_touch'' [isString, minLength 3, maxLength 60]]"

definition createApiKeyDto :: "rule list" where
  "createApiKeyDto = [may ''name'' [isString, maxLength 50]]"

definition permissionItemDto :: "rule list" where
  "permissionItemDto =
     [must ''service'' [isIn serviceKeys], must ''granted'' [isBoolean], may ''meta'' [isObject]]"

definition setPermissionsDto :: "rule list" where
  "setPermissionsDto = [must ''permissions'' [isArray, arraySize 1 3, each (accepts permissionItemDto)]]"

definition settlementInputDto :: "rule list" where
  "settlementInputDto =
     [must ''type'' [isIn [''MOBILE'', ''BANK'']],
      may ''method'' [isIn [''AIRTEL'', ''TIGO'', ''VODACOM'', ''HALOPESA'']],
      may ''phoneNumber'' [onText loosePhone], may ''bankName'' [isString, maxLength 80],
      may ''bankInitials'' [isString, maxLength 12], may ''accountNumber'' [isString, maxLength 40],
      may ''accountName'' [isString, maxLength 80]]"

text \<open>The rates of a fee override carry no decorator but \<open>IsOptional\<close>.\<close>

definition feeConfigInputDto :: "rule list" where
  "feeConfigInputDto =
     [may ''collectionBelowBps'' [], may ''collectionThreshold'' [isString], may ''collectionAboveBps'' [],
      may ''disbursementBelowBps'' [], may ''disbursementThreshold'' [isString],
      may ''disbursementAboveBps'' [], may ''transferBps'' []]"

definition createAccountDto :: "library \<Rightarrow> rule list" where
  "createAccountDto w =
     [must ''accountName'' [isString, minLength 2, maxLength 80], may ''contactEmail'' [onText (or_email w)],
      may ''contactPhone'' [isString, maxLength 20],
      may ''billingMode'' [isIn [''NONE'', ''SUBSCRIPTION'', ''PAY_AS_YOU_GO'']], may ''autoSweep'' [isBoolean],
      may ''settlement'' [isObject, accepts settlementInputDto], may ''fees'' [isObject, accepts feeConfigInputDto]]"

definition updateAccountDto :: "library \<Rightarrow> rule list" where
  "updateAccountDto w =
     [may ''accountName'' [isString, minLength 2, maxLength 80], may ''contactEmail'' [onText (or_email w)],
      may ''contactPhone'' [isString, maxLength 20]]"

definition suspendAccountDto :: "rule list" where
  "suspendAccountDto = [must ''suspendReason'' [isString, minLength 3, maxLength 300]]"

definition updateSettlementDto :: "rule list" where
  "updateSettlementDto = settlementInputDto @ [may ''isActive'' [isBoolean], may ''isDefault'' [isBoolean]]"

definition autoSweepDto :: "rule list" where
  "autoSweepDto = [must ''enabled'' [isBoolean]]"

definition updateFeeConfigDto :: "rule list" where
  "updateFeeConfigDto =
     [may ''collectionBelowBps'' [intBetween 0 10000], may ''collectionThreshold'' [isString],
      may ''collectionAboveBps'' [intBetween 0 10000], may ''disbursementBelowBps'' [intBetween 0 10000],
      may ''disbursementThreshold'' [isString], may ''disbursementAboveBps'' [intBetween 0 10000],
      may ''transferBps'' [intBetween 0 10000]]"

section \<open>From text to amounts\<close>

text \<open>\<open>new Prisma.Decimal(s)\<close> on a text of the amount pattern.\<close>

definition amountValue :: "string \<Rightarrow> rat" where
  "amountValue s =
     (let whole = takeWhile isDigit s; frac = drop 1 (dropWhile isDigit s)
      in of_int (digitsValue whole) + of_int (digitsValue frac) / 10 ^ length frac)"

definition bodyText :: "string \<Rightarrow> json \<Rightarrow> string" where
  "bodyText k body = (case field k body of JStr s \<Rightarrow> s | _ \<Rightarrow> [])"

definition bodyAmount :: "json \<Rightarrow> decimal" where
  "bodyAmount body = Fin (amountValue (bodyText ''amount'' body))"

definition bodyOption :: "string \<Rightarrow> json \<Rightarrow> string option" where
  "bodyOption k body = (case field k body of JStr s \<Rightarrow> Some s | _ \<Rightarrow> None)"

section \<open>Facts about the patterns\<close>

lemma digitsValue_snoc: "digitsValue (s @ [c]) = 10 * digitsValue s + int (digitOf c)"
  by (simp add: digitsValue_def)

lemma digitsValue_nonneg: "0 \<le> digitsValue s"
  by (induction s rule: rev_induct) (simp_all add: digitsValue_snoc, simp add: digitsValue_def)

lemma amountPattern_value:
  assumes "amountPattern s"
  shows "0 \<le> amountValue s" and "is_cents (amountValue s)"
proof -
  let ?w = "digitsValue (takeWhile isDigit s)" and ?f = "drop 1 (dropWhile isDigit s)"
  have len: "length ?f \<le> 2"
  proof (cases "dropWhile isDigit s")
    case Nil
    then show ?thesis by (simp only: Nil drop_Nil list.size)
  next
    case (Cons c cs)
    then show ?thesis using assms by (auto simp: amountPattern_def Let_def simp del: dropWhile_eq_Nil_conv)
  qed
  show "0 \<le> amountValue s" by (simp add: amountValue_def Let_def digitsValue_nonneg)
  have "amountValue s = of_int (?w * 100 + digitsValue ?f * 10 ^ (2 - length ?f)) / 100"
    using len by (auto simp: amountValue_def Let_def le_Suc_eq numeral_2_eq_2 digitsValue_def)
  then show "is_cents (amountValue s)" by (rule is_centsI)
qed

lemma ruleOk_must: "ruleOk body (must n cs) \<longleftrightarrow> list_all (\<lambda>c. c (field n body)) cs"
  by (simp add: ruleOk_def)

lemma acceptsD: "accepts rules body \<Longrightarrow> r \<in> set rules \<Longrightarrow> ruleOk body r"
  by (simp add: accepts_def split: json.splits)

lemma onText_field: "onText p (field k body) \<Longrightarrow> p (bodyText k body)"
  by (simp add: onText_def bodyText_def split: json.splits)

lemma accepts_amount:
  assumes "accepts rules body" and "must ''amount'' [amount_rule] \<in> set rules"
  obtains v where "bodyAmount body = Fin v" and "0 \<le> v" and "is_cents v"
proof -
  have "amountPattern (bodyText ''amount'' body)"
    using acceptsD [OF assms] by (auto simp: ruleOk_must amount_rule_def intro: onText_field)
  with amountPattern_value that show thesis by (simp add: bodyAmount_def)
qed


lemma acceptsD':
  assumes "accepts rules body" and "must n cs \<in> set rules" and "c \<in> set cs"
  shows "c (field n body)"
proof -
  have "\<forall>c \<in> set cs. c (field n body)"
    using acceptsD [OF assms(1,2)] by (simp add: ruleOk_must list_all_iff)
  then show ?thesis using assms(3) by (rule bspec)
qed

lemma alnum_not_space: "isAlnum c \<Longrightarrow> \<not> isSpaceChar c"
  by (auto simp: isAlnum_def isUpperAZ_def isLowerAZ_def isDigit_def isSpaceChar_def)

lemma isDigit_not_space: "isDigit c \<Longrightarrow> \<not> isSpaceChar c"
  by (auto simp: isDigit_def isSpaceChar_def)

lemma lower_upper: "isLowerAZ c \<Longrightarrow> isUpperAZ (toUpperChar c)"
proof -
  assume c: "isLowerAZ c"
  then have "(of_char c :: nat) - 32 < 256" unfolding isLowerAZ_def by linarith
  with c show ?thesis by (auto simp: toUpperChar_def isLowerAZ_def isUpperAZ_def)
qed

lemma not_lower_upper: "\<not> isLowerAZ c \<Longrightarrow> toUpperChar c = c"
  by (simp add: toUpperChar_def)

lemma alpha_upper: "isAlpha c \<Longrightarrow> isUpperAZ (toUpperChar c)"
  by (cases "isLowerAZ c") (auto simp: isAlpha_def lower_upper not_lower_upper)

lemma alnum_upper: "isAlnum c \<Longrightarrow> isUpperAZ (toUpperChar c) \<or> isDigit (toUpperChar c)"
  by (cases "isLowerAZ c") (auto simp: isAlnum_def lower_upper not_lower_upper)

lemma trim_alnum: "list_all isAlnum s \<Longrightarrow> trim s = s"
  by (cases "s = []") (simp_all add: list_all_iff alnum_not_space trim_id)

lemma subscriber_normalizes:
  assumes "subscriberPart q" and "s = q \<or> s = ''0'' @ q \<or> s = ''255'' @ q \<or> s = ''+255'' @ q"
  shows "normalizePhoneNumber s = Some (''255'' @ q)"
proof (rule normalize_digits)
  obtain c r where q: "q = c # r" "length r = 8" "c = CHR ''6'' \<or> c = CHR ''7''" "list_all isDigit q"
    using assms(1) by (cases q) (auto simp: subscriberPart_def)
  have d: "isDigit CHR ''0''" "isDigit CHR ''2''" "isDigit CHR ''5''" "\<not> isDigit CHR ''+''"
    by (simp_all add: isDigit_def)
  have dq: "filter isDigit q = q" using q(4) by (simp add: list_all_iff)
  have "digitsOnly s = q \<or> digitsOnly s = ''0'' @ q \<or> digitsOnly s = ''255'' @ q"
    using assms(2) by (elim disjE) (simp_all add: digitsOnly_def d dq)
  moreover have "withCountryCode q = ''255'' @ q"
    using q(1,2,3) by (auto simp: withCountryCode_def startsWith_def)
  moreover have "withCountryCode (''0'' @ q) = ''255'' @ q" "withCountryCode (''255'' @ q) = ''255'' @ q"
    by (simp_all add: withCountryCode_def startsWith_def)
  ultimately show "withCountryCode (digitsOnly s) = ''255'' @ q" by (elim disjE) (simp_all only:)
  have "(''255'' @ q) ! 3 = c" using q(1) by (simp add: eval_nat_numeral)
  then show "canonicalPhone (''255'' @ q)"
    using q d by (simp add: canonicalPhone_def)
qed

lemma startsWithD: "startsWith s p \<Longrightarrow> s = p @ drop (length p) s"
  by (metis append_take_drop_id startsWith_def)

lemma loosePhone_normalizes:
  assumes "loosePhone s"
  shows "\<exists>q. normalizePhoneNumber s = Some q"
proof -
  from assms consider "subscriberPart s"
    | "startsWith s ''+255''" "subscriberPart (drop 4 s)"
    | "startsWith s ''255''" "subscriberPart (drop 3 s)"
    | "startsWith s ''0''" "subscriberPart (drop 1 s)"
    by (auto simp: loosePhone_def)
  then show ?thesis
  proof cases
    case 1
    then show ?thesis using subscriber_normalizes [of s s] by blast
  next
    case 2
    moreover from 2(1) have "s = ''+255'' @ drop 4 s"
      using startsWithD [of s "''+255''"] by (simp add: eval_nat_numeral)
    ultimately show ?thesis using subscriber_normalizes [of "drop 4 s" s] by blast
  next
    case 3
    moreover from 3(1) have "s = ''255'' @ drop 3 s" 
      using startsWithD [of s "''255''"] by (simp add: eval_nat_numeral)
    ultimately show ?thesis using subscriber_normalizes [of "drop 3 s" s] by blast
  next
    case 4
    moreover from 4(1) have "s = ''0'' @ drop 1 s" using startsWithD [of s "''0''"] by simp
    ultimately show ?thesis using subscriber_normalizes [of "drop 1 s" s] by blast
  qed
qed

lemma strictPhone_canonical:
  assumes "strictPhone s"
  shows "canonicalPhone s"
proof -
  have "list_all isDigit (take 3 s @ drop 3 s)"
    using assms by (simp only: list_all_append strictPhone_def) (simp add: isDigit_def)
  then show ?thesis using assms by (simp add: strictPhone_def canonicalPhone_def)
qed

lemma strictPhone_fixed: "strictPhone s \<Longrightarrow> normalizePhoneNumber s = Some s"
  using strictPhone_canonical
  by (intro normalize_digits) (simp_all add: canonical_digits withCountryCode_canonical)

lemma bicPattern_valid: "bicPattern s \<Longrightarrow> isValidBic s"
proof -
  assume s: "bicPattern s"
  have "list_all isAlnum (take 6 s)" "list_all isAlnum (drop 6 s)"
    using s by (auto simp: bicPattern_def list_all_iff isAlpha_def isAlnum_def)
  then have "list_all isAlnum (take 6 s @ drop 6 s)" by (simp only: list_all_append)
  then have "trim s = s" by (simp add: trim_alnum)
  then show ?thesis
    using s by (simp add: isValidBic_def bicPattern_def toUpperCase_def take_map drop_map list_all_iff
        alpha_upper alnum_upper)
qed

lemma clientReference_sanitizes:
  assumes "clientReferencePattern s"
  shows "sanitizeClientReference (Some s) = Inr (Some (toUpperCase s))"
  using assms
  by (auto simp: clientReferencePattern_def sanitizeClientReference_def validClientPart_def trim_alnum Let_def
      toUpperCase_def list_all_iff dest: alnum_upper)


section \<open>Amounts as text\<close>

text \<open>\<open>d.toFixed(2)\<close> of a decimal that is not negative.\<close>

definition toFixed2 :: "rat \<Rightarrow> string" where
  "toFixed2 v =
     (let c = nat \<lfloor>round2 v * 100\<rfloor>; f = c mod 100
      in showNat (c div 100) @ CHR ''.'' # char_of (48 + f div 10) # [char_of (48 + f mod 10)])"

lemma digit_char: "n < 10 \<Longrightarrow> isDigit (char_of (48 + n)) \<and> digitOf (char_of (48 + n)) = n"
  by (simp add: isDigit_def digitOf_def)

lemma showNat_digits: "list_all isDigit (showNat n) \<and> showNat n \<noteq> [] \<and> digitsValue (showNat n) = int n"
proof (induction n rule: showNat.induct)
  case (1 n)
  show ?case
  proof (cases "n < 10")
    case True
    then have "showNat n = [char_of (48 + n)]" by (subst showNat.simps) simp
    then show ?thesis using digit_char [OF True] by (simp add: digitsValue_def)
  next
    case False
    have "showNat n = showNat (n div 10) @ [char_of (48 + n mod 10)]"
      using False by (subst showNat.simps) simp
    moreover have "n mod 10 < 10" by simp
    moreover have "int n = 10 * int (n div 10) + int (n mod 10)" by (simp add: zdiv_int zmod_int)
    ultimately show ?thesis
      using 1 [OF False] digit_char [of "n mod 10"] by (simp add: digitsValue_snoc)
  qed
qed

lemma toFixed2_parts:
  assumes "0 \<le> v" and "is_cents v"
  obtains c where "v = of_nat c / 100" and
    "toFixed2 v = showNat (c div 100) @ CHR ''.'' # char_of (48 + c mod 100 div 10) # [char_of (48 + c mod 100 mod 10)]"
proof -
  obtain k where k: "v = of_int k / 100" using assms(2) by (rule is_centsE)
  then have "0 \<le> k" using assms(1) by (simp add: zero_le_divide_iff)
  then have v: "v = of_nat (nat k) / 100" using k by simp
  have "round2 v * 100 = of_int k" unfolding round2_cents [OF assms(2)] using k by simp
  then have "\<lfloor>round2 v * 100\<rfloor> = k" by (simp only: floor_of_int)
  then have "nat \<lfloor>round2 v * 100\<rfloor> = nat k" by (simp only:)
  then show thesis using that [OF v] by (simp only: toFixed2_def Let_def)
qed


section \<open>Properties\<close>

text \<open>The texts of the amount pattern are amounts in cents that are not negative, and every such
  amount is read back from the text the services print for it (\<open>toFixed(2)\<close>): a client can send any
  amount the API has shown.\<close>

theorem amount_text_roundtrip:
  assumes "0 \<le> v" and "is_cents v"
  shows "amountPattern (toFixed2 v) \<and> amountValue (toFixed2 v) = v"
proof -
  obtain c where v: "v = of_nat c / 100" and
    shown: "toFixed2 v = showNat (c div 100) @ CHR ''.'' # char_of (48 + c mod 100 div 10) # [char_of (48 + c mod 100 mod 10)]"
    using assms by (rule toFixed2_parts)
  let ?w = "showNat (c div 100)" and ?f = "[char_of (48 + c mod 100 div 10), char_of (48 + c mod 100 mod 10)] :: string"
  have w: "list_all isDigit ?w" "?w \<noteq> []" "digitsValue ?w = int (c div 100)"
    using showNat_digits [of "c div 100"] by simp_all
  have ten: "c mod 100 div 10 < 10" "c mod 100 mod 10 < 10" by simp_all
  note f1 = digit_char [OF ten(1)] and f2 = digit_char [OF ten(2)]
  have dot: "\<not> isDigit CHR ''.''" by (simp add: isDigit_def)
  have take: "takeWhile isDigit (toFixed2 v) = ?w" and drop: "dropWhile isDigit (toFixed2 v) = CHR ''.'' # ?f"
    unfolding shown using w(1) dot by (simp_all add: list_all_iff takeWhile_append2 dropWhile_append2)
  have val: "digitsValue ?f = int (c mod 100)"
    using f1 f2 by (simp add: digitsValue_def zdiv_int zmod_int)
  have "amountPattern (toFixed2 v)"
    unfolding amountPattern_def take drop using w(2) f1 f2 by simp
  moreover have "amountValue (toFixed2 v) = v"
  proof -
    have "amountValue (toFixed2 v) = of_nat (c div 100) + of_nat (c mod 100) / 100"
      unfolding amountValue_def take drop using w(3) val by simp
    also have "\<dots> = of_nat (c div 100 * 100 + c mod 100) / 100"
      by (simp only: of_nat_add of_nat_mult add_divide_distrib)
    finally show ?thesis by (simp only: v div_mult_mod_eq)
  qed
  ultimately show ?thesis by simp
qed

theorem amount_text_roundtrip_witness:
  "toFixed2 (3001 / 2) = ''1500.50'' \<and> amountPattern ''1500.50'' \<and> amountValue ''1500.50'' = 3001 / 2"
proof -
  have c: "is_cents (3001 / 2)" by (rule is_centsI [of _ 150050]) simp
  then have "toFixed2 (3001 / 2) = ''1500.50''"
    by (simp add: toFixed2_def Let_def showNat.simps char_of_def bit_0)
  then show ?thesis using c amount_text_roundtrip [of "3001 / 2"] by simp
qed

end
