(* ===== verification/Collections.thy ===== *)
theory Collections
  imports Providers Reference Pagination
begin

text \<open>
  collections/collections.service.ts and deposits/deposits.service.ts: taking money in by USSD push.
  A request is checked, pushed to the payment rail and stored; the money moves later, when the
  status engine (TxnStatus) sees a success, by webhook, manual refresh or the polling cron. The two
  services differ in the table, in the wallet that is credited and in the fee.
\<close>

section \<open>Requests\<close>

record push_dto =
  pd_amount :: decimal
  pd_currency :: "string option"
  pd_phoneNumber :: string
  pd_fetchSenderDetails :: bool
  pd_reference :: "string option"

definition currencyOf :: "string option \<Rightarrow> string" where
  "currencyOf c = (case c of None \<Rightarrow> ''TZS'' | Some x \<Rightarrow> x)"

definition sourceCodeOf :: "ident \<Rightarrow> db \<Rightarrow> string option" where
  "sourceCodeOf acct d = map_option a_sourceCode (findAccount acct d)"

definition sourceCode :: "ident \<Rightarrow> (db, string) action" where
  "sourceCode acct = fetch (NotFound NOT_FOUND) (sourceCodeOf acct)"

definition pushRequest :: "push_dto \<Rightarrow> string \<Rightarrow> bool \<Rightarrow> ussd_request" where
  "pushRequest dto reference details =
     \<lparr>uq_amount = pd_amount dto, uq_currency = currencyOf (pd_currency dto),
      uq_orderReference = reference, uq_phoneNumber = pd_phoneNumber dto,
      uq_fetchSenderDetails = details\<rparr>"

text \<open>\<open>new Prisma.Decimal(amount)\<close> stored in a \<open>Decimal(20,2)\<close> column.\<close>

definition decimalColumn :: "decimal \<Rightarrow> (db, rat) action" where
  "decimalColumn a = (case a of Fin v \<Rightarrow> ret (round2 v) | _ \<Rightarrow> raise DecimalError)"

text \<open>What the provider said about a push: the status of the new row.\<close>

definition pushedStatus :: "ussd_initiated provider_result \<Rightarrow> tx_status" where
  "pushedStatus r = (if rs_ok r
     then mapProviderStatus (case rs_data r of None \<Rightarrow> None | Some x \<Rightarrow> ui_status x) else TxPENDING)"

definition providerFailure :: "'a provider_result \<Rightarrow> string" where
  "providerFailure r = (case rs_error r of None \<Rightarrow> ''provider error'' | Some m \<Rightarrow> m)"

definition preview ::
    "env \<Rightarrow> collection_provider \<Rightarrow> bool \<Rightarrow> ident \<Rightarrow> push_dto \<Rightarrow> (db, ussd_preview option) action" where
  "preview e rail details acct dto =
     andThen (sourceCode acct) (\<lambda>code.
     andThen (liftE (buildReference (draw e 0) code (pd_reference dto))) (\<lambda>reference.
     let result = cp_previewUssdPush rail (pushRequest dto reference details)
     in thenDo (require (rs_ok result) (Forbidden PROVIDER_ERROR)) (ret (rs_data result))))"

text \<open>The status filter of a listing: an unknown status is refused by Prisma.\<close>

fun txStatusOf :: "string \<Rightarrow> tx_status option" where
  "txStatusOf s =
     (if s = ''PENDING'' then Some TxPENDING else if s = ''PROCESSING'' then Some TxPROCESSING
      else if s = ''SUCCESS'' then Some TxSUCCESS else if s = ''FAILED'' then Some TxFAILED
      else if s = ''REVERSED'' then Some TxREVERSED else if s = ''REFUNDED'' then Some TxREFUNDED
      else if s = ''EXPIRED'' then Some TxEXPIRED else None)"

declare txStatusOf.simps [simp del]

definition statusFilter :: "string option \<Rightarrow> (db, tx_status option) action" where
  "statusFilter s =
     (if \<not> truthy s then ret None
      else case txStatusOf (toUpperCase (the s)) of
        None \<Rightarrow> raise (JsError ''PrismaClientValidationError'')
      | Some x \<Rightarrow> ret (Some x))"

definition openStatus :: "tx_status \<Rightarrow> bool" where
  "openStatus s \<longleftrightarrow> s = TxPENDING \<or> s = TxPROCESSING"

definition firstRecord :: "provider_record list provider_result \<Rightarrow> provider_record option" where
  "firstRecord r = (if rs_ok r then case rs_data r of Some (x # _) \<Rightarrow> Some x | _ \<Rightarrow> None else None)"

section \<open>Collections\<close>

definition newCollection ::
    "env \<Rightarrow> string \<Rightarrow> ident \<Rightarrow> push_dto \<Rightarrow> string \<Rightarrow> ussd_initiated provider_result \<Rightarrow> rat \<Rightarrow> ident
     \<Rightarrow> collection_row" where
  "newCollection e railName acct dto reference result amount i =
     \<lparr>c_id = i, c_account = acct, c_reference = reference,
      c_clientReference = map_option toUpperCase (pd_reference dto), c_channel = MOBILE_MONEY,
      c_provider = railName, c_amount = amount, c_currency = currencyOf (pd_currency dto),
      c_phoneNumber = pd_phoneNumber dto, c_status = pushedStatus result,
      c_providerTxId = (case rs_data result of None \<Rightarrow> None | Some x \<Rightarrow> ui_id x),
      c_providerStatus = (case rs_data result of None \<Rightarrow> None | Some x \<Rightarrow> ui_status x),
      c_paymentReference = None, c_collectedAmount = None, c_collectedCurrency = None,
      c_feeAmount = None, c_feeBps = None, c_message = None, c_failureReason = None,
      c_customer = None, c_walletCreditedAt = None, c_createdAt = now e, c_updatedAt = now e\<rparr>"

definition createCollection :: "(ident \<Rightarrow> collection_row) \<Rightarrow> (db, collection_row) action" where
  "createCollection mk = (\<lambda>d.
     let row = mk (next_id d) in
     if c_reference row \<in> c_reference ` set (collections d) then (Inl UniqueViolation, d)
     else (Inr row, d\<lparr>collections := collections d @ [row], next_id := Suc (next_id d)\<rparr>))"

definition collectionDupe :: "ident \<Rightarrow> string option \<Rightarrow> db \<Rightarrow> bool" where
  "collectionDupe acct ref d \<longleftrightarrow> truthy ref \<and> (\<exists>c \<in> set (collections d).
     c_account c = acct \<and> c_clientReference c = map_option toUpperCase ref)"

definition initiateCollection ::
    "env \<Rightarrow> collection_provider \<Rightarrow> ident \<Rightarrow> push_dto \<Rightarrow> (db, collection_row) action" where
  "initiateCollection e rail acct dto =
     andThen (sourceCode acct) (\<lambda>code.
     thenDo (case buildReference (draw e 0) code (pd_reference dto) of
               Inl _ \<Rightarrow> raise (Forbidden INVALID_REFERENCE) | Inr _ \<Rightarrow> ret ())
     (andThen (query (collectionDupe acct (pd_reference dto))) (\<lambda>dupe.
      thenDo (require (\<not> dupe) (Conflict DUPLICATE_REFERENCE))
      (andThen (liftE (buildReference (draw e 1) code (pd_reference dto))) (\<lambda>orderRef.
       let result = cp_initiateUssdPush rail (pushRequest dto orderRef False) in
       andThen (decimalColumn (pd_amount dto)) (\<lambda>amount.
       andThen (createCollection (newCollection e (cp_name rail) acct dto orderRef result amount)) (\<lambda>c.
       if \<not> rs_ok result then
         thenDo (modify (updateCollection (c_id c) (\<lambda>r. r\<lparr>c_status := TxFAILED,
             c_failureReason := Some (providerFailure result),
             c_message := orOld (rs_error result) (c_message r), c_updatedAt := now e\<rparr>)))
         (raise (Forbidden PROVIDER_ERROR))
       else
         thenDo (track e ''collection.initiated'' (Some (RowId acct)) (Some amount))
         (ret c))))))))"

definition collectionOf :: "ident \<Rightarrow> string \<Rightarrow> db \<Rightarrow> collection_row option" where
  "collectionOf acct ref d = List.find (\<lambda>c. c_reference c = ref \<and> c_account c = acct) (collections d)"

definition getCollection :: "ident \<Rightarrow> string \<Rightarrow> (db, collection_row) action" where
  "getCollection acct ref = fetch (NotFound NOT_FOUND) (collectionOf acct ref)"

definition listCollections ::
    "ident \<Rightarrow> nat \<Rightarrow> nat \<Rightarrow> string option \<Rightarrow> (db, collection_row list \<times> nat) action" where
  "listCollections acct skip n status =
     andThen (statusFilter status) (\<lambda>st. query (\<lambda>d.
       let rows = filter (\<lambda>c. c_account c = acct \<and> (case st of None \<Rightarrow> True | Some s \<Rightarrow> c_status c = s))
                    (collections d)
       in (window skip n (orderDesc c_createdAt rows), length rows)))"

definition refreshCollection ::
    "env \<Rightarrow> collection_provider \<Rightarrow> ident \<Rightarrow> string \<Rightarrow> (db, collection_row) action" where
  "refreshCollection e rail acct ref =
     andThen (getCollection acct ref) (\<lambda>c.
       if c_status c \<in> set FINAL_STATUSES then ret c
       else case firstRecord (cp_queryPayment rail (c_reference c)) of
         None \<Rightarrow> ret c
       | Some rc \<Rightarrow> thenDo (applyCollectionUpdate e (c_reference c) rc) (getCollection acct ref))"

definition dueCollections :: "env \<Rightarrow> db \<Rightarrow> collection_row list" where
  "dueCollections e d = take (cfg_pollBatch (cfg e)) (orderAsc c_createdAt
     (filter (\<lambda>c. openStatus (c_status c) \<and> c_createdAt c \<le> now e - cfg_pollAfter (cfg e))
       (collections d)))"

definition pollCollection :: "env \<Rightarrow> collection_provider \<Rightarrow> string \<Rightarrow> (db, unit) action" where
  "pollCollection e rail ref =
     andThen (query (findCollection ref)) (\<lambda>found.
     case found of
       None \<Rightarrow> ret ()
     | Some _ \<Rightarrow>
         (case firstRecord (cp_queryPayment rail ref) of
            None \<Rightarrow> ret ()
          | Some rc \<Rightarrow> thenDo (applyCollectionUpdate e ref rc) (ret ())))"

definition pollPendingCollections :: "env \<Rightarrow> collection_provider \<Rightarrow> (db, nat) action" where
  "pollPendingCollections e rail =
     andThen (query (dueCollections e)) (\<lambda>pending.
     thenDo (forEach (pollCollection e rail) (map c_reference pending)) (ret (length pending)))"

section \<open>Deposits\<close>

definition newDeposit ::
    "env \<Rightarrow> string \<Rightarrow> ident \<Rightarrow> ident \<Rightarrow> push_dto \<Rightarrow> string \<Rightarrow> ussd_initiated provider_result \<Rightarrow> rat \<Rightarrow> ident
     \<Rightarrow> deposit_row" where
  "newDeposit e railName acct wallet dto reference result amount i =
     \<lparr>d_id = i, d_account = acct, d_wallet = wallet, d_reference = reference,
      d_clientReference = map_option toUpperCase (pd_reference dto), d_channel = MOBILE_MONEY,
      d_provider = railName, d_amount = amount, d_currency = currencyOf (pd_currency dto),
      d_phoneNumber = pd_phoneNumber dto, d_status = pushedStatus result,
      d_providerTxId = (case rs_data result of None \<Rightarrow> None | Some x \<Rightarrow> ui_id x),
      d_providerStatus = (case rs_data result of None \<Rightarrow> None | Some x \<Rightarrow> ui_status x),
      d_paymentReference = None, d_collectedAmount = None, d_collectedCurrency = None,
      d_message = None, d_failureReason = None, d_customer = None, d_walletCreditedAt = None,
      d_createdAt = now e, d_updatedAt = now e\<rparr>"

definition createDeposit :: "(ident \<Rightarrow> deposit_row) \<Rightarrow> (db, deposit_row) action" where
  "createDeposit mk = (\<lambda>d.
     let row = mk (next_id d) in
     if d_reference row \<in> d_reference ` set (deposits d) then (Inl UniqueViolation, d)
     else (Inr row, d\<lparr>deposits := deposits d @ [row], next_id := Suc (next_id d)\<rparr>))"

definition depositDupe :: "ident \<Rightarrow> string option \<Rightarrow> db \<Rightarrow> bool" where
  "depositDupe acct ref d \<longleftrightarrow> truthy ref \<and> (\<exists>r \<in> set (deposits d).
     d_account r = acct \<and> d_clientReference r = map_option toUpperCase ref)"

definition initiateDeposit ::
    "env \<Rightarrow> collection_provider \<Rightarrow> ident \<Rightarrow> push_dto \<Rightarrow> (db, deposit_row) action" where
  "initiateDeposit e rail acct dto =
     andThen (sourceCode acct) (\<lambda>code.
     andThen (fetch (NotFound WALLET_NOT_FOUND) (findWallet acct WDISBURSEMENT)) (\<lambda>w.
     andThen (case buildReference (draw e 0) code (pd_reference dto) of
               Inl _ \<Rightarrow> raise (Forbidden INVALID_REFERENCE) | Inr r \<Rightarrow> ret r) (\<lambda>reference.
     andThen (query (depositDupe acct (pd_reference dto))) (\<lambda>dupe.
      thenDo (require (\<not> dupe) (Conflict DUPLICATE_REFERENCE))
      (let result = cp_initiateUssdPush rail (pushRequest dto reference False) in
       andThen (decimalColumn (pd_amount dto)) (\<lambda>amount.
       andThen (createDeposit (newDeposit e (cp_name rail) acct (w_id w) dto reference result amount)) (\<lambda>r.
       if \<not> rs_ok result then
         thenDo (modify (updateDeposit (d_id r) (\<lambda>x. x\<lparr>d_status := TxFAILED,
             d_failureReason := Some (providerFailure result),
             d_message := orOld (rs_error result) (d_message x), d_updatedAt := now e\<rparr>)))
         (raise (Forbidden PROVIDER_ERROR))
       else
         thenDo (track e ''deposit.initiated'' (Some (RowId acct)) (Some amount))
         (ret r))))))))"

definition depositOf :: "ident \<Rightarrow> string \<Rightarrow> db \<Rightarrow> deposit_row option" where
  "depositOf acct ref d = List.find (\<lambda>r. d_reference r = ref \<and> d_account r = acct) (deposits d)"

definition getDeposit :: "ident \<Rightarrow> string \<Rightarrow> (db, deposit_row) action" where
  "getDeposit acct ref = fetch (NotFound NOT_FOUND) (depositOf acct ref)"

definition listDeposits ::
    "ident \<Rightarrow> nat \<Rightarrow> nat \<Rightarrow> string option \<Rightarrow> (db, deposit_row list \<times> nat) action" where
  "listDeposits acct skip n status =
     andThen (statusFilter status) (\<lambda>st. query (\<lambda>d.
       let rows = filter (\<lambda>r. d_account r = acct \<and> (case st of None \<Rightarrow> True | Some s \<Rightarrow> d_status r = s))
                    (deposits d)
       in (window skip n (orderDesc d_createdAt rows), length rows)))"

definition refreshDeposit ::
    "env \<Rightarrow> collection_provider \<Rightarrow> ident \<Rightarrow> string \<Rightarrow> (db, deposit_row) action" where
  "refreshDeposit e rail acct ref =
     andThen (getDeposit acct ref) (\<lambda>r.
       if d_status r \<in> set FINAL_STATUSES then ret r
       else case firstRecord (cp_queryPayment rail (d_reference r)) of
         None \<Rightarrow> ret r
       | Some rc \<Rightarrow> thenDo (applyDepositUpdate e (d_reference r) rc) (getDeposit acct ref))"

definition dueDeposits :: "env \<Rightarrow> db \<Rightarrow> deposit_row list" where
  "dueDeposits e d = take (cfg_pollBatch (cfg e)) (orderAsc d_createdAt
     (filter (\<lambda>r. openStatus (d_status r) \<and> d_createdAt r \<le> now e - cfg_pollAfter (cfg e))
       (deposits d)))"

definition pollDeposit :: "env \<Rightarrow> collection_provider \<Rightarrow> string \<Rightarrow> (db, unit) action" where
  "pollDeposit e rail ref =
     andThen (query (findDeposit ref)) (\<lambda>found.
     case found of
       None \<Rightarrow> ret ()
     | Some _ \<Rightarrow>
         (case firstRecord (cp_queryPayment rail ref) of
            None \<Rightarrow> ret ()
          | Some rc \<Rightarrow> thenDo (applyDepositUpdate e ref rc) (ret ())))"

definition pollPendingDeposits :: "env \<Rightarrow> collection_provider \<Rightarrow> (db, nat) action" where
  "pollPendingDeposits e rail =
     andThen (query (dueDeposits e)) (\<lambda>pending.
     thenDo (forEach (pollDeposit e rail) (map d_reference pending)) (ret (length pending)))"


section \<open>Lemmas\<close>

lemma keeps_sourceCode [keeps_rules]: "keeps P (sourceCode acct)"
  unfolding sourceCode_def by (rule keeps_fetch)

lemma keeps_decimalColumn [keeps_rules]: "keeps P (decimalColumn a)"
  by (simp add: decimalColumn_def keeps_ret keeps_raise split: decimal.split)

lemma andThen_decimalColumn [run]:
  "andThen (decimalColumn a) k d = (case a of Fin v \<Rightarrow> k (round2 v) d | _ \<Rightarrow> (Inl DecimalError, d))"
  by (simp add: decimalColumn_def raise_run split: decimal.split)

lemma andThen_track [run]:
  "andThen (track e name acct v) k d = k () (d\<lparr>analytics := analytics d @
     [\<lparr>an_name = name, an_value = v, an_account = acct, an_createdAt = now e\<rparr>]\<rparr>)"
  by (simp add: track_def)

lemma andThen_createCollection [run]:
  "andThen (createCollection mk) k d =
     (if c_reference (mk (next_id d)) \<in> c_reference ` set (collections d) then (Inl UniqueViolation, d)
      else k (mk (next_id d)) (d\<lparr>collections := collections d @ [mk (next_id d)], next_id := Suc (next_id d)\<rparr>))"
  by (simp add: createCollection_def andThen_def Let_def)

text \<open>The checks of a collection request, before anything is pushed.\<close>

definition collectionSpec :: "env \<Rightarrow> ident \<Rightarrow> push_dto \<Rightarrow> db \<Rightarrow> err + string \<times> rat" where
  "collectionSpec e acct dto d =
     (case sourceCodeOf acct d of None \<Rightarrow> Inl (NotFound NOT_FOUND)
      | Some code \<Rightarrow> (case buildReference (draw e 0) code (pd_reference dto) of
          Inl _ \<Rightarrow> Inl (Forbidden INVALID_REFERENCE)
        | Inr _ \<Rightarrow> if collectionDupe acct (pd_reference dto) d then Inl (Conflict DUPLICATE_REFERENCE)
            else (case buildReference (draw e 1) code (pd_reference dto) of
              Inl err \<Rightarrow> Inl err
            | Inr ref \<Rightarrow> (case pd_amount dto of
                Fin v \<Rightarrow> if ref \<in> c_reference ` set (collections d) then Inl UniqueViolation
                        else Inr (ref, round2 v)
              | _ \<Rightarrow> Inl DecimalError))))"

definition pushed :: "env \<Rightarrow> collection_provider \<Rightarrow> ident \<Rightarrow> push_dto \<Rightarrow> string \<Rightarrow> rat \<Rightarrow> db \<Rightarrow> collection_row" where
  "pushed e rail acct dto ref v d = newCollection e (cp_name rail) acct dto ref
     (cp_initiateUssdPush rail (pushRequest dto ref False)) v (next_id d)"

definition addCollection :: "collection_row \<Rightarrow> db \<Rightarrow> db" where
  "addCollection c d = d\<lparr>collections := collections d @ [c], next_id := Suc (next_id d)\<rparr>"

lemma newCollection_fields [simp]:
  "c_id (newCollection e rn acct dto ref r v i) = i"
  "c_account (newCollection e rn acct dto ref r v i) = acct"
  "c_reference (newCollection e rn acct dto ref r v i) = ref"
  "c_clientReference (newCollection e rn acct dto ref r v i) = map_option toUpperCase (pd_reference dto)"
  "c_status (newCollection e rn acct dto ref r v i) = pushedStatus r"
  "c_walletCreditedAt (newCollection e rn acct dto ref r v i) = None"
  "c_amount (newCollection e rn acct dto ref r v i) = v"
  by (simp_all add: newCollection_def)

lemma initiateCollection_run:
  "initiateCollection e rail acct dto d = (case collectionSpec e acct dto d of
     Inl err \<Rightarrow> (Inl err, d)
   | Inr (ref, v) \<Rightarrow> (let c = pushed e rail acct dto ref v d; d' = addCollection c d;
         result = cp_initiateUssdPush rail (pushRequest dto ref False)
       in if rs_ok result then (Inr c, d'\<lparr>analytics := analytics d @
              [\<lparr>an_name = ''collection.initiated'', an_value = Some v, an_account = Some (RowId acct),
                an_createdAt = now e\<rparr>]\<rparr>)
          else (Inl (Forbidden PROVIDER_ERROR), updateCollection (c_id c) (\<lambda>r. r\<lparr>c_status := TxFAILED,
             c_failureReason := Some (providerFailure result),
             c_message := orOld (rs_error result) (c_message r), c_updatedAt := now e\<rparr>) d')))"
proof (cases "sourceCodeOf acct d")
  case None
  then show ?thesis by (simp add: initiateCollection_def collectionSpec_def sourceCode_def run)
next
  case (Some code)
  note code = Some
  show ?thesis
  proof (cases "buildReference (draw e 0) code (pd_reference dto)")
    case (Inl a)
    then show ?thesis using code by (simp add: initiateCollection_def collectionSpec_def sourceCode_def run)
  next
    case (Inr r)
    note r = Inr
    show ?thesis
    proof (cases "buildReference (draw e 1) code (pd_reference dto)")
      case (Inl a)
      then show ?thesis using code r
        by (simp add: initiateCollection_def collectionSpec_def sourceCode_def run)
    next
      case (Inr ref)
      then show ?thesis using code r
        by (cases "pd_amount dto")
          (simp_all add: initiateCollection_def collectionSpec_def sourceCode_def run
              pushed_def addCollection_def Let_def)
    qed
  qed
qed

lemma initiateCollection_Inr:
  assumes "initiateCollection e rail acct dto d = (Inr c, d')"
  obtains ref v an where "collectionSpec e acct dto d = Inr (ref, v)"
    and "rs_ok (cp_initiateUssdPush rail (pushRequest dto ref False))"
    and "c = pushed e rail acct dto ref v d" and "d' = (addCollection c d)\<lparr>analytics := an\<rparr>"
  using assms initiateCollection_run [of e rail acct dto d]
  by (auto simp: Let_def split: sum.splits prod.splits if_splits)

lemma collectionSpec_Inr:
  assumes "collectionSpec e acct dto d = Inr (ref, v)"
  obtains code where "sourceCodeOf acct d = Some code"
    and "buildReference (draw e 1) code (pd_reference dto) = Inr ref"
    and "ref \<notin> c_reference ` set (collections d)" and "\<exists>x. pd_amount dto = Fin x \<and> v = round2 x"
    and "\<exists>r. buildReference (draw e 0) code (pd_reference dto) = Inr r"
  using assms by (auto simp: collectionSpec_def split: option.splits sum.splits decimal.splits if_splits)


lemma isSpace_toUpper [simp]: "isSpaceChar (toUpperChar c) = isSpaceChar c"
  by (auto simp: isSpaceChar_def toUpperChar_def isLowerAZ_def)

lemma trim_toUpper: "trim (toUpperCase s) = toUpperCase (trim s)"
  by (simp add: trim_def toUpperCase_def dropWhile_map rev_map comp_def)

lemma sanitize_upper:
  "map_option toUpperCase a = map_option toUpperCase b \<Longrightarrow> sanitizeClientReference a = sanitizeClientReference b"
  by (cases a; cases b) (simp_all add: sanitizeClientReference_def trim_toUpper [symmetric])

lemma reference_upper:
  assumes "map_option toUpperCase a = map_option toUpperCase b"
    and "\<exists>r. buildReference rnd code a = Inr r"
  shows "\<exists>r. buildReference rnd' code b = Inr r"
  using assms(2) sanitize_upper [OF assms(1)]
  by (auto simp: buildReference_def Let_def randomChars_def split: sum.splits option.splits if_splits)

lemma findCollection_new:
  "c_reference c \<notin> c_reference ` set (collections d) \<Longrightarrow>
     findCollection (c_reference c) ((addCollection c d)\<lparr>analytics := an\<rparr>) = Some c"
  unfolding findCollection_def
  by (rule find_unique) (auto simp: addCollection_def, metis image_eqI)

lemma sourceCodeOf_add [simp]: "sourceCodeOf a ((addCollection c d)\<lparr>analytics := an\<rparr>) = sourceCodeOf a d"
  by (simp add: sourceCodeOf_def findAccount_def addCollection_def)

lemma status_inv_addCollection:
  assumes "status_inv d" and "c_reference c \<notin> c_reference ` set (collections d)"
    and "c_id c \<notin> c_id ` set (collections d)"
    and "ledgerCount COLLECTION_CREDIT (c_reference c) d = 0"
  shows "status_inv ((addCollection c d)\<lparr>analytics := an\<rparr>)"
proof -
  let ?d = "(addCollection c d)\<lparr>analytics := an\<rparr>"
  have "ledger_ok ?d"
    using assms(1) ledger_ok_cong [of ?d d] by (simp add: status_inv_def addCollection_def)
  moreover have "ledgerCount x k ?d = ledgerCount x k d" for x k
    by (simp add: ledgerCount_def addCollection_def)
  ultimately show ?thesis
    using assms by (simp add: status_inv_def once_defs once_ok_def addCollection_def)
qed

section \<open>Properties\<close>

text \<open>C23: an accepted collection request stores exactly one row, under a fresh twenty-character
  reference that starts with the account's source code, with the requested amount, and moves no
  money. Its client reference is then used up: another request of the account with the same
  reference, in any letter case and on any rail, is refused as a duplicate without any change.\<close>

theorem initiate_collection_once:
  assumes "initiateCollection e rail acct dto d = (Inr c, d')"
  shows "(\<exists>code. sourceCodeOf acct d = Some code \<and> length (c_reference c) = 20 \<and>
       take 5 (c_reference c) = code) \<and>
    c_reference c \<notin> c_reference ` set (collections d) \<and>
    collections d' = collections d @ [c] \<and> c_account c = acct \<and>
    pd_amount dto \<in> {Fin v | v. c_amount c = round2 v} \<and> c_walletCreditedAt c = None \<and>
    wallets d' = wallets d \<and> wallet_txs d' = wallet_txs d \<and>
    (truthy (pd_reference dto) \<and> map_option toUpperCase (pd_reference dto') = map_option toUpperCase (pd_reference dto)
       \<longrightarrow> initiateCollection e' rail' acct dto' d' = (Inl (Conflict DUPLICATE_REFERENCE), d'))"
proof -
  obtain ref v an where spec: "collectionSpec e acct dto d = Inr (ref, v)"
    and c: "c = pushed e rail acct dto ref v d" and d': "d' = (addCollection c d)\<lparr>analytics := an\<rparr>"
    by (rule initiateCollection_Inr [OF assms]) (rule that; assumption)
  obtain code where code: "sourceCodeOf acct d = Some code"
    and ref: "buildReference (draw e 1) code (pd_reference dto) = Inr ref"
    and fresh: "ref \<notin> c_reference ` set (collections d)"
    and amt: "\<exists>x. pd_amount dto = Fin x \<and> v = round2 x"
    by (rule collectionSpec_Inr [OF spec]) (rule that; assumption)
  have fmt: "length ref = 20 \<and> take 5 ref = code"
    using ref by (auto simp: buildReference_def Let_def SOURCE_CODE_LENGTH_def REFERENCE_LENGTH_def
        CLIENT_REF_LENGTH_def split: sum.splits option.splits if_splits)
  have dup: "initiateCollection e' rail' acct dto' d' = (Inl (Conflict DUPLICATE_REFERENCE), d')"
    if "truthy (pd_reference dto)"
      and "map_option toUpperCase (pd_reference dto') = map_option toUpperCase (pd_reference dto)"
  proof -
    note same = that(2) [symmetric]
    have t: "truthy (pd_reference dto')"
      using that by (cases "pd_reference dto"; cases "pd_reference dto'") (auto simp: truthy_def toUpperCase_def)
    obtain r where "buildReference (draw e' 0) code (pd_reference dto') = Inr r"
      using reference_upper [OF same] ref by blast
    moreover have "collectionDupe acct (pd_reference dto') d'"
      using t that(2) by (auto simp: collectionDupe_def d' addCollection_def c pushed_def)
    ultimately have "collectionSpec e' acct dto' d' = Inl (Conflict DUPLICATE_REFERENCE)"
      using code by (simp add: collectionSpec_def d')
    then show ?thesis by (simp add: initiateCollection_run)
  qed
  have "collections d' = collections d @ [c]" "wallets d' = wallets d" "wallet_txs d' = wallet_txs d"
    by (simp_all add: d' addCollection_def)
  then show ?thesis
    using code fmt fresh amt dup by (auto simp: c pushed_def)
qed

definition sample_push_db :: db where
  "sample_push_db = sample_db\<lparr>accounts := map (\<lambda>a. a\<lparr>a_sourceCode := ''SHOP1''\<rparr>) (accounts sample_db)\<rparr>"

definition sample_push :: push_dto where
  "sample_push = \<lparr>pd_amount = Fin 1000, pd_currency = None, pd_phoneNumber = ''255712345678'',
     pd_fetchSenderDetails = False, pd_reference = Some ''order42''\<rparr>"

definition sample_rail :: "string \<Rightarrow> collection_provider" where
  "sample_rail status = (mockCollectionProvider 0 quiet_mock)\<lparr>cp_initiateUssdPush := (\<lambda>q.
     okResult \<lparr>ui_id = None, ui_status = Some status, ui_channel = [],
       ui_orderReference = uq_orderReference q, ui_collectedAmount = Fin 0, ui_collectedCurrency = []\<rparr>)\<rparr>"

lemma sample_push_runs:
  "case initiateCollection default_env (sample_rail ''ACCEPTED'') 0 sample_push sample_push_db of
     (Inr c, d') \<Rightarrow> c_status c = TxSUCCESS | _ \<Rightarrow> False"
  by code_simp

lemma sample_push_ok: "status_inv sample_push_db"
  using sample_db_ok ledger_ok_cong [of sample_push_db sample_db]
  by (simp add: status_inv_def once_defs once_ok_def sample_push_db_def sample_db_def empty_db_def)

theorem initiate_collection_once_witness:
  "\<exists>c d'. initiateCollection default_env (sample_rail ''ACCEPTED'') 0 sample_push sample_push_db = (Inr c, d') \<and>
     initiateCollection default_env (sample_rail ''FAILED'') 0 sample_push d'
       = (Inl (Conflict DUPLICATE_REFERENCE), d')"
proof -
  obtain c d' where run: "initiateCollection default_env (sample_rail ''ACCEPTED'') 0 sample_push
      sample_push_db = (Inr c, d')"
    using sample_push_runs by (auto split: prod.splits sum.splits)
  have "truthy (pd_reference sample_push)" by (simp add: sample_push_def truthy_def)
  then show ?thesis using initiate_collection_once [OF run] run by blast
qed

text \<open>A collection whose provider answers the push itself with a success status (ACCEPTED is
  one) is stored as SUCCESS and is never credited: every later success report for it is a no-op, a
  refresh does not ask the provider, and no poll selects it.\<close>

theorem sync_success_never_credited:
  assumes "initiateCollection e rail acct dto d = (Inr c, d')" and "c_status c = TxSUCCESS"
    and "mapProviderStatus (pr_status rc) = TxSUCCESS"
  shows "applyCollectionUpdate e' (c_reference c) rc d' = (Inr (True, Some TxSUCCESS), d') \<and>
    refreshCollection e' rail' acct (c_reference c) d' = (Inr c, d') \<and>
    c \<notin> set (dueCollections e' d') \<and> c \<in> set (collections d') \<and> c_walletCreditedAt c = None \<and>
    wallets d' = wallets d"
proof -
  obtain ref v an where spec: "collectionSpec e acct dto d = Inr (ref, v)"
    and c: "c = pushed e rail acct dto ref v d" and d': "d' = (addCollection c d)\<lparr>analytics := an\<rparr>"
    by (rule initiateCollection_Inr [OF assms(1)]) (rule that; assumption)
  have fresh: "ref \<notin> c_reference ` set (collections d)"
    by (rule collectionSpec_Inr [OF spec])
  have cr: "c_reference c = ref" "c_account c = acct" "c_walletCreditedAt c = None"
    by (simp_all add: c pushed_def)
  have found: "findCollection (c_reference c) d' = Some c"
    unfolding d' using fresh cr by (intro findCollection_new) simp
  have own: "collectionOf acct (c_reference c) d' = Some c"
  proof (unfold collectionOf_def, rule find_unique)
    show "c \<in> set (collections d')" by (simp add: d' addCollection_def)
    fix y assume "y \<in> set (collections d')" "c_reference y = c_reference c \<and> c_account y = acct"
    then show "y = c" using fresh cr image_eqI [of "c_reference y" c_reference y "set (collections d)"]
      by (auto simp: d' addCollection_def)
  qed (simp add: cr)
  have "applyCollectionUpdate e' (c_reference c) rc d' = (Inr (True, Some TxSUCCESS), d')"
    using collection_skip [OF found, of rc e'] assms(2,3)
    by (simp add: collectionSkips_def FINAL_STATUSES_def)
  moreover have "refreshCollection e' rail' acct (c_reference c) d' = (Inr c, d')"
    using own assms(2) by (simp add: refreshCollection_def getCollection_def run ret_run FINAL_STATUSES_def)
  moreover have "c \<notin> set (dueCollections e' d')"
    using assms(2) by (auto simp: dueCollections_def orderAsc_def openStatus_def dest: in_set_takeD)
  ultimately show ?thesis using cr by (simp add: d' addCollection_def)
qed

theorem sync_success_never_credited_witness:
  "\<exists>c d'. initiateCollection default_env (sample_rail ''ACCEPTED'') 0 sample_push sample_push_db = (Inr c, d') \<and>
     applyCollectionUpdate default_env (c_reference c) (sample_record ''SUCCESS'') d'
       = (Inr (True, Some TxSUCCESS), d')"
proof -
  obtain c d' where run: "initiateCollection default_env (sample_rail ''ACCEPTED'') 0 sample_push
      sample_push_db = (Inr c, d')" and st: "c_status c = TxSUCCESS"
    using sample_push_runs by (auto split: prod.splits sum.splits)
  have "mapProviderStatus (pr_status (sample_record ''SUCCESS'')) = TxSUCCESS" by code_simp
  from sync_success_never_credited [OF run st this] run show ?thesis by blast
qed

end
