(* ===== verification/Disbursements.thy ===== *)
theory Disbursements
  imports Collections Receiver
begin

text \<open>
  disbursements/disbursements.service.ts: paying money out of the DISBURSEMENT wallet, one payout
  at a time, in batches, or through one-time payout links. A payout takes its amount and fee from the
  wallet when it is requested; the queue later calls the payout rail, and the status engine gives
  the money back if the rail refuses. SHA-256 of link tokens is a parameter.
\<close>

section \<open>Requests\<close>

record payout_dto =
  po_amount :: decimal
  po_reference :: "string option"
  po_phoneNumber :: "string option"
  po_accountNumber :: "string option"
  po_accountName :: "string option"
  po_bic :: "string option"
  po_transferType :: "string option"

text \<open>\<open>normalizePhoneNumber(p ?? '') ?? p\<close>.\<close>

definition storedPhone :: "string option \<Rightarrow> string option" where
  "storedPhone p = (case normalizePhoneNumber (case p of None \<Rightarrow> [] | Some s \<Rightarrow> s) of
     Some n \<Rightarrow> Some n | None \<Rightarrow> p)"

section \<open>Single payouts\<close>

definition payoutDupe :: "ident \<Rightarrow> string option \<Rightarrow> db \<Rightarrow> bool" where
  "payoutDupe acct ref d \<longleftrightarrow> truthy ref \<and> (\<exists>p \<in> set (payouts d).
     p_account p = acct \<and> p_clientReference p = map_option toUpperCase ref)"

definition newPayout ::
    "env \<Rightarrow> ident \<Rightarrow> channel \<Rightarrow> payout_dto \<Rightarrow> string \<Rightarrow> computed_fee \<Rightarrow> rat \<Rightarrow> ident \<Rightarrow> payout_row" where
  "newPayout e acct ch dto reference fee amount i =
     (let bank = (\<lambda>x. if ch = BANK then x else None) in
      \<lparr>p_id = i, p_account = acct, p_batchId = None, p_channel = ch, p_reference = reference,
       p_clientReference = map_option toUpperCase (po_reference dto), p_sourceWallet = WDISBURSEMENT,
       p_payoutKind = CUSTOMER, p_amount = round2 amount, p_currency = ''TZS'',
       p_phoneNumber = (if ch = MOBILE_MONEY then storedPhone (po_phoneNumber dto) else None),
       p_accountNumber = bank (po_accountNumber dto), p_accountName = bank (po_accountName dto),
       p_bic = bank (po_bic dto), p_transferType = bank (po_transferType dto),
       p_status = TxPENDING, p_providerTxId = None, p_providerStatus = None, p_fee = None,
       p_feeAmount = Some (round2 (feeAmount fee)), p_feeBps = Some (feeBps fee), p_message = None,
       p_walletDebitedAt = Some (now e), p_refundedAt = None, p_createdAt = now e,
       p_updatedAt = now e\<rparr>)"

definition insertPayout :: "(ident \<Rightarrow> payout_row) \<Rightarrow> (db, payout_row) action" where
  "insertPayout mk = (\<lambda>d.
     let row = mk (next_id d) in
     if p_reference row \<in> p_reference ` set (payouts d) then (Inl UniqueViolation, d)
     else (Inr row, d\<lparr>payouts := payouts d @ [row], next_id := Suc (next_id d)\<rparr>))"

definition finiteAmount :: "decimal \<Rightarrow> (db, rat) action" where
  "finiteAmount a = (case a of Fin v \<Rightarrow> ret v | _ \<Rightarrow> raise DecimalError)"

text \<open>After the hold: the row, its job and the analytics event.\<close>

definition storePayout ::
    "env \<Rightarrow> ident \<Rightarrow> channel \<Rightarrow> payout_dto \<Rightarrow> string \<Rightarrow> rat \<Rightarrow> computed_fee \<Rightarrow> (db, payout_row) action" where
  "storePayout e acct ch dto reference amount fee =
     andThen (insertPayout (newPayout e acct ch dto reference fee amount)) (\<lambda>p.
     thenDo (enqueue e ''payout.process'' (PayoutProcess (p_id p)) 0)
     (thenDo (track e ''payout.initiated'' (Some (RowId acct)) (Some amount))
     (ret p)))"

definition createPayout :: "env \<Rightarrow> ident \<Rightarrow> channel \<Rightarrow> payout_dto \<Rightarrow> (db, payout_row) action" where
  "createPayout e acct ch dto =
     andThen (sourceCode acct) (\<lambda>code.
     andThen (case buildReference (draw e 0) code (po_reference dto) of
               Inl _ \<Rightarrow> raise (BadRequest INVALID_REFERENCE) | Inr r \<Rightarrow> ret r) (\<lambda>reference.
     andThen (query (payoutDupe acct (po_reference dto))) (\<lambda>dupe.
     thenDo (require (\<not> dupe) (Conflict DUPLICATE_REFERENCE))
     (andThen (finiteAmount (po_amount dto)) (\<lambda>amount.
      andThen (computeFee FeeDISBURSEMENT acct (Fin amount)) (\<lambda>fee.
      thenDo (holdMove PAYOUT_DEBIT e (Some reference) ActorAPI_KEY (Some (Row acct))
                (acct, WDISBURSEMENT) (round2 (amount + feeAmount fee)))
      (storePayout e acct ch dto reference amount fee)))))))"

definition findPayoutById :: "ident \<Rightarrow> db \<Rightarrow> payout_row option" where
  "findPayoutById i d = List.find (\<lambda>p. p_id p = i) (payouts d)"

text \<open>The call of the rail for a payout row; a missing text column is the empty text.\<close>

definition orEmpty :: "string option \<Rightarrow> string" where
  "orEmpty s = (case s of None \<Rightarrow> [] | Some x \<Rightarrow> x)"

definition railPayout ::
    "payout_provider \<Rightarrow> payout_row \<Rightarrow> string option \<Rightarrow> provider_record provider_result" where
  "railPayout rail p transferType =
     (if p_channel p = MOBILE_MONEY
      then pp_createMobileMoneyPayout rail \<lparr>mq_amount = p_amount p, mq_currency = ''TZS'',
             mq_orderReference = p_reference p, mq_phoneNumber = orEmpty (p_phoneNumber p)\<rparr>
      else pp_createBankPayout rail \<lparr>bq_amount = p_amount p,
             bq_accountNumber = orEmpty (p_accountNumber p), bq_accountName = orEmpty (p_accountName p),
             bq_orderReference = p_reference p, bq_bic = orEmpty (p_bic p),
             bq_accountCurrency = ''TZS'', bq_currency = ''TZS'', bq_transferType = transferType\<rparr>)"

definition failedRecord :: "string option \<Rightarrow> provider_record" where
  "failedRecord msg = \<lparr>pr_status = Some ''FAILED'', pr_id = None, pr_paymentReference = None,
     pr_collectedAmount = None, pr_collectedCurrency = None, pr_message = msg, pr_customer = None,
     pr_fee = None\<rparr>"

text \<open>What the status engine is told about a payout call.\<close>

definition railOutcome :: "provider_record provider_result \<Rightarrow> provider_record" where
  "railOutcome r =
     (case (rs_ok r, rs_data r) of
        (True, Some rc) \<Rightarrow> rc\<lparr>pr_status := Some (case pr_status rc of None \<Rightarrow> ''PENDING'' | Some s \<Rightarrow> s)\<rparr>
      | _ \<Rightarrow> failedRecord (rs_error r))"

definition processPayoutJob :: "env \<Rightarrow> payout_provider \<Rightarrow> ident \<Rightarrow> (db, unit) action" where
  "processPayoutJob e rail i =
     andThen (query (findPayoutById i)) (\<lambda>found.
     case found of
       None \<Rightarrow> ret ()
     | Some p \<Rightarrow>
         if p_status p \<noteq> TxPENDING then ret ()
         else ignored (applyPayoutUpdate e (p_reference p)
                (railOutcome (railPayout rail p (p_transferType p)))))"

section \<open>Preview\<close>

fun operatorName :: "mobile_operator \<Rightarrow> string" where
  "operatorName (Operator AIRTEL) = ''AIRTEL''"
| "operatorName (Operator TIGO) = ''TIGO''"
| "operatorName (Operator VODACOM) = ''VODACOM''"
| "operatorName (Operator HALOPESA) = ''HALOPESA''"
| "operatorName UNKNOWN = ''UNKNOWN''"

record payout_preview =
  pw_phoneNumber :: string
  pw_operator :: mobile_operator
  pw_amount :: rat
  pw_currency :: string
  pw_fee :: computed_fee
  pw_totalDebit :: rat
  pw_beneficiaryReceives :: rat
  pw_activeMethods :: "ussd_method list"
  pw_providerPreviewError :: "string option"

definition validPhone :: "string option \<Rightarrow> (db, string) action" where
  "validPhone p = (case normalizePhoneNumber (orEmpty p) of
     None \<Rightarrow> raise (BadRequest VALIDATION_FAILED) | Some n \<Rightarrow> ret n)"

definition positiveAmount :: "decimal \<Rightarrow> (db, rat) action" where
  "positiveAmount a = andThen (finiteAmount a) (\<lambda>v.
     thenDo (require (\<not> v \<le> 0) (BadRequest VALIDATION_FAILED)) (ret v))"

definition previewMobileMoneyPayout ::
    "payout_provider \<Rightarrow> ident \<Rightarrow> decimal \<Rightarrow> string option \<Rightarrow> string option \<Rightarrow> (db, payout_preview) action" where
  "previewMobileMoneyPayout rail acct amt currency phoneNumber =
     andThen (validPhone phoneNumber) (\<lambda>phone.
     andThen (positiveAmount amt) (\<lambda>amount.
     andThen (computeFee FeeDISBURSEMENT acct (Fin amount)) (\<lambda>fee.
     let operator = detectMobileOperator phone;
         providerResult = map_option (\<lambda>pv. pv \<lparr>mq_amount = amount, mq_currency = ''TZS'',
            mq_orderReference = ''PREVIEW-ONLY'', mq_phoneNumber = phone\<rparr>) (pp_previewMnoPayout rail);
         merged = (case providerResult of None \<Rightarrow> None
                   | Some r \<Rightarrow> if rs_ok r then rs_data r else None);
         error = (case providerResult of None \<Rightarrow> ''provider preview unavailable''
                  | Some r \<Rightarrow> (case rs_error r of None \<Rightarrow> ''provider preview unavailable'' | Some m \<Rightarrow> m))
     in ret \<lparr>pw_phoneNumber = phone, pw_operator = operator, pw_amount = round2 amount,
          pw_currency = currencyOf currency, pw_fee = fee,
          pw_totalDebit = round2 (amount + feeAmount fee), pw_beneficiaryReceives = round2 amount,
          pw_activeMethods = (case merged of Some m \<Rightarrow> up_activeMethods m
             | None \<Rightarrow> [\<lparr>um_name = operatorName operator, um_status = ''AVAILABLE'', um_fee = 0\<rparr>]),
          pw_providerPreviewError = (case merged of Some _ \<Rightarrow> None | None \<Rightarrow> Some error)\<rparr>)))"

section \<open>Payout links\<close>

record link_view =
  lv_id :: ident
  lv_amount :: rat
  lv_currency :: string
  lv_expiresAt :: int
  lv_url :: string

text \<open>\<open>baseUrl.replace(/\/$/, '')\<close>.\<close>

definition stripSlash :: "string \<Rightarrow> string" where
  "stripSlash s = (if s \<noteq> [] \<and> last s = CHR ''/'' then butlast s else s)"

definition createPayoutLink ::
    "(string \<Rightarrow> string) \<Rightarrow> string \<Rightarrow> env \<Rightarrow> ident \<Rightarrow> decimal \<Rightarrow> int option \<Rightarrow> (db, link_view) action" where
  "createPayoutLink sha token e acct amt expiresInMinutes =
     thenDo (fetch (NotFound NOT_FOUND) (findAccount acct))
     (andThen (positiveAmount amt) (\<lambda>amount. \<lambda>d.
       let minutes = (case expiresInMinutes of None \<Rightarrow> 15 | Some m \<Rightarrow> m);
           link = \<lparr>l_id = next_id d, l_account = acct, l_tokenHash = sha token,
             l_amount = round2 amount, l_currency = ''TZS'', l_expiresAt = now e + minutes * 60000,
             l_redeemedAt = None, l_recipientPhone = None, l_payoutMethod = None,
             l_beneficiaryName = None, l_payoutId = None, l_createdAt = now e\<rparr>
       in if sha token \<in> l_tokenHash ` set (payout_links d) then (Inl UniqueViolation, d)
          else (Inr \<lparr>lv_id = l_id link, lv_amount = round2 amount, lv_currency = l_currency link,
                  lv_expiresAt = l_expiresAt link,
                  lv_url = stripSlash (cfg_publicBaseUrl (cfg e)) @ ''/payout/'' @ token\<rparr>,
                d\<lparr>payout_links := payout_links d @ [link], next_id := Suc (next_id d)\<rparr>)))"

definition findLink :: "string \<Rightarrow> db \<Rightarrow> payout_link_row option" where
  "findLink hash d = List.find (\<lambda>l. l_tokenHash l = hash) (payout_links d)"

definition activeLink :: "env \<Rightarrow> string \<Rightarrow> db \<Rightarrow> payout_link_row option" where
  "activeLink e hash d =
     (case findLink hash d of None \<Rightarrow> None
      | Some l \<Rightarrow> if l_redeemedAt l \<noteq> None \<or> l_expiresAt l \<le> now e then None else Some l)"

definition findActivePayoutLink :: "(string \<Rightarrow> string) \<Rightarrow> env \<Rightarrow> string \<Rightarrow> (db, payout_link_row) action" where
  "findActivePayoutLink sha e token = fetch (NotFound NOT_FOUND) (activeLink e (sha token))"

definition getPayoutLink :: "(string \<Rightarrow> string) \<Rightarrow> env \<Rightarrow> string \<Rightarrow> (db, rat \<times> string \<times> int) action" where
  "getPayoutLink sha e token = andThen (findActivePayoutLink sha e token)
     (\<lambda>l. ret (round2 (l_amount l), l_currency l, l_expiresAt l))"

record resolved_recipient =
  rr_amount :: rat
  rr_currency :: string
  rr_phoneNumber :: string
  rr_payoutMethod :: string
  rr_beneficiaryName :: "string option"
  rr_operator :: string

definition resolvePayoutLinkRecipient ::
    "(string \<Rightarrow> string) \<Rightarrow> env \<Rightarrow> payout_provider \<Rightarrow> string \<Rightarrow> string option \<Rightarrow> string
     \<Rightarrow> (db, resolved_recipient) action" where
  "resolvePayoutLinkRecipient sha e rail token phoneNumber payoutMethod =
     andThen (findActivePayoutLink sha e token) (\<lambda>l.
     andThen (validPhone phoneNumber) (\<lambda>phone.
     let sender = (case pp_previewMnoPayout rail of None \<Rightarrow> None
           | Some pv \<Rightarrow> (case rs_data (pv \<lparr>mq_amount = l_amount l, mq_currency = ''TZS'',
                 mq_orderReference = ''LINK-PREVIEW'', mq_phoneNumber = phone\<rparr>) of
               None \<Rightarrow> None | Some v \<Rightarrow> up_sender v))
     in ret \<lparr>rr_amount = round2 (l_amount l), rr_currency = l_currency l, rr_phoneNumber = phone,
          rr_payoutMethod = trim payoutMethod, rr_beneficiaryName = map_option us_accountName sender,
          rr_operator = (case sender of Some s \<Rightarrow> us_accountProvider s
                         | None \<Rightarrow> operatorName (detectMobileOperator phone))\<rparr>))"

definition updateLink :: "ident \<Rightarrow> (payout_link_row \<Rightarrow> payout_link_row) \<Rightarrow> db \<Rightarrow> db" where
  "updateLink i f d = d\<lparr>payout_links := updateWhere (\<lambda>l. l_id l = i) f (payout_links d)\<rparr>"

text \<open>The locked transaction: \<open>SELECT ... FOR UPDATE\<close>, the two checks, the consuming update.\<close>

definition consumeLink :: "env \<Rightarrow> string \<Rightarrow> resolved_recipient \<Rightarrow> (db, payout_link_row) action" where
  "consumeLink e hash resolved =
     transaction (
       andThen (fetch (Conflict CONFLICT) (findLink hash)) (\<lambda>row.
       thenDo (require (l_redeemedAt row = None) (Conflict CONFLICT))
       (thenDo (require (\<not> l_expiresAt row \<le> now e) (NotFound NOT_FOUND))
       (let f = (\<lambda>l. l\<lparr>l_redeemedAt := Some (now e), l_recipientPhone := Some (rr_phoneNumber resolved),
                       l_payoutMethod := Some (rr_payoutMethod resolved),
                       l_beneficiaryName := rr_beneficiaryName resolved\<rparr>)
        in thenDo (modify (updateLink (l_id row) f)) (ret (f row))))))"

definition linkPayout :: "payout_link_row \<Rightarrow> string \<Rightarrow> payout_dto" where
  "linkPayout l phone = \<lparr>po_amount = Fin (round2 (l_amount l)), po_reference = None,
     po_phoneNumber = Some phone, po_accountNumber = None, po_accountName = None, po_bic = None,
     po_transferType = None\<rparr>"

definition confirmPayoutLink ::
    "(string \<Rightarrow> string) \<Rightarrow> env \<Rightarrow> payout_provider \<Rightarrow> string \<Rightarrow> string option \<Rightarrow> string
     \<Rightarrow> (db, payout_row \<times> string option) action" where
  "confirmPayoutLink sha e rail token phoneNumber payoutMethod =
     andThen (resolvePayoutLinkRecipient sha e rail token phoneNumber payoutMethod) (\<lambda>resolved.
     andThen (consumeLink e (sha token) resolved) (\<lambda>l.
     andThen (createPayout e (l_account l) MOBILE_MONEY (linkPayout l (rr_phoneNumber resolved))) (\<lambda>p.
     thenDo (modify (updateLink (l_id l) (\<lambda>x. x\<lparr>l_payoutId := Some (p_id p)\<rparr>)))
     (ret (p, rr_beneficiaryName resolved)))))"


section \<open>Batches\<close>

record batch_item =
  bi_channel :: channel
  bi_dto :: payout_dto

record batch_dto =
  bd_name :: string
  bd_items :: "batch_item list"

text \<open>The fields an item must have; an empty text counts as missing.\<close>

definition itemComplete :: "batch_item \<Rightarrow> bool" where
  "itemComplete it \<longleftrightarrow>
     (if bi_channel it = MOBILE_MONEY then truthy (po_phoneNumber (bi_dto it))
      else truthy (po_accountNumber (bi_dto it)) \<and> truthy (po_accountName (bi_dto it)) \<and>
           truthy (po_bic (bi_dto it)))"

fun sumAmounts :: "batch_item list \<Rightarrow> rat \<Rightarrow> (db, rat) action" where
  "sumAmounts [] acc = ret acc"
| "sumAmounts (it # its) acc =
     andThen (finiteAmount (po_amount (bi_dto it))) (\<lambda>v. sumAmounts its (acc + v))"

definition itemRow ::
    "env \<Rightarrow> ident \<Rightarrow> ident \<Rightarrow> batch_item \<Rightarrow> string \<Rightarrow> rat \<Rightarrow> ident \<Rightarrow> payout_row" where
  "itemRow e acct batch it reference amount i =
     (let dto = bi_dto it; ch = bi_channel it; bank = (\<lambda>x. if ch = BANK then x else None) in
      \<lparr>p_id = i, p_account = acct, p_batchId = Some batch, p_channel = ch, p_reference = reference,
       p_clientReference = map_option toUpperCase (po_reference dto), p_sourceWallet = WDISBURSEMENT,
       p_payoutKind = CUSTOMER, p_amount = round2 amount, p_currency = ''TZS'',
       p_phoneNumber = (if ch = MOBILE_MONEY then storedPhone (po_phoneNumber dto) else None),
       p_accountNumber = bank (po_accountNumber dto), p_accountName = bank (po_accountName dto),
       p_bic = bank (po_bic dto), p_transferType = bank (po_transferType dto),
       p_status = TxPENDING, p_providerTxId = None, p_providerStatus = None, p_fee = None,
       p_feeAmount = None, p_feeBps = None, p_message = None, p_walletDebitedAt = Some (now e),
       p_refundedAt = None, p_createdAt = now e, p_updatedAt = now e\<rparr>)"

text \<open>The rows of the items: item \<open>n\<close> draws its reference with the \<open>n\<close>-th random draw after the
  batch's own; any client reference the format refuses ends the loop with an error.\<close>

fun itemRows ::
    "env \<Rightarrow> ident \<Rightarrow> string \<Rightarrow> ident \<Rightarrow> nat \<Rightarrow> ident \<Rightarrow> batch_item list \<Rightarrow> err + payout_row list" where
  "itemRows e acct code batch n i [] = Inr []"
| "itemRows e acct code batch n i (it # its) =
     (case buildReference (draw e n) code (po_reference (bi_dto it)) of
        Inl err \<Rightarrow> Inl err
      | Inr ref \<Rightarrow> (case po_amount (bi_dto it) of
          Fin v \<Rightarrow> (case itemRows e acct code batch (Suc n) (Suc i) its of
              Inl err \<Rightarrow> Inl err
            | Inr rows \<Rightarrow> Inr (itemRow e acct batch it ref v i # rows))
        | _ \<Rightarrow> Inl DecimalError))"

definition newBatch :: "env \<Rightarrow> ident \<Rightarrow> batch_dto \<Rightarrow> string \<Rightarrow> rat \<Rightarrow> ident \<Rightarrow> batch_row" where
  "newBatch e acct dto reference total_amount i =
     \<lparr>b_id = i, b_account = acct, b_name = trim (bd_name dto), b_reference = reference,
      b_status = BatchPROCESSING, b_totalCount = length (bd_items dto),
      b_totalAmount = round2 total_amount, b_successCount = 0, b_failedCount = 0,
      b_createdAt = now e\<rparr>"

text \<open>\<open>createMany\<close>: one insert; a reference that is taken or repeated refuses them all.\<close>

definition batchTx ::
    "env \<Rightarrow> ident \<Rightarrow> string \<Rightarrow> batch_dto \<Rightarrow> string \<Rightarrow> rat \<Rightarrow> (db, batch_row) action" where
  "batchTx e acct code dto reference total_amount = (\<lambda>d.
     let b = newBatch e acct dto reference total_amount (next_id d) in
     if reference \<in> b_reference ` set (batches d) then (Inl UniqueViolation, d)
     else case itemRows e acct code (b_id b) 1 (Suc (next_id d)) (bd_items dto) of
       Inl err \<Rightarrow> (Inl err, d)
     | Inr rows \<Rightarrow>
         if \<not> distinct (map p_reference rows) \<or>
            (\<exists>p \<in> set rows. p_reference p \<in> p_reference ` set (payouts d))
         then (Inl UniqueViolation, d)
         else (Inr b, d\<lparr>batches := batches d @ [b], payouts := payouts d @ rows,
                        next_id := Suc (next_id d) + length rows\<rparr>))"

definition createBatch :: "env \<Rightarrow> ident \<Rightarrow> batch_dto \<Rightarrow> (db, batch_row) action" where
  "createBatch e acct dto =
     andThen (sourceCode acct) (\<lambda>code.
     thenDo (require (list_all itemComplete (bd_items dto)) (BadRequest VALIDATION_FAILED))
     (andThen (sumAmounts (bd_items dto) 0) (\<lambda>total_amount.
      andThen (liftE (buildReference (draw e 0) code None)) (\<lambda>reference.
      thenDo (holdMove BATCH_HOLD e (Some reference) ActorAPI_KEY (Some (Row acct))
                (acct, WDISBURSEMENT) (round2 total_amount))
      (andThen (transaction (batchTx e acct code dto reference total_amount)) (\<lambda>b.
       andThen (query (\<lambda>d. map p_id (orderAsc p_createdAt (batchPayouts (b_id b) d)))) (\<lambda>ids.
       thenDo (enqueue e ''batch.process'' (BatchProcess (b_id b) ids) 0)
       (thenDo (track e ''batch.created'' (Some (RowId acct)) (Some total_amount))
       (ret b)))))))))"

definition processBatchItem :: "env \<Rightarrow> payout_provider \<Rightarrow> ident \<Rightarrow> (db, unit) action" where
  "processBatchItem e rail i =
     andThen (query (findPayoutById i)) (\<lambda>found.
     case found of
       None \<Rightarrow> ret ()
     | Some p \<Rightarrow>
         if p_status p \<noteq> TxPENDING then ret ()
         else let result = railPayout rail p None in
           ignored (applyPayoutUpdate e (p_reference p)
             (case (rs_ok result, rs_data result) of
                (True, Some rc) \<Rightarrow> rc | _ \<Rightarrow> failedRecord (rs_error result))))"

definition processBatchJob :: "env \<Rightarrow> payout_provider \<Rightarrow> ident list \<Rightarrow> (db, unit) action" where
  "processBatchJob e rail ids = forEach (processBatchItem e rail) ids"

section \<open>Queries and polling\<close>

definition payoutOf :: "ident \<Rightarrow> string \<Rightarrow> db \<Rightarrow> payout_row option" where
  "payoutOf acct ref d = List.find (\<lambda>p. p_reference p = ref \<and> p_account p = acct) (payouts d)"

definition getPayout ::
    "ident \<Rightarrow> string \<Rightarrow> (db, payout_row \<times> (string \<times> string) option) action" where
  "getPayout acct ref =
     andThen (fetch (NotFound NOT_FOUND) (payoutOf acct ref)) (\<lambda>p. query (\<lambda>d.
       (p, case p_batchId p of None \<Rightarrow> None
           | Some b \<Rightarrow> map_option (\<lambda>r. (b_reference r, b_name r)) (findBatch b d))))"

definition listPayouts ::
    "ident \<Rightarrow> nat \<Rightarrow> nat \<Rightarrow> string option \<Rightarrow> ident option \<Rightarrow> (db, payout_row list \<times> nat) action" where
  "listPayouts acct skip n status batch =
     andThen (statusFilter status) (\<lambda>st. query (\<lambda>d.
       let rows = filter (\<lambda>p. p_account p = acct \<and>
             (case st of None \<Rightarrow> True | Some s \<Rightarrow> p_status p = s) \<and>
             (case batch of None \<Rightarrow> True | Some b \<Rightarrow> p_batchId p = Some b)) (payouts d)
       in (window skip n (orderDesc p_createdAt rows), length rows)))"

definition getBatch :: "ident \<Rightarrow> string \<Rightarrow> (db, batch_row \<times> payout_row list) action" where
  "getBatch acct ref =
     andThen (fetch (NotFound NOT_FOUND)
        (\<lambda>d. List.find (\<lambda>b. b_reference b = ref \<and> b_account b = acct) (batches d))) (\<lambda>b.
     query (\<lambda>d. (b, orderAsc p_createdAt (batchPayouts (b_id b) d))))"

definition listBatches :: "ident \<Rightarrow> nat \<Rightarrow> nat \<Rightarrow> (db, batch_row list \<times> nat) action" where
  "listBatches acct skip n = query (\<lambda>d.
     let rows = filter (\<lambda>b. b_account b = acct) (batches d)
     in (window skip n (orderDesc b_createdAt rows), length rows))"

definition duePayouts :: "env \<Rightarrow> db \<Rightarrow> payout_row list" where
  "duePayouts e d = take (cfg_pollBatch (cfg e)) (orderAsc p_createdAt
     (filter (\<lambda>p. openStatus (p_status p) \<and> p_createdAt p \<le> now e - cfg_pollAfter (cfg e))
       (payouts d)))"

definition pollPayout :: "env \<Rightarrow> payout_provider \<Rightarrow> string \<Rightarrow> (db, unit) action" where
  "pollPayout e rail ref =
     (case firstRecord (pp_queryPayout rail ref) of
        None \<Rightarrow> ret ()
      | Some rc \<Rightarrow> ignored (applyPayoutUpdate e ref rc))"

definition pollPendingPayouts :: "env \<Rightarrow> payout_provider \<Rightarrow> (db, unit) action" where
  "pollPendingPayouts e rail =
     andThen (query (duePayouts e)) (\<lambda>pending.
     forEach (pollPayout e rail) (map p_reference pending))"


section \<open>Lemmas\<close>

lemma andThen_finiteAmount [run]:
  "andThen (finiteAmount a) k d = (case a of Fin v \<Rightarrow> k v d | _ \<Rightarrow> (Inl DecimalError, d))"
  by (simp add: finiteAmount_def raise_run split: decimal.split)

lemma andThen_computeFee [run]:
  "andThen (computeFee kd acct (Fin v)) k d = (case getConfig acct d of
     (Inl err, d1) \<Rightarrow> (Inl err, d1) | (Inr c, d1) \<Rightarrow> k (tierFee kd c v) d1)"
  by (simp add: computeFee_def andThen_def ret_run split: prod.split sum.split)

lemma andThen_insertPayout [run]:
  "andThen (insertPayout mk) k d =
     (if p_reference (mk (next_id d)) \<in> p_reference ` set (payouts d) then (Inl UniqueViolation, d)
      else k (mk (next_id d)) (d\<lparr>payouts := payouts d @ [mk (next_id d)], next_id := Suc (next_id d)\<rparr>))"
  by (simp add: insertPayout_def andThen_def Let_def)

lemma andThen_enqueue [run]:
  "andThen (enqueue e q payload delay) k d = k (next_id d) (snd (enqueue e q payload delay d))"
  by (simp add: enqueue_def andThen_def Let_def)

text \<open>What happens after the hold: the row, the job, the event.\<close>

definition addPayout :: "env \<Rightarrow> payout_row \<Rightarrow> rat \<Rightarrow> db \<Rightarrow> db" where
  "addPayout e p v d = snd (track e ''payout.initiated'' (Some (RowId (p_account p))) (Some v)
     (snd (enqueue e ''payout.process'' (PayoutProcess (p_id p)) 0
       (d\<lparr>payouts := payouts d @ [p], next_id := Suc (next_id d)\<rparr>))))"

definition payoutChecks :: "env \<Rightarrow> ident \<Rightarrow> payout_dto \<Rightarrow> db \<Rightarrow> err + string \<times> rat" where
  "payoutChecks e acct dto d =
     (case sourceCodeOf acct d of None \<Rightarrow> Inl (NotFound NOT_FOUND)
      | Some code \<Rightarrow> (case buildReference (draw e 0) code (po_reference dto) of
          Inl _ \<Rightarrow> Inl (BadRequest INVALID_REFERENCE)
        | Inr ref \<Rightarrow> if payoutDupe acct (po_reference dto) d then Inl (Conflict DUPLICATE_REFERENCE)
            else (case po_amount dto of Fin v \<Rightarrow> Inr (ref, v) | _ \<Rightarrow> Inl DecimalError)))"

lemma storePayout_run:
  "storePayout e acct ch dto ref v fee d =
     (let p = newPayout e acct ch dto ref fee v (next_id d) in
      if ref \<in> p_reference ` set (payouts d) then (Inl UniqueViolation, d)
      else (Inr p, addPayout e p v d))"
  by (simp add: storePayout_def run Let_def addPayout_def newPayout_def track_def)

lemma createPayout_run:
  "createPayout e acct ch dto d = (case payoutChecks e acct dto d of
     Inl err \<Rightarrow> (Inl err, d)
   | Inr (ref, v) \<Rightarrow> (case getConfig acct d of
       (Inl err, d1) \<Rightarrow> (Inl err, d1)
     | (Inr c, d1) \<Rightarrow> (let fee = tierFee FeeDISBURSEMENT c v in
         case holdMove PAYOUT_DEBIT e (Some ref) ActorAPI_KEY (Some (Row acct)) (acct, WDISBURSEMENT)
                (round2 (v + feeAmount fee)) d1 of
           (Inl err, d2) \<Rightarrow> (Inl err, d2)
         | (Inr row, d2) \<Rightarrow> (let p = newPayout e acct ch dto ref fee v (next_id d2) in
             if ref \<in> p_reference ` set (payouts d2) then (Inl UniqueViolation, d2)
             else (Inr p, addPayout e p v d2)))))"
proof (cases "sourceCodeOf acct d")
  case None
  then show ?thesis by (simp add: createPayout_def payoutChecks_def sourceCode_def run)
next
  case (Some code)
  note code = Some
  show ?thesis
  proof (cases "buildReference (draw e 0) code (po_reference dto)")
    case (Inl err)
    then show ?thesis using code by (simp add: createPayout_def payoutChecks_def sourceCode_def run)
  next
    case (Inr ref)
    show ?thesis
      using code Inr
      by (cases "po_amount dto")
        (simp_all add: createPayout_def payoutChecks_def sourceCode_def run andThen_def [of "holdMove _ _ _ _ _ _ _"]
           storePayout_run split: prod.split sum.split)
  qed
qed


lemma holdMove_frame:
  assumes "wallets_keyed d" and "holdMove x e ref aty actor k v d = (r, d')"
  shows "\<exists>ws ts n. d' = d\<lparr>wallets := ws, wallet_txs := ts, next_id := n\<rparr>"
  using walletMove_frame [OF assms(1)] assms(2) unfolding holdMove_def by (metis snd_conv)

lemma getConfig_fee_configs: "getConfig acct d = (r, d1) \<Longrightarrow> \<exists>fc. d1 = d\<lparr>fee_configs := fc\<rparr>"
  using getConfig_frame [of acct d] by auto

lemma addPayout_tables [simp]:
  "payouts (addPayout e p v d) = payouts d @ [p]" "wallets (addPayout e p v d) = wallets d"
  "wallet_txs (addPayout e p v d) = wallet_txs d" "payout_links (addPayout e p v d) = payout_links d"
  "collections (addPayout e p v d) = collections d" "deposits (addPayout e p v d) = deposits d"
  "next_id d \<le> next_id (addPayout e p v d)"
  by (simp_all add: addPayout_def track_def enqueue_def Let_def)

lemma addPayout_job:
  "\<exists>j \<in> set (jobs (addPayout e p v d)). j_payload j = PayoutProcess (p_id p) \<and> j_status j = JobPENDING \<and>
     j_queue j = ''payout.process''"
  by (simp add: addPayout_def track_def enqueue_def Let_def)

lemma newPayout_fields [simp]:
  "p_id (newPayout e acct ch dto ref fee v i) = i"
  "p_account (newPayout e acct ch dto ref fee v i) = acct"
  "p_reference (newPayout e acct ch dto ref fee v i) = ref"
  "p_status (newPayout e acct ch dto ref fee v i) = TxPENDING"
  "p_sourceWallet (newPayout e acct ch dto ref fee v i) = WDISBURSEMENT"
  "p_walletDebitedAt (newPayout e acct ch dto ref fee v i) = Some (now e)"
  "p_refundedAt (newPayout e acct ch dto ref fee v i) = None"
  "p_batchId (newPayout e acct ch dto ref fee v i) = None"
  by (simp_all add: newPayout_def Let_def)

lemma newPayout_debit:
  "is_cents v \<Longrightarrow> is_cents (feeAmount fee) \<Longrightarrow>
     payoutDebit (newPayout e acct ch dto ref fee v i) = v + feeAmount fee"
  by (simp add: payoutDebit_def newPayout_def Let_def)

lemma createPayout_Inr:
  assumes "createPayout e acct ch dto d = (Inr p, d')"
  obtains ref v c d1 row d2 where "payoutChecks e acct dto d = Inr (ref, v)"
    and "getConfig acct d = (Inr c, d1)"
    and "holdMove PAYOUT_DEBIT e (Some ref) ActorAPI_KEY (Some (Row acct)) (acct, WDISBURSEMENT)
           (round2 (v + feeAmount (tierFee FeeDISBURSEMENT c v))) d1 = (Inr row, d2)"
    and "p = newPayout e acct ch dto ref (tierFee FeeDISBURSEMENT c v) v (next_id d2)"
    and "ref \<notin> p_reference ` set (payouts d2)" and "d' = addPayout e p v d2"
  using assms by (auto simp: createPayout_run Let_def split: sum.splits prod.splits if_splits)

lemma payoutChecks_amount: "payoutChecks e acct dto d = Inr (ref, v) \<Longrightarrow> po_amount dto = Fin v"
  by (auto simp: payoutChecks_def split: option.splits sum.splits decimal.splits if_splits)

text \<open>The money side of an accepted payout.\<close>

lemma payout_hold_run:
  assumes ok: "ledger_ok d" and fees: "fees_ok d" and v: "po_amount dto = Fin v" "0 < v" "is_cents v"
    and res: "createPayout e acct ch dto d = (Inr p, d')"
  obtains b f d1 where "balanceOf acct WDISBURSEMENT d = Some b" and "0 \<le> f" and "f \<le> v"
    and "v + f \<le> b" and "payoutDebit p = v + f" and "is_cents (v + f)" and "ledger_ok d'"
    and "balanceOf acct WDISBURSEMENT d' = Some (b - (v + f))"
    and "\<forall>k. k \<noteq> (acct, WDISBURSEMENT) \<longrightarrow> balanceOf (fst k) (snd k) d' = balanceOf (fst k) (snd k) d"
    and "payouts d' = payouts d @ [p]" and "p_reference p \<notin> p_reference ` set (payouts d)"
    and "collections d' = collections d" and "deposits d' = deposits d"
    and "\<forall>k. ledgerCount REFUND k d' = ledgerCount REFUND k d"
    and "\<forall>k. ledgerCount COLLECTION_CREDIT k d' = ledgerCount COLLECTION_CREDIT k d" and "\<forall>k. ledgerCount DEPOSIT k d' = ledgerCount DEPOSIT k d"
proof -
  obtain ref v' c d1 row d2 where ch: "payoutChecks e acct dto d = Inr (ref, v')"
    and c: "getConfig acct d = (Inr c, d1)"
    and mv: "holdMove PAYOUT_DEBIT e (Some ref) ActorAPI_KEY (Some (Row acct)) (acct, WDISBURSEMENT)
           (round2 (v' + feeAmount (tierFee FeeDISBURSEMENT c v'))) d1 = (Inr row, d2)"
    and p: "p = newPayout e acct ch dto ref (tierFee FeeDISBURSEMENT c v') v' (next_id d2)"
    and fresh: "ref \<notin> p_reference ` set (payouts d2)" and d': "d' = addPayout e p v' d2"
    by (rule createPayout_Inr [OF res]) (rule that; assumption)
  have v': "v' = v" using payoutChecks_amount [OF ch] v(1) by simp
  let ?f = "feeAmount (tierFee FeeDISBURSEMENT c v)"
  obtain fc where d1: "d1 = d\<lparr>fee_configs := fc\<rparr>" using getConfig_fee_configs [OF c] by blast
  have "fee_config_ok c" using getConfig_result_ok [OF fees c] .
  note f = disb.fee_nonneg [OF this less_imp_le [OF v(2)]] disb.fee_le [OF this less_imp_le [OF v(2)] v(3)]
    disb.fee_cents [of c v]
  have tot: "is_cents (v + ?f)" "0 < v + ?f" using f v by auto
  have ok1: "ledger_ok d1" using ok by (simp add: d1)
  have mv': "holdMove PAYOUT_DEBIT e (Some ref) ActorAPI_KEY (Some (Row acct)) (acct, WDISBURSEMENT)
      (v + ?f) d1 = (Inr row, d2)" using mv tot by (simp add: v')
  note h = payout_hold.hold_ok [OF ok1 tot(2,1) mv']
  have t: "payouts d2 = payouts d" "collections d2 = collections d" "deposits d2 = deposits d"
    using holdMove_frame [OF ledger_keyed [OF ok1] mv'] by (auto simp: d1)
  have cnt: "ledgerCount x k d2 = ledgerCount x k d" if "x \<noteq> PAYOUT_DEBIT" for x k
    using walletMove_count [OF ledger_keyed [OF ok1], of x k e acct WDISBURSEMENT PAYOUT_DEBIT "v + ?f"
        "Some ref" ActorAPI_KEY "Some (Row acct)" False] mv' that
    by (simp add: holdMove_def d1)
  obtain b where b: "balanceOf acct WDISBURSEMENT d = Some b" "v + ?f \<le> b"
      "balanceOf acct WDISBURSEMENT d2 = Some (b - (v + ?f))"
    using h by (auto simp: d1)
  have bal: "balanceOf a ty d' = balanceOf a ty d2" for a ty by (rule balanceOf_cong) (simp add: d')
  have ok': "ledger_ok d'"
    using h ledger_ok_cong [of d' d2] by (simp add: d')
  show thesis
  proof (rule that [OF b(1) f(1,2) b(2)])
    show "payoutDebit p = v + ?f" using newPayout_debit v(3) f(3) by (simp add: p v')
    show "\<forall>k. k \<noteq> (acct, WDISBURSEMENT) \<longrightarrow> balanceOf (fst k) (snd k) d' = balanceOf (fst k) (snd k) d"
      using h bal by (simp add: d1)
    show "p_reference p \<notin> p_reference ` set (payouts d)" using fresh t by (simp add: p)
    show "\<forall>k. ledgerCount REFUND k d' = ledgerCount REFUND k d"
      using cnt [of REFUND] by (simp add: ledgerCount_def d')
    show "\<forall>k. ledgerCount COLLECTION_CREDIT k d' = ledgerCount COLLECTION_CREDIT k d"
      using cnt [of COLLECTION_CREDIT] by (simp add: ledgerCount_def d')
    show "\<forall>k. ledgerCount DEPOSIT k d' = ledgerCount DEPOSIT k d"
      using cnt [of DEPOSIT] by (simp add: ledgerCount_def d')
  qed (use b(3) bal ok' t tot in \<open>simp_all add: d'\<close>)
qed


lemma createPayout_Inl:
  assumes "ledger_ok d" and "createPayout e acct ch dto d = (Inl err, d')" and "err \<noteq> UniqueViolation"
  shows "\<exists>fc. d' = d\<lparr>fee_configs := fc\<rparr>"
proof -
  have same: "\<exists>fc. d = d\<lparr>fee_configs := fc\<rparr>" by (rule exI [of _ "fee_configs d"]) simp
  show ?thesis
  proof (cases "payoutChecks e acct dto d")
    case (Inl a)
    then show ?thesis using assms(2) same by (simp add: createPayout_run)
  next
    case (Inr rv)
    obtain ref v where rv: "rv = (ref, v)" by (cases rv)
    obtain g d1 where g: "getConfig acct d = (g, d1)" by (cases "getConfig acct d")
    obtain fc where d1: "d1 = d\<lparr>fee_configs := fc\<rparr>" using getConfig_fee_configs [OF g] by blast
    have "ledger_ok d1" using assms(1) by (simp add: d1)
    then have "d' = d1"
      using assms(2,3) Inr rv g payout_hold.hold_err
      by (cases g) (auto simp: createPayout_run Let_def split: prod.splits sum.splits if_splits)
    then show ?thesis using d1 by blast
  qed
qed

section \<open>Properties\<close>


definition sample_payout_db :: db where
  "sample_payout_db = sample_push_db\<lparr>
     wallets := [\<lparr>w_id = 1, w_account = 0, w_type = WDISBURSEMENT, w_currency = ''TZS'',
                   w_balance = 100, w_status = WalletACTIVE\<rparr>]\<rparr>"

definition sample_payout_dto :: "string option \<Rightarrow> payout_dto" where
  "sample_payout_dto ref = \<lparr>po_amount = Fin 40, po_reference = ref,
     po_phoneNumber = Some ''255712345678'', po_accountNumber = None, po_accountName = None,
     po_bic = None, po_transferType = None\<rparr>"

lemma sample_payout_db_ok: "ledger_ok sample_payout_db" "fees_ok sample_payout_db" "status_inv sample_payout_db"
  by (simp_all add: ledger_ok_def wallets_keyed_def wallet_ledger_ok_def sample_payout_db_def
        sample_push_db_def sample_db_def empty_db_def ledgerOf_def lastAfter_def is_cents_def fees_ok_def
        status_inv_def once_defs once_ok_def)

lemma sample_payout_runs:
  "case createPayout default_env 0 MOBILE_MONEY (sample_payout_dto (Some ''p1'')) sample_payout_db of
     (Inr p, d') \<Rightarrow> payoutDebit p = 42 \<and> ledgerCount REFUND (p_reference p) d' = 0 | _ \<Rightarrow> False"
  by code_simp


text \<open>C25: a payout the rail refuses is neutral: after its job has run, every balance is what it was
  before the request, the payout is FAILED and marked as refunded, and its ledger has one refund.\<close>

theorem refused_payout_neutral:
  assumes "status_inv d" and "fees_ok d" and "po_amount dto = Fin v" and "0 < v" and "is_cents v"
    and "createPayout e acct ch dto d = (Inr p, d1)"
    and "p_id p \<notin> p_id ` set (payouts d)" and "ledgerCount REFUND (p_reference p) d = 0"
    and "\<not> rs_ok (railPayout rail p (p_transferType p))"
    and "processPayoutJob e' rail (p_id p) d1 = (r, d2)"
  shows "(\<forall>a ty. balanceOf a ty d2 = balanceOf a ty d) \<and> ledgerCount REFUND (p_reference p) d2 = 1 \<and>
    (\<exists>p' \<in> set (payouts d2). p_id p' = p_id p \<and> p_status p' = TxFAILED \<and> p_refundedAt p' \<noteq> None)"
proof -
  let ?ref = "p_reference p" and ?rc = "failedRecord (rs_error (railPayout rail p (p_transferType p)))"
  have new: "p_status p = TxPENDING" "p_account p = acct" "p_sourceWallet p = WDISBURSEMENT"
      "p_walletDebitedAt p \<noteq> None" "p_refundedAt p = None"
    by (rule createPayout_Inr [OF assms(6)], simp)+
  obtain b f where b: "balanceOf acct WDISBURSEMENT d = Some b" and f: "0 \<le> f" and debit: "payoutDebit p = v + f"
    and cents: "is_cents (v + f)" and ok1: "ledger_ok d1"
    and b1: "balanceOf acct WDISBURSEMENT d1 = Some (b - (v + f))"
    and oth: "\<forall>k. k \<noteq> (acct, WDISBURSEMENT) \<longrightarrow> balanceOf (fst k) (snd k) d1 = balanceOf (fst k) (snd k) d"
    and ps: "payouts d1 = payouts d @ [p]" and fresh: "?ref \<notin> p_reference ` set (payouts d)"
    and cs: "collections d1 = collections d" and ds: "deposits d1 = deposits d"
    and cnt: "\<forall>k. ledgerCount REFUND k d1 = ledgerCount REFUND k d"
      "\<forall>k. ledgerCount COLLECTION_CREDIT k d1 = ledgerCount COLLECTION_CREDIT k d"
      "\<forall>k. ledgerCount DEPOSIT k d1 = ledgerCount DEPOSIT k d"
    using payout_hold_run [OF _ assms(2-6)] assms(1) unfolding status_inv_def by metis
  have inv1: "status_inv d1"
    using assms(1,7,8) ok1 fresh new(5)
    by (simp add: status_inv_def once_defs once_ok_def ps cs ds cnt)
  have found: "findPayout ?ref d1 = Some p" and foundId: "findPayoutById (p_id p) d1 = Some p"
    using fresh assms(7) unfolding findPayout_def findPayoutById_def
    by (rule_tac [!] find_unique) (auto simp: ps, (metis image_eqI)+)
  have run: "snd (applyPayoutUpdate e' ?ref ?rc d1) = d2"
    using assms(9,10) foundId new(1)
    by (auto simp: processPayoutJob_def railOutcome_def ignored_def andThen_def ret_run split: prod.splits sum.splits)
  have st: "mapProviderStatus (pr_status ?rc) = TxFAILED" unfolding failedRecord_def by code_simp
  have other: "TxFAILED \<in> set TERMINAL_FAIL" "p_status p \<noteq> TxFAILED" "threshold (pr_fee ?rc) \<noteq> None"
      "0 < payoutDebit p" "is_cents (payoutDebit p)"
      "balanceOf (p_account p) (p_sourceWallet p) d1 = Some (b - (v + f))"
    using new f debit cents b1 assms(4) by (simp_all add: TERMINAL_FAIL_def failedRecord_def)
  note ref = payout_refund_run [OF inv1 found new(4,5) st other surjective_pairing, of e', unfolded run]
  have "balanceOf a ty d2 = balanceOf a ty d" for a ty
    using ref oth b debit new(2,3) by (cases "(a, ty) = (acct, WDISBURSEMENT)") auto
  then show ?thesis using ref findPayout_in by blast
qed

text \<open>A rail that refuses every payout.\<close>

definition sample_refusing_rail :: payout_provider where
  "sample_refusing_rail = \<lparr>pp_name = ''REFUSES'',
     pp_createMobileMoneyPayout = (\<lambda>_. failResult ''refused''),
     pp_createBankPayout = (\<lambda>_. failResult ''refused''),
     pp_queryPayout = (\<lambda>_. failResult ''refused''), pp_previewMnoPayout = None\<rparr>"

section \<open>Batches\<close>

definition itemAmount :: "batch_item \<Rightarrow> rat" where
  "itemAmount it = (case po_amount (bi_dto it) of Fin v \<Rightarrow> v | _ \<Rightarrow> 0)"

definition itemsTotal :: "batch_item list \<Rightarrow> rat" where
  "itemsTotal its = (\<Sum>it\<leftarrow>its. itemAmount it)"

lemma itemsTotal_cents: "\<forall>it \<in> set its. is_cents (itemAmount it) \<Longrightarrow> is_cents (itemsTotal its)"
  unfolding itemsTotal_def by (induction its) auto

lemma sumAmounts_run:
  assumes "sumAmounts its acc d = (Inr t, d')"
  shows "t = acc + itemsTotal its \<and> d' = d"
  using assms
proof (induction its arbitrary: acc)
  case (Cons it its)
  then obtain v where v: "po_amount (bi_dto it) = Fin v" "sumAmounts its (acc + v) d = (Inr t, d')"
    by (auto simp: run split: decimal.splits)
  show ?case using Cons.IH [OF v(2)] v(1) by (simp add: itemsTotal_def itemAmount_def)
qed (simp add: itemsTotal_def run)

lemma sumAmounts_frame: "snd (sumAmounts its acc d) = d"
  by (induction its arbitrary: acc) (simp_all add: run split: decimal.split)

lemma itemRow_fields [simp]:
  "p_id (itemRow e acct b it ref v i) = i" "p_reference (itemRow e acct b it ref v i) = ref"
  "p_status (itemRow e acct b it ref v i) = TxPENDING"
  "p_batchId (itemRow e acct b it ref v i) = Some b"
  "p_amount (itemRow e acct b it ref v i) = round2 v" "p_account (itemRow e acct b it ref v i) = acct"
  "p_feeAmount (itemRow e acct b it ref v i) = None"
  "p_sourceWallet (itemRow e acct b it ref v i) = WDISBURSEMENT"
  "p_walletDebitedAt (itemRow e acct b it ref v i) = Some (now e)"
  "p_refundedAt (itemRow e acct b it ref v i) = None"
  by (simp_all add: itemRow_def Let_def)

text \<open>The rows of a batch: one per item, pending, already paid for, and together the total.\<close>

lemma itemRows_sum:
  assumes "itemRows e acct code b n i its = Inr rows" and "\<forall>it \<in> set its. is_cents (itemAmount it)"
  shows "length rows = length its \<and> (\<Sum>p\<leftarrow>rows. payoutDebit p) = itemsTotal its \<and>
    (\<forall>p \<in> set rows. p_status p = TxPENDING \<and> p_batchId p = Some b \<and> p_account p = acct \<and>
       p_sourceWallet p = WDISBURSEMENT \<and> p_walletDebitedAt p = Some (now e) \<and> p_refundedAt p = None)"
  using assms
proof (induction its arbitrary: n i rows)
  case (Cons it its)
  then obtain ref v rows' where *: "po_amount (bi_dto it) = Fin v"
      "itemRows e acct code b (Suc n) (Suc i) its = Inr rows'"
      "rows = itemRow e acct b it ref v i # rows'"
    by (auto split: sum.splits decimal.splits)
  have "is_cents v" using Cons.prems(2) *(1) by (simp add: itemAmount_def)
  then have "payoutDebit (itemRow e acct b it ref v i) = itemAmount it"
    using *(1) by (simp add: payoutDebit_def itemAmount_def)
  then show ?case using Cons.IH [OF *(2)] Cons.prems(2) *(3) by (simp add: itemsTotal_def)
qed (simp add: itemsTotal_def)

definition batchChecks :: "env \<Rightarrow> ident \<Rightarrow> batch_dto \<Rightarrow> db \<Rightarrow> err + string \<times> string" where
  "batchChecks e acct dto d =
     (case sourceCodeOf acct d of None \<Rightarrow> Inl (NotFound NOT_FOUND)
      | Some code \<Rightarrow> if \<not> list_all itemComplete (bd_items dto) then Inl (BadRequest VALIDATION_FAILED)
          else (case sumAmounts (bd_items dto) 0 d of (Inl err, _) \<Rightarrow> Inl err
            | (Inr _, _) \<Rightarrow> (case buildReference (draw e 0) code None of Inl err \<Rightarrow> Inl err
                | Inr ref \<Rightarrow> Inr (code, ref))))"

definition queueBatch :: "env \<Rightarrow> ident \<Rightarrow> batch_row \<Rightarrow> rat \<Rightarrow> db \<Rightarrow> db" where
  "queueBatch e acct b t d = snd (track e ''batch.created'' (Some (RowId acct)) (Some t)
     (snd (enqueue e ''batch.process''
        (BatchProcess (b_id b) (map p_id (orderAsc p_createdAt (batchPayouts (b_id b) d)))) 0 d)))"

lemma createBatch_run:
  "createBatch e acct dto d = (case batchChecks e acct dto d of
     Inl err \<Rightarrow> (Inl err, d)
   | Inr (code, ref) \<Rightarrow> (let t = itemsTotal (bd_items dto) in
       case holdMove BATCH_HOLD e (Some ref) ActorAPI_KEY (Some (Row acct)) (acct, WDISBURSEMENT)
              (round2 t) d of
         (Inl err, d1) \<Rightarrow> (Inl err, d1)
       | (Inr row, d1) \<Rightarrow> (case batchTx e acct code dto ref t d1 of
           (Inl err, _) \<Rightarrow> (Inl err, d1)
         | (Inr b, d2) \<Rightarrow> (Inr b, queueBatch e acct b t d2))))"
proof (cases "sourceCodeOf acct d")
  case (Some code)
  note code = Some
  obtain r d0 where s: "sumAmounts (bd_items dto) 0 d = (r, d0)" by (cases "sumAmounts (bd_items dto) 0 d")
  have d0: "d0 = d" using sumAmounts_frame [of "bd_items dto" 0 d] s by simp
  show ?thesis
  proof (cases r)
    case (Inl err)
    then show ?thesis using code s d0
      by (simp add: createBatch_def batchChecks_def sourceCode_def run andThen_def [of "sumAmounts _ _"])
  next
    case (Inr t)
    then have t: "t = itemsTotal (bd_items dto)" using sumAmounts_run [of "bd_items dto" 0 d t d0] s by simp
    show ?thesis
      using code s d0 Inr t
      by (simp add: createBatch_def batchChecks_def sourceCode_def run andThen_def [of "sumAmounts _ _"]
            andThen_def [of "holdMove _ _ _ _ _ _ _"] andThen_transaction queueBatch_def track_def Let_def split: prod.split sum.split)
  qed
qed (simp add: createBatch_def batchChecks_def sourceCode_def run)

lemma batchTx_Inr:
  assumes "batchTx e acct code dto ref t d = (Inr b, d')"
  obtains rows where "itemRows e acct code (b_id b) 1 (Suc (next_id d)) (bd_items dto) = Inr rows"
    and "b = newBatch e acct dto ref t (next_id d)"
    and "d' = d\<lparr>batches := batches d @ [b], payouts := payouts d @ rows,
                 next_id := Suc (next_id d) + length rows\<rparr>"
  using assms by (auto simp: batchTx_def Let_def split: if_splits sum.splits)

lemma queueBatch_tables [simp]:
  "payouts (queueBatch e acct b t d) = payouts d" "batches (queueBatch e acct b t d) = batches d"
  "wallets (queueBatch e acct b t d) = wallets d" "wallet_txs (queueBatch e acct b t d) = wallet_txs d"
  "next_id d \<le> next_id (queueBatch e acct b t d)"
  by (simp_all add: queueBatch_def track_def enqueue_def Let_def)

lemma queueBatch_job:
  "\<exists>j \<in> set (jobs (queueBatch e acct b t d)). \<exists>ids. j_status j = JobPENDING \<and>
     j_payload j = BatchProcess (b_id b) ids \<and> set ids = p_id ` set (batchPayouts (b_id b) d)"
  by (auto simp: queueBatch_def track_def enqueue_def Let_def orderAsc_def)


definition sample_item :: "string \<Rightarrow> rat \<Rightarrow> batch_item" where
  "sample_item ref v = \<lparr>bi_channel = MOBILE_MONEY, bi_dto = (sample_payout_dto (Some ref))\<lparr>po_amount := Fin v\<rparr>\<rparr>"

definition sample_batch :: "string \<Rightarrow> string \<Rightarrow> batch_dto" where
  "sample_batch r1 r2 = \<lparr>bd_name = ''May'', bd_items = [sample_item r1 10, sample_item r2 20]\<rparr>"

lemma sample_batch_ok: "\<forall>it \<in> set (bd_items (sample_batch r1 r2)). is_cents (itemAmount it)"
    "itemsTotal (bd_items (sample_batch r1 r2)) = 30"
  by (simp_all add: sample_batch_def sample_item_def itemsTotal_def itemAmount_def is_cents_def)

lemma sample_batch_runs:
  "case createBatch default_env 0 (sample_batch ''p1'' ''p2'') sample_payout_db of
     (Inr b, d') \<Rightarrow> balanceOf 0 WDISBURSEMENT d' = Some 70 | _ \<Rightarrow> False"
  by code_simp

text \<open>Two items with the same 15-character reference: the hold stays, the batch does not.\<close>

lemma batch_hold_stranded:
  "case createBatch default_env 0 (sample_batch ''ABCDEFGHIJKLMNO'' ''abcdefghijklmno'') sample_payout_db of
     (Inl err, d') \<Rightarrow> err = UniqueViolation \<and> payouts d' = [] \<and> balanceOf 0 WDISBURSEMENT d' = Some 70
   | _ \<Rightarrow> False"
  by code_simp


section \<open>Payout links\<close>

lemma findLink_hash: "findLink hash d = Some l \<Longrightarrow> l_tokenHash l = hash"
  by (auto simp: findLink_def dest: find_SomeD)

text \<open>A link is used up when it is recorded as redeemed.\<close>

definition linkUsed :: "string \<Rightarrow> db \<Rightarrow> bool" where
  "linkUsed hash d \<longleftrightarrow> (\<exists>l. findLink hash d = Some l \<and> l_redeemedAt l \<noteq> None)"

lemma consumeLink_run:
  "consumeLink e hash r d = (case findLink hash d of None \<Rightarrow> (Inl (Conflict CONFLICT), d)
     | Some l \<Rightarrow> if l_redeemedAt l \<noteq> None then (Inl (Conflict CONFLICT), d)
         else if l_expiresAt l \<le> now e then (Inl (NotFound NOT_FOUND), d)
         else let f = (\<lambda>l. l\<lparr>l_redeemedAt := Some (now e), l_recipientPhone := Some (rr_phoneNumber r),
                       l_payoutMethod := Some (rr_payoutMethod r),
                       l_beneficiaryName := rr_beneficiaryName r\<rparr>)
              in (Inr (f l), updateLink (l_id l) f d))"
  by (simp add: consumeLink_def transaction_def run Let_def split: option.split)

lemma findLink_updateLink:
  "(\<And>l. l_tokenHash (f l) = l_tokenHash l) \<Longrightarrow>
     findLink h (updateLink i f d) = map_option (\<lambda>l. if l_id l = i then f l else l) (findLink h d)"
  by (simp add: findLink_def updateLink_def find_updateWhere)

lemma linkUsed_updateLink:
  assumes "linkUsed h d" and "\<And>l. l_tokenHash (f l) = l_tokenHash l"
    and "\<And>l. l_redeemedAt l \<noteq> None \<Longrightarrow> l_redeemedAt (f l) \<noteq> None"
  shows "linkUsed h (updateLink i f d)"
proof -
  obtain l where "findLink h d = Some l" and "l_redeemedAt l \<noteq> None"
    using assms(1) by (auto simp: linkUsed_def)
  then show ?thesis using findLink_updateLink [of f, OF assms(2)] assms(3) [of l]
    by (cases "l_id l = i") (simp_all add: linkUsed_def)
qed

lemma resolve_frame: "snd (resolvePayoutLinkRecipient sha e rail token ph pm d) = d"
  by (simp add: resolvePayoutLinkRecipient_def findActivePayoutLink_def validPhone_def run Let_def
        split: option.split)

lemma resolve_used: "linkUsed (sha token) d \<Longrightarrow>
    resolvePayoutLinkRecipient sha e rail token ph pm d = (Inl (NotFound NOT_FOUND), d)"
  by (auto simp: linkUsed_def resolvePayoutLinkRecipient_def findActivePayoutLink_def activeLink_def run)

lemma createPayout_links: "ledger_ok d \<Longrightarrow> payout_links (snd (createPayout e acct ch dto d)) = payout_links d"
proof -
  assume ok: "ledger_ok d"
  have g: "wallets_keyed (snd (getConfig acct d))" "payout_links (snd (getConfig acct d)) = payout_links d"
    using getConfig_fee_configs [OF surjective_pairing, of acct d] ledger_keyed [OF ok]
    by (auto simp: wallets_keyed_def)
  obtain c d1 where c: "getConfig acct d = (c, d1)" by fastforce
  have h: "payout_links (snd (holdMove PAYOUT_DEBIT e ref aty actor k v d1)) = payout_links d"
    for ref aty actor k v
    using holdMove_frame [OF _ surjective_pairing, of d1 PAYOUT_DEBIT e ref aty actor k v] g c
    by fastforce
  show ?thesis
  proof (cases "payoutChecks e acct dto d")
    case (Inr rv)
    obtain ref v where rv: "rv = (ref, v)" by (cases rv)
    show ?thesis
    proof (cases c)
      case (Inl err)
      then show ?thesis using Inr rv c g by (simp add: createPayout_run)
    next
      case (Inr cf)
      let ?fee = "tierFee FeeDISBURSEMENT cf v"
      obtain q d2 where q: "holdMove PAYOUT_DEBIT e (Some ref) ActorAPI_KEY (Some (Row acct))
          (acct, WDISBURSEMENT) (round2 (v + feeAmount ?fee)) d1 = (q, d2)" by fastforce
      have "payout_links d2 = payout_links d" using h q by (metis snd_conv)
      then show ?thesis
        using Inr \<open>payoutChecks e acct dto d = Inr rv\<close> rv c q
        by (cases q) (simp_all add: createPayout_run Let_def)
    qed
  qed (simp add: createPayout_run)
qed

lemma linkUsed_cong: "payout_links d' = payout_links d \<Longrightarrow> linkUsed h d' = linkUsed h d"
  by (simp add: linkUsed_def findLink_def)

text \<open>A confirmation either changes nothing, or uses the link up.\<close>

lemma confirm_uses_link:
  assumes "ledger_ok d" and "confirmPayoutLink sha e rail token ph pm d = (res, d')"
  shows "d' = d \<and> (\<exists>err. res = Inl err) \<or> \<not> linkUsed (sha token) d \<and> linkUsed (sha token) d'"
proof -
  obtain r d0 where r: "resolvePayoutLinkRecipient sha e rail token ph pm d = (r, d0)" by fastforce
  have d0: "d0 = d" using resolve_frame [of sha e rail token ph pm d] r by simp
  obtain c d1 where c: "consumeLink e (sha token) (projr r) d = (c, d1)" by fastforce
  show ?thesis
  proof (cases "\<exists>err. r = Inl err \<or> c = Inl err")
    case True
    then show ?thesis
      using assms(2) r c d0
      by (auto simp: confirmPayoutLink_def andThen_def consumeLink_run Let_def
            split: option.splits if_splits sum.splits)
  next
    case False
    then obtain v l where v: "r = Inr v" "c = Inr l" by (cases r; cases c) auto
    then obtain l0 f where l0: "findLink (sha token) d = Some l0" "l_redeemedAt l0 = None"
      and d1: "d1 = updateLink (l_id l0) f d" and f: "\<And>l. l_tokenHash (f l) = l_tokenHash l"
        "\<And>l. l_redeemedAt (f l) = Some (now e)"
      using c by (fastforce simp: consumeLink_run Let_def split: option.splits if_splits)
    have used: "\<not> linkUsed (sha token) d" "linkUsed (sha token) d1"
      using l0 f by (simp_all add: linkUsed_def d1 findLink_updateLink)
    have ok1: "ledger_ok d1" using assms(1) ledger_ok_cong [of d1 d] by (simp add: d1 updateLink_def)
    obtain q d2 where q: "createPayout e (l_account l) MOBILE_MONEY (linkPayout l (rr_phoneNumber v)) d1 = (q, d2)"
      by fastforce
    have u2: "linkUsed (sha token) d2"
      using used(2) linkUsed_cong [of d2 d1] createPayout_links [OF ok1] q by (metis snd_conv)
    have "linkUsed (sha token) (updateLink i (\<lambda>x. x\<lparr>l_payoutId := p\<rparr>) d2)" for i p
      by (rule linkUsed_updateLink [OF u2]) simp_all
    then show ?thesis
      using assms(2) r c d0 v q used u2
      by (auto simp: confirmPayoutLink_def andThen_def ret_run modify_def split: sum.splits)
  qed
qed

text \<open>C27: a payout link pays at most once: a confirmation that changes anything at all uses the
  link up, even when the payout itself fails, and from then on a second confirmation is refused as
  an unknown link, and one that had already resolved its recipient is refused under the row lock.\<close>

theorem payout_link_once:
  assumes "ledger_ok d" and "confirmPayoutLink sha e rail token ph pm d = (res, d')" and "d' \<noteq> d"
  shows "confirmPayoutLink sha e' rail' token ph' pm' d' = (Inl (NotFound NOT_FOUND), d') \<and>
    getPayoutLink sha e' token d' = (Inl (NotFound NOT_FOUND), d') \<and>
    consumeLink e' (sha token) recipient d' = (Inl (Conflict CONFLICT), d')"
proof -
  have used: "linkUsed (sha token) d'" using confirm_uses_link [OF assms(1,2)] assms(3) by blast
  then show ?thesis
    using resolve_used [of sha token d' e' rail' ph' pm']
    by (auto simp: confirmPayoutLink_def getPayoutLink_def findActivePayoutLink_def activeLink_def
          andThen_Inl consumeLink_run linkUsed_def run)
qed

definition sample_link_db :: db where
  "sample_link_db = snd (createPayoutLink (\<lambda>t. t) ''tok'' default_env 0 (Fin 40) None sample_payout_db)"

definition sample_mock :: mock_payouts where
  "sample_mock = \<lparr>mp_default = ''SUCCESS'', mp_statuses = Map.empty\<rparr>"

definition confirmSample :: "db \<Rightarrow> (err + payout_row \<times> string option) \<times> db" where
  "confirmSample = confirmPayoutLink (\<lambda>t. t) default_env (mockPayoutProvider 0 sample_mock) ''tok''
     (Some ''255712345678'') ''TIGO''"

lemma sample_link_runs: "length (payouts (snd (confirmSample sample_link_db))) = 1"
  by code_simp

theorem payout_link_once_witness:
  "fst (confirmSample (snd (confirmSample sample_link_db))) = Inl (NotFound NOT_FOUND)"
proof -
  have tabs: "payouts sample_link_db = []" by code_simp
  have "wallets sample_link_db = wallets sample_payout_db" "wallet_txs sample_link_db = wallet_txs sample_payout_db"
      "next_id sample_payout_db \<le> next_id sample_link_db" by code_simp+
  then have ok: "ledger_ok sample_link_db"
    using sample_payout_db_ok(1) ledger_ok_cong [of sample_link_db sample_payout_db] by simp
  have ne: "snd (confirmSample sample_link_db) \<noteq> sample_link_db" using sample_link_runs tabs by force
  show ?thesis
    using payout_link_once [OF ok surjective_pairing ne [unfolded confirmSample_def]]
    by (simp add: confirmSample_def)
qed

theorem refused_payout_neutral_witness:
  "\<exists>p d1. createPayout default_env 0 MOBILE_MONEY (sample_payout_dto (Some ''p1'')) sample_payout_db
     = (Inr p, d1) \<and>
     balanceOf 0 WDISBURSEMENT (snd (processPayoutJob default_env sample_refusing_rail (p_id p) d1)) = Some 100"
proof -
  obtain p d1 where run: "createPayout default_env 0 MOBILE_MONEY (sample_payout_dto (Some ''p1''))
      sample_payout_db = (Inr p, d1)"
    using sample_payout_runs by (auto split: prod.splits sum.splits)
  have amt: "po_amount (sample_payout_dto (Some ''p1'')) = Fin 40" "is_cents 40"
    by (simp_all add: sample_payout_dto_def is_cents_def)
  have p: "p_id p \<notin> p_id ` set (payouts sample_payout_db)"
      "ledgerCount REFUND (p_reference p) sample_payout_db = 0"
    by (simp_all add: sample_payout_db_def sample_push_db_def sample_db_def empty_db_def ledgerCount_def countWhere_def)
  have no: "\<not> rs_ok (railPayout sample_refusing_rail p (p_transferType p))"
    by (simp add: railPayout_def sample_refusing_rail_def failResult_def)
  have b: "balanceOf 0 WDISBURSEMENT sample_payout_db = Some 100" by code_simp
  from refused_payout_neutral [OF sample_payout_db_ok(3,2) amt(1) _ amt(2) run p no surjective_pairing]
  have "balanceOf 0 WDISBURSEMENT (snd (processPayoutJob default_env sample_refusing_rail (p_id p) d1))
      = balanceOf 0 WDISBURSEMENT sample_payout_db"
    by simp
  with run b show ?thesis by auto
qed

end
