(* ===== verification/Settlements.thy ===== *)
theory Settlements
  imports Disbursements
begin

text \<open>
  settlements/settlements.service.ts: where an account's collected money goes (a mobile number or a
  bank account), manual withdrawals, and the daily sweep of the COLLECTION wallets. A sweep run
  catches the errors of each account and goes on with the next.
\<close>

section \<open>Settlement accounts\<close>

record settlement_input =
  si_type :: "settlement_type option"
  si_method :: "mobile_method option"
  si_phoneNumber :: "string option"
  si_bankName :: "string option"
  si_bankInitials :: "string option"
  si_accountNumber :: "string option"
  si_accountName :: "string option"

definition listSettlementAccounts :: "ident \<Rightarrow> db \<Rightarrow> settlement_row list" where
  "listSettlementAccounts acct d =
     sort_key (\<lambda>s. if sa_isDefault s then 0 else (1 :: nat))
       (orderAsc sa_createdAt (filter (\<lambda>s. sa_account s = acct) (settlements d)))"

definition defaultSettlement :: "ident \<Rightarrow> db \<Rightarrow> settlement_row option" where
  "defaultSettlement acct d =
     (case orderAsc sa_createdAt (filter (\<lambda>s. sa_account s = acct \<and> sa_isActive s \<and> sa_isDefault s)
             (settlements d)) of
        [] \<Rightarrow> None | s # _ \<Rightarrow> Some s)"

definition getDefaultSettlementAccount :: "ident \<Rightarrow> (db, settlement_row option) action" where
  "getDefaultSettlementAccount acct =
     thenDo (fetch (NotFound NOT_FOUND) (findAccount acct)) (query (defaultSettlement acct))"

text \<open>The columns a validated input sets.\<close>

datatype settlement_data =
    MobileSettlement mobile_method string
  | BankSettlement string "string option" string "string option"

definition validateSettlementInput :: "settlement_input \<Rightarrow> err + settlement_data" where
  "validateSettlementInput input =
     (if si_type input = Some SettleMOBILE then
        (case si_method input of
           None \<Rightarrow> Inl (BadRequest VALIDATION_FAILED)
         | Some m \<Rightarrow> (case normalizePhoneNumber (orEmpty (si_phoneNumber input)) of
             None \<Rightarrow> Inl (BadRequest VALIDATION_FAILED)
           | Some phone \<Rightarrow> Inr (MobileSettlement m phone)))
      else if \<not> truthy (si_accountNumber input) \<or> \<not> truthy (si_bankName input)
      then Inl (BadRequest VALIDATION_FAILED)
      else Inr (BankSettlement (trim (orEmpty (si_bankName input)))
             (map_option (\<lambda>s. toUpperCase (trim s)) (si_bankInitials input))
             (trim (orEmpty (si_accountNumber input))) (map_option trim (si_accountName input))))"

fun setSettlement :: "settlement_data \<Rightarrow> settlement_row \<Rightarrow> settlement_row" where
  "setSettlement (MobileSettlement m phone) s =
     s\<lparr>sa_type := SettleMOBILE, sa_method := Some m, sa_phoneNumber := Some phone\<rparr>"
| "setSettlement (BankSettlement bank initials number name) s =
     s\<lparr>sa_type := SettleBANK, sa_bankName := Some bank, sa_bankInitials := initials,
       sa_accountNumber := Some number, sa_accountName := name\<rparr>"

definition newSettlement :: "env \<Rightarrow> ident \<Rightarrow> settlement_data \<Rightarrow> bool \<Rightarrow> ident \<Rightarrow> settlement_row" where
  "newSettlement e acct v isDefault i = setSettlement v
     \<lparr>sa_id = i, sa_account = acct, sa_type = SettleMOBILE, sa_method = None, sa_phoneNumber = None,
      sa_bankName = None, sa_bankInitials = None, sa_accountNumber = None, sa_accountName = None,
      sa_isDefault = isDefault, sa_isActive = True, sa_createdAt = now e\<rparr>"

definition clearDefaults :: "ident \<Rightarrow> (db, unit) action" where
  "clearDefaults acct = modify (\<lambda>d. d\<lparr>settlements :=
     updateWhere (\<lambda>s. sa_account s = acct) (\<lambda>s. s\<lparr>sa_isDefault := False\<rparr>) (settlements d)\<rparr>)"

definition upsertSettlementAccount ::
    "env \<Rightarrow> account_key \<Rightarrow> settlement_input \<Rightarrow> bool option \<Rightarrow> (db, settlement_row) action" where
  "upsertSettlementAccount e k input dflt =
     andThen (fetch (NotFound NOT_FOUND) (resolveAccountId k)) (\<lambda>acct.
     andThen (liftE (validateSettlementInput input)) (\<lambda>v.
     let isDefault = (dflt \<noteq> Some False) in
     transaction (
       thenDo (if isDefault then clearDefaults acct else ret ())
       (\<lambda>d. let s = newSettlement e acct v isDefault (next_id d) in
          (Inr s, d\<lparr>settlements := settlements d @ [s], next_id := Suc (next_id d)\<rparr>)))))"

record settlement_patch =
  sp_input :: settlement_input
  sp_isActive :: "bool option"
  sp_isDefault :: "bool option"

definition findSettlement :: "ident \<Rightarrow> ident \<Rightarrow> db \<Rightarrow> settlement_row option" where
  "findSettlement acct i d = List.find (\<lambda>s. sa_id s = i \<and> sa_account s = acct) (settlements d)"

definition patchedSettlement :: "settlement_patch \<Rightarrow> settlement_data option \<Rightarrow> settlement_row \<Rightarrow> settlement_row" where
  "patchedSettlement p v s =
     (let s1 = (case v of None \<Rightarrow> s | Some w \<Rightarrow> setSettlement w s);
          s2 = (case sp_isActive p of None \<Rightarrow> s1 | Some b \<Rightarrow> s1\<lparr>sa_isActive := b\<rparr>)
      in (case sp_isDefault p of None \<Rightarrow> s2 | Some b \<Rightarrow> s2\<lparr>sa_isDefault := b\<rparr>))"

text \<open>The earlier defaults are cleared before the new details are checked, and outside a
  transaction.\<close>

definition updateSettlementAccount ::
    "account_key \<Rightarrow> ident \<Rightarrow> settlement_patch \<Rightarrow> (db, settlement_row) action" where
  "updateSettlementAccount k i p =
     andThen (fetch (NotFound NOT_FOUND) (resolveAccountId k)) (\<lambda>acct.
     andThen (fetch (NotFound NOT_FOUND) (findSettlement acct i)) (\<lambda>row.
     thenDo (if sp_isDefault p = Some True then clearDefaults acct else ret ())
     (andThen (if si_type (sp_input p) = None then ret None
               else liftE (map_sum id Some (validateSettlementInput (sp_input p)))) (\<lambda>v.
      thenDo (modify (\<lambda>d. d\<lparr>settlements :=
                updateWhere (\<lambda>s. sa_id s = sa_id row) (patchedSettlement p v) (settlements d)\<rparr>))
      (fetch RecordNotFound (findSettlement acct i))))))"

section \<open>Settlement payouts\<close>

definition settlementChannel :: "settlement_row \<Rightarrow> channel" where
  "settlementChannel s = (if sa_type s = SettleBANK then BANK else MOBILE_MONEY)"

definition settlementPayout ::
    "env \<Rightarrow> ident \<Rightarrow> string \<Rightarrow> settlement_row \<Rightarrow> payout_kind \<Rightarrow> string \<Rightarrow> string option \<Rightarrow> rat \<Rightarrow> computed_fee
     \<Rightarrow> ident \<Rightarrow> payout_row" where
  "settlementPayout e acct code s kind reference clientRef amount fee i =
     (let bank = (\<lambda>x. if sa_type s = SettleBANK then x else None) in
      \<lparr>p_id = i, p_account = acct, p_batchId = None, p_channel = settlementChannel s,
       p_reference = reference, p_clientReference = clientRef, p_sourceWallet = WCOLLECTION,
       p_payoutKind = kind, p_amount = round2 amount, p_currency = ''TZS'',
       p_phoneNumber = (if sa_type s = SettleMOBILE then sa_phoneNumber s else None),
       p_accountNumber = bank (sa_accountNumber s),
       p_accountName = bank (Some (case sa_accountName s of None \<Rightarrow> code | Some n \<Rightarrow> n)),
       p_bic = bank (sa_bankInitials s), p_transferType = bank (Some ''ACH''),
       p_status = TxPENDING, p_providerTxId = None, p_providerStatus = None, p_fee = None,
       p_feeAmount = Some (round2 (feeAmount fee)), p_feeBps = Some (feeBps fee), p_message = None,
       p_walletDebitedAt = Some (now e), p_refundedAt = None, p_createdAt = now e,
       p_updatedAt = now e\<rparr>)"

text \<open>The steps the three operations share: the debit, the row, its job and the event.\<close>

definition settle ::
    "env \<Rightarrow> ident \<Rightarrow> actor_type \<Rightarrow> who option \<Rightarrow> string \<Rightarrow> rat \<Rightarrow> (ident \<Rightarrow> payout_row) \<Rightarrow> string \<Rightarrow> rat
     \<Rightarrow> (db, payout_row) action" where
  "settle e acct aty actor reference debit mk event val =
     thenDo (holdMove WITHDRAWAL e (Some reference) aty actor (acct, WCOLLECTION) (round2 debit))
     (andThen (insertPayout mk) (\<lambda>p.
      thenDo (enqueue e ''payout.process'' (PayoutProcess (p_id p)) 0)
      (thenDo (track e event (Some (RowId acct)) (Some val))
      (ret p))))"

record withdrawal_dto =
  wd_amount :: decimal
  wd_reference :: "string option"
  wd_settlementAccountId :: "ident option"

definition activeSettlement :: "ident \<Rightarrow> ident \<Rightarrow> db \<Rightarrow> settlement_row option" where
  "activeSettlement acct i d =
     List.find (\<lambda>s. sa_id s = i \<and> sa_account s = acct \<and> sa_isActive s) (settlements d)"

definition chosenSettlement :: "ident \<Rightarrow> ident option \<Rightarrow> (db, settlement_row) action" where
  "chosenSettlement acct choice =
     andThen (case choice of
        Some i \<Rightarrow> query (activeSettlement acct i) | None \<Rightarrow> getDefaultSettlementAccount acct) (\<lambda>s.
     case s of None \<Rightarrow> raise (BadRequest VALIDATION_FAILED) | Some r \<Rightarrow> ret r)"

definition createWithdrawal ::
    "env \<Rightarrow> ident \<Rightarrow> withdrawal_dto \<Rightarrow> actor_type \<Rightarrow> who option \<Rightarrow> (db, payout_row) action" where
  "createWithdrawal e acct dto aty actor =
     andThen (sourceCode acct) (\<lambda>code.
     andThen (chosenSettlement acct (wd_settlementAccountId dto)) (\<lambda>s.
     andThen (positiveAmount (wd_amount dto)) (\<lambda>amount.
     andThen (computeFee FeeDISBURSEMENT acct (Fin amount)) (\<lambda>fee.
     let totalDebit = amount + feeAmount fee in
     thenDo (require (\<not> totalDebit < cfg_minPayout (cfg e)) (BadRequest VALIDATION_FAILED))
     (andThen (liftE (buildReference (draw e 0) code (wd_reference dto))) (\<lambda>reference.
      settle e acct aty actor reference totalDebit
        (settlementPayout e acct code s WITHDRAWAL_KIND reference
           (map_option toUpperCase (wd_reference dto)) amount fee)
        ''settlement.withdrawal'' amount))))))"

definition listWithdrawals :: "account_key \<Rightarrow> nat \<Rightarrow> nat \<Rightarrow> db \<Rightarrow> payout_row list \<times> nat" where
  "listWithdrawals k skip n d =
     (let rows = filter (\<lambda>p. resolveAccountId k d = Some (p_account p) \<and>
                   p_payoutKind p \<in> {WITHDRAWAL_KIND, AUTO_SWEEP}) (payouts d)
      in (window skip n (orderDesc p_createdAt rows), length rows))"

definition setAutoSweep :: "account_key \<Rightarrow> bool \<Rightarrow> (db, account_row) action" where
  "setAutoSweep k enabled =
     andThen (fetch (NotFound NOT_FOUND) (resolveAccountId k)) (\<lambda>acct.
     thenDo (modify (\<lambda>d. d\<lparr>accounts :=
       updateWhere (\<lambda>a. a_id a = acct) (\<lambda>a. a\<lparr>a_autoSweep := enabled\<rparr>) (accounts d)\<rparr>))
     (fetch RecordNotFound (findAccount acct)))"

section \<open>The daily sweep\<close>

datatype sweep_reason =
    NoSettlementAccount | EmptyCollectionWallet | AlreadySweptToday | BelowMinimum rat
  | DryRun string rat | SweepError err

datatype sweep_outcome = Swept payout_row | Skipped sweep_reason

definition day_ms :: int where "day_ms = 86400000"

text \<open>\<open>setHours(0, 0, 0, 0)\<close> in a zone of a fixed offset from UTC.\<close>

definition startOfToday :: "int \<Rightarrow> env \<Rightarrow> int" where
  "startOfToday tz e = (now e + tz) div day_ms * day_ms - tz"

definition alreadySwept :: "int \<Rightarrow> ident \<Rightarrow> db \<Rightarrow> bool" where
  "alreadySwept since acct d \<longleftrightarrow> (\<exists>p \<in> set (payouts d). p_account p = acct \<and>
     p_payoutKind p = AUTO_SWEEP \<and> since \<le> p_createdAt p \<and> p_status p \<noteq> TxFAILED)"

definition collectionBalance :: "ident \<Rightarrow> db \<Rightarrow> rat" where
  "collectionBalance acct d = (case balanceOf acct WCOLLECTION d of None \<Rightarrow> 0 | Some b \<Rightarrow> b)"

text \<open>The body of the loop for one account, inside its \<open>try\<close>.\<close>

definition sweepAccount ::
    "env \<Rightarrow> int \<Rightarrow> bool \<Rightarrow> nat \<Rightarrow> account_row \<Rightarrow> (db, sweep_outcome) action" where
  "sweepAccount e tz dryRun n a =
     andThen (getDefaultSettlementAccount (a_id a)) (\<lambda>chosen.
     case chosen of
       None \<Rightarrow> ret (Skipped NoSettlementAccount)
     | Some s \<Rightarrow>
         andThen (query (collectionBalance (a_id a))) (\<lambda>balance.
         if balance \<le> 0 then ret (Skipped EmptyCollectionWallet)
         else andThen (query (alreadySwept (startOfToday tz e) (a_id a))) (\<lambda>swept.
         if swept then ret (Skipped AlreadySweptToday)
         else andThen (computeFee FeeDISBURSEMENT (a_id a) (Fin balance)) (\<lambda>fee.
         let payoutAmount = balance - feeAmount fee in
         if payoutAmount < cfg_minPayout (cfg e) then ret (Skipped (BelowMinimum (round2 payoutAmount)))
         else andThen (liftE (buildReference (draw e n) (a_sourceCode a) None)) (\<lambda>reference.
         if dryRun then ret (Skipped (DryRun reference (round2 payoutAmount)))
         else andThen (settle e (a_id a) ActorSYSTEM None reference balance
                (settlementPayout e (a_id a) (a_sourceCode a) s AUTO_SWEEP reference
                   (Some ''AUTO-SWEEP'') payoutAmount fee)
                ''settlement.auto_sweep'' payoutAmount) (\<lambda>p. ret (Swept p)))))))"

definition sweepCaught ::
    "env \<Rightarrow> int \<Rightarrow> bool \<Rightarrow> nat \<Rightarrow> account_row \<Rightarrow> (db, sweep_outcome) action" where
  "sweepCaught e tz dryRun n a = attempt (sweepAccount e tz dryRun n a) (\<lambda>err. ret (Skipped (SweepError err)))"

record sweep_report =
  sw_created :: nat
  sw_skipped :: nat
  sw_details :: "(ident \<times> sweep_outcome) list"

text \<open>A dry run counts as neither created nor skipped.\<close>

definition addOutcome :: "ident \<Rightarrow> sweep_outcome \<Rightarrow> sweep_report \<Rightarrow> sweep_report" where
  "addOutcome i out r =
     r\<lparr>sw_created := sw_created r + (case out of Swept _ \<Rightarrow> 1 | _ \<Rightarrow> 0),
       sw_skipped := sw_skipped r + (case out of Swept _ \<Rightarrow> 0 | Skipped (DryRun _ _) \<Rightarrow> 0 | _ \<Rightarrow> 1),
       sw_details := sw_details r @ [(i, out)]\<rparr>"

fun sweepLoop ::
    "env \<Rightarrow> int \<Rightarrow> bool \<Rightarrow> nat \<Rightarrow> account_row list \<Rightarrow> sweep_report \<Rightarrow> (db, sweep_report) action" where
  "sweepLoop e tz dryRun n [] r = ret r"
| "sweepLoop e tz dryRun n (a # as) r =
     andThen (sweepCaught e tz dryRun n a) (\<lambda>out. sweepLoop e tz dryRun (Suc n) as (addOutcome (a_id a) out r))"

definition sweepable :: "db \<Rightarrow> account_row list" where
  "sweepable d = filter (\<lambda>a. a_status a = AcctACTIVE \<and> a_autoSweep a) (accounts d)"

definition runAutoSweep :: "env \<Rightarrow> int \<Rightarrow> bool \<Rightarrow> (db, sweep_report) action" where
  "runAutoSweep e tz dryRun =
     andThen (query sweepable) (\<lambda>accts.
     sweepLoop e tz dryRun 0 accts \<lparr>sw_created = 0, sw_skipped = 0, sw_details = []\<rparr>)"

section \<open>Sweep now\<close>

record sweep_now_result =
  sn_payout :: payout_row
  sn_swept :: rat
  sn_feeAmount :: rat
  sn_payoutAmount :: rat
  sn_settlement :: ident

definition runAutoSweepSubset :: "env \<Rightarrow> ident \<Rightarrow> (db, sweep_now_result) action" where
  "runAutoSweepSubset e acct =
     andThen (sourceCode acct) (\<lambda>code.
     andThen (chosenSettlement acct None) (\<lambda>s.
     andThen (query (collectionBalance acct)) (\<lambda>balance.
     thenDo (require (\<not> balance \<le> 0) (BadRequest VALIDATION_FAILED))
     (andThen (computeFee FeeDISBURSEMENT acct (Fin balance)) (\<lambda>fee.
      let payoutAmount = balance - feeAmount fee in
      thenDo (require (\<not> payoutAmount < cfg_minPayout (cfg e)) (BadRequest VALIDATION_FAILED))
      (andThen (liftE (buildReference (draw e 0) code None)) (\<lambda>reference.
       andThen (settle e acct ActorADMIN None reference balance
          (settlementPayout e acct code s AUTO_SWEEP reference (Some ''AUTO-SWEEP'') payoutAmount fee)
          ''settlement.sweep_now'' payoutAmount) (\<lambda>p.
       ret \<lparr>sn_payout = p, sn_swept = round2 balance, sn_feeAmount = feeAmount fee,
            sn_payoutAmount = round2 payoutAmount, sn_settlement = sa_id s\<rparr>))))))))"

definition sweepNow :: "env \<Rightarrow> account_key \<Rightarrow> (db, sweep_now_result) action" where
  "sweepNow e k =
     andThen (fetch (NotFound NOT_FOUND) (resolveAccountId k)) (\<lambda>acct. runAutoSweepSubset e acct)"

section \<open>What a settlement does\<close>

text \<open>Money that left an account's COLLECTION wallet, and nothing else.\<close>

definition movedOut :: "ident \<Rightarrow> rat \<Rightarrow> db \<Rightarrow> db \<Rightarrow> bool" where
  "movedOut acct v d d' \<longleftrightarrow> (\<exists>b. balanceOf acct WCOLLECTION d = Some b \<and> v \<le> b \<and>
     balanceOf acct WCOLLECTION d' = Some (b - v)) \<and>
     (\<forall>k. k \<noteq> (acct, WCOLLECTION) \<longrightarrow> balanceOf (fst k) (snd k) d' = balanceOf (fst k) (snd k) d)"

definition tablesKept :: "db \<Rightarrow> db \<Rightarrow> bool" where
  "tablesKept d d' \<longleftrightarrow> settlements d' = settlements d \<and> accounts d' = accounts d \<and>
     fee_configs d' = fee_configs d \<and> set (jobs d) \<subseteq> set (jobs d')"

definition queuedFor :: "payout_row \<Rightarrow> db \<Rightarrow> bool" where
  "queuedFor p d \<longleftrightarrow> (\<exists>j \<in> set (jobs d). j_payload j = PayoutProcess (p_id p) \<and> j_status j = JobPENDING)"

lemma movedOut_cong:
  "wallets d1' = wallets d1 \<Longrightarrow> wallets d2' = wallets d2 \<Longrightarrow> movedOut acct v d1' d2' = movedOut acct v d1 d2"
  by (simp add: movedOut_def balanceOf_cong [of d1' d1] balanceOf_cong [of d2' d2])

lemma settle_eq:
  "settle e acct aty actor ref v mk ev val d =
     (case holdMove WITHDRAWAL e (Some ref) aty actor (acct, WCOLLECTION) (round2 v) d of
        (Inl err, d1) \<Rightarrow> (Inl err, d1)
      | (Inr row, d1) \<Rightarrow> (let p = mk (next_id d1) in
          if p_reference p \<in> p_reference ` set (payouts d1) then (Inl UniqueViolation, d1)
          else (Inr p, snd (track e ev (Some (RowId acct)) (Some val)
             (snd (enqueue e ''payout.process'' (PayoutProcess (p_id p)) 0
                (d1\<lparr>payouts := payouts d1 @ [p], next_id := Suc (next_id d1)\<rparr>)))))))"
  by (simp add: settle_def andThen_def [of "holdMove _ _ _ _ _ _ _"] run track_def Let_def
        split: prod.split sum.split)

lemma settle_run:
  assumes "ledger_ok d" and "0 < v" and "is_cents v"
    and "settle e acct aty actor ref v mk ev val d = (res, d')"
  shows "ledger_ok d' \<and> tablesKept d d' \<and> (case res of
      Inr p \<Rightarrow> (\<exists>i. p = mk i) \<and> payouts d' = payouts d @ [p] \<and> movedOut acct v d d' \<and> queuedFor p d'
    | Inl err \<Rightarrow> payouts d' = payouts d \<and> (d' = d \<or> err = UniqueViolation \<and> movedOut acct v d d'))"
proof -
  obtain h d1 where h: "holdMove WITHDRAWAL e (Some ref) aty actor (acct, WCOLLECTION) v d = (h, d1)"
    by fastforce
  have tabs: "payouts d1 = payouts d" "tablesKept d d1"
    using holdMove_frame [OF ledger_keyed [OF assms(1)] h] by (auto simp: tablesKept_def)
  show ?thesis
  proof (cases h)
    case (Inl err)
    then show ?thesis
      using assms h withdrawal_hold.hold_err [OF assms(1) h [unfolded Inl]]
      by (auto simp: settle_eq tablesKept_def)
  next
    case (Inr row)
    let ?p = "mk (next_id d1)"
    let ?d3 = "snd (track e ev (Some (RowId acct)) (Some val)
             (snd (enqueue e ''payout.process'' (PayoutProcess (p_id ?p)) 0
                (d1\<lparr>payouts := payouts d1 @ [?p], next_id := Suc (next_id d1)\<rparr>))))"
    note hold = withdrawal_hold.hold_ok [OF assms(1-3) h [unfolded Inr]]
    then have moved: "movedOut acct v d d1" by (auto simp: movedOut_def)
    have fields: "wallets ?d3 = wallets d1" "wallet_txs ?d3 = wallet_txs d1" "payouts ?d3 = payouts d1 @ [?p]"
        "settlements ?d3 = settlements d1" "accounts ?d3 = accounts d1" "fee_configs ?d3 = fee_configs d1"
        "next_id d1 \<le> next_id ?d3" "set (jobs d1) \<subseteq> set (jobs ?d3)"
      by (simp_all add: track_def enqueue_def Let_def subset_insertI)
    have job: "queuedFor ?p ?d3" by (simp add: queuedFor_def track_def enqueue_def Let_def)
    have ok3: "ledger_ok ?d3" using hold ledger_ok_cong [OF fields(1,2,7)] by simp
    have "movedOut acct v d ?d3" using moved movedOut_cong [of d d ?d3 d1, OF refl fields(1)] by simp
    with job ok3 show ?thesis
      using assms(3,4) h Inr hold moved tabs fields
      by (auto simp: settle_eq Let_def tablesKept_def split: if_splits)
  qed
qed

lemma settlementPayout_fields [simp]:
  "p_id (settlementPayout e acct code s kind ref cref v fee i) = i"
  "p_account (settlementPayout e acct code s kind ref cref v fee i) = acct"
  "p_status (settlementPayout e acct code s kind ref cref v fee i) = TxPENDING"
  "p_payoutKind (settlementPayout e acct code s kind ref cref v fee i) = kind"
  "p_channel (settlementPayout e acct code s kind ref cref v fee i) = settlementChannel s"
  "p_sourceWallet (settlementPayout e acct code s kind ref cref v fee i) = WCOLLECTION"
  "p_amount (settlementPayout e acct code s kind ref cref v fee i) = round2 v"
  "p_walletDebitedAt (settlementPayout e acct code s kind ref cref v fee i) = Some (now e)"
  "p_refundedAt (settlementPayout e acct code s kind ref cref v fee i) = None"
  "p_createdAt (settlementPayout e acct code s kind ref cref v fee i) = now e"
  by (simp_all add: settlementPayout_def Let_def)

lemma settlementPayout_debit:
  "is_cents v \<Longrightarrow> is_cents (feeAmount fee) \<Longrightarrow>
     payoutDebit (settlementPayout e acct code s kind ref cref v fee i) = v + feeAmount fee"
  by (simp add: payoutDebit_def settlementPayout_def Let_def)

text \<open>Where a settlement payout goes.\<close>

definition paysTo :: "payout_row \<Rightarrow> settlement_row \<Rightarrow> bool" where
  "paysTo p s \<longleftrightarrow> p_channel p = settlementChannel s \<and>
     p_phoneNumber p = (if sa_type s = SettleMOBILE then sa_phoneNumber s else None) \<and>
     p_accountNumber p = (if sa_type s = SettleBANK then sa_accountNumber s else None)"

lemma settlementPayout_paysTo [simp]: "paysTo (settlementPayout e acct code s kind ref cref v fee i) s"
  by (simp add: paysTo_def settlementPayout_def Let_def)

lemma defaultSettlement_mem:
  assumes "defaultSettlement acct d = Some s"
  shows "s \<in> set (settlements d) \<and> sa_account s = acct \<and> sa_isActive s \<and> sa_isDefault s"
proof -
  let ?xs = "filter (\<lambda>s. sa_account s = acct \<and> sa_isActive s \<and> sa_isDefault s) (settlements d)"
  have "s \<in> set (orderAsc sa_createdAt ?xs)"
    using assms by (auto simp: defaultSettlement_def split: list.splits)
  then show ?thesis by (simp add: orderAsc_def)
qed

lemma chosenSettlement_run:
  "chosenSettlement acct c d = (r, d') \<Longrightarrow> d' = d \<and>
     (\<forall>s. r = Inr s \<longrightarrow> s \<in> set (settlements d) \<and> sa_account s = acct \<and> sa_isActive s)"
  by (auto simp: chosenSettlement_def getDefaultSettlementAccount_def andThen_assoc run activeSettlement_def
        dest: defaultSettlement_mem find_SomeD split: option.splits)

text \<open>The withdrawal as its checks followed by the settlement.\<close>

definition withdrawalChecks ::
    "env \<Rightarrow> ident \<Rightarrow> withdrawal_dto \<Rightarrow> db \<Rightarrow> err + string \<times> settlement_row \<times> rat" where
  "withdrawalChecks e acct dto d =
     (case sourceCodeOf acct d of None \<Rightarrow> Inl (NotFound NOT_FOUND)
      | Some code \<Rightarrow> (case fst (chosenSettlement acct (wd_settlementAccountId dto) d) of
          Inl err \<Rightarrow> Inl err
        | Inr s \<Rightarrow> (case wd_amount dto of
            Fin v \<Rightarrow> if v \<le> 0 then Inl (BadRequest VALIDATION_FAILED) else Inr (code, s, v)
          | _ \<Rightarrow> Inl DecimalError)))"

lemma andThen_chosen [run]:
  "andThen (chosenSettlement acct c) k d = (case fst (chosenSettlement acct c d) of
     Inl err \<Rightarrow> (Inl err, d) | Inr s \<Rightarrow> k s d)"
  using chosenSettlement_run [of acct c d "fst (chosenSettlement acct c d)" "snd (chosenSettlement acct c d)"]
  by (auto simp: andThen_def split: sum.split prod.split)

lemma andThen_positiveAmount [run]:
  "andThen (positiveAmount a) k d = (case a of
     Fin v \<Rightarrow> if v \<le> 0 then (Inl (BadRequest VALIDATION_FAILED), d) else k v d
   | _ \<Rightarrow> (Inl DecimalError, d))"
  by (simp add: positiveAmount_def andThen_assoc run split: decimal.split)

lemma createWithdrawal_run:
  "createWithdrawal e acct dto aty actor d = (case withdrawalChecks e acct dto d of
     Inl err \<Rightarrow> (Inl err, d)
   | Inr (code, s, v) \<Rightarrow> (case getConfig acct d of
       (Inl err, d1) \<Rightarrow> (Inl err, d1)
     | (Inr c, d1) \<Rightarrow> (let fee = tierFee FeeDISBURSEMENT c v; t = v + feeAmount fee in
         if t < cfg_minPayout (cfg e) then (Inl (BadRequest VALIDATION_FAILED), d1)
         else case buildReference (draw e 0) code (wd_reference dto) of
           Inl err \<Rightarrow> (Inl err, d1)
         | Inr ref \<Rightarrow> settle e acct aty actor ref t
             (settlementPayout e acct code s WITHDRAWAL_KIND ref
                (map_option toUpperCase (wd_reference dto)) v fee) ''settlement.withdrawal'' v d1)))"
  by (cases "sourceCodeOf acct d"; cases "fst (chosenSettlement acct (wd_settlementAccountId dto) d)";
      cases "wd_amount dto")
    (simp_all add: createWithdrawal_def withdrawalChecks_def sourceCode_def run Let_def
       split: prod.split sum.split)

lemma withdrawalChecks_Inr:
  assumes "withdrawalChecks e acct dto d = Inr (code, s, v)"
  shows "wd_amount dto = Fin v \<and> 0 < v \<and> s \<in> set (settlements d) \<and> sa_account s = acct \<and> sa_isActive s"
  using assms chosenSettlement_run [OF surjective_pairing, of acct "wd_settlementAccountId dto" d]
  by (auto simp: withdrawalChecks_def split: option.splits sum.splits decimal.splits if_splits)

section \<open>Properties\<close>


section \<open>What a sweep does\<close>

lemma sweepAccount_eq:
  "sweepAccount e tz dry n a d =
     (if findAccount (a_id a) d = None then (Inl (NotFound NOT_FOUND), d)
      else case defaultSettlement (a_id a) d of
        None \<Rightarrow> (Inr (Skipped NoSettlementAccount), d)
      | Some s \<Rightarrow> (let bal = collectionBalance (a_id a) d in
          if bal \<le> 0 then (Inr (Skipped EmptyCollectionWallet), d)
          else if alreadySwept (startOfToday tz e) (a_id a) d then (Inr (Skipped AlreadySweptToday), d)
          else case getConfig (a_id a) d of
            (Inl err, d1) \<Rightarrow> (Inl err, d1)
          | (Inr c, d1) \<Rightarrow> (let fee = tierFee FeeDISBURSEMENT c bal; v = bal - feeAmount fee in
              if v < cfg_minPayout (cfg e) then (Inr (Skipped (BelowMinimum (round2 v))), d1)
              else case buildReference (draw e n) (a_sourceCode a) None of
                Inl err \<Rightarrow> (Inl err, d1)
              | Inr ref \<Rightarrow>
                  if dry then (Inr (Skipped (DryRun ref (round2 v))), d1)
                  else (case settle e (a_id a) ActorSYSTEM None ref bal
                          (settlementPayout e (a_id a) (a_sourceCode a) s AUTO_SWEEP ref
                             (Some ''AUTO-SWEEP'') v fee) ''settlement.auto_sweep'' v d1 of
                     (Inl err, d2) \<Rightarrow> (Inl err, d2) | (Inr p, d2) \<Rightarrow> (Inr (Swept p), d2)))))"
proof (cases "findAccount (a_id a) d")
  case (Some r)
  show ?thesis
  proof (cases "defaultSettlement (a_id a) d")
    case None
    then show ?thesis using Some
      by (simp add: sweepAccount_def getDefaultSettlementAccount_def andThen_assoc run)
  next
    case (Some s)
    note s = Some \<open>findAccount (a_id a) d = Some r\<close>
    obtain c d1 where c: "getConfig (a_id a) d = (c, d1)" by fastforce
    show ?thesis
      using s c
      by (cases c)
        (simp_all add: sweepAccount_def getDefaultSettlementAccount_def andThen_assoc run Let_def
           andThen_def [of "settle _ _ _ _ _ _ _ _ _"] split: prod.split sum.split)
  qed
qed (simp add: sweepAccount_def getDefaultSettlementAccount_def andThen_assoc run)

text \<open>A payout that one sweep made of an account's whole balance.\<close>

definition sweepPayout :: "env \<Rightarrow> int \<Rightarrow> db \<Rightarrow> db \<Rightarrow> payout_row \<Rightarrow> bool" where
  "sweepPayout e tz d d' p \<longleftrightarrow> p_payoutKind p = AUTO_SWEEP \<and> p_status p = TxPENDING \<and>
     cfg_minPayout (cfg e) \<le> p_amount p \<and> 0 < payoutDebit p \<and> queuedFor p d' \<and>
     (\<exists>s. defaultSettlement (p_account p) d = Some s \<and> paysTo p s) \<and>
     \<not> alreadySwept (startOfToday tz e) (p_account p) d \<and>
     balanceOf (p_account p) WCOLLECTION d = Some (payoutDebit p) \<and>
     balanceOf (p_account p) WCOLLECTION d' = Some 0"

definition sweepFrame :: "db \<Rightarrow> db \<Rightarrow> bool" where
  "sweepFrame d d' \<longleftrightarrow> ledger_ok d' \<and> fees_ok d' \<and> settlements d' = settlements d \<and>
     accounts d' = accounts d \<and> set (jobs d) \<subseteq> set (jobs d')"

lemma getConfig_sweepFrame:
  assumes "ledger_ok d" and "fees_ok d" and "getConfig acct d = (c, d1)"
  shows "sweepFrame d d1 \<and> wallets d1 = wallets d \<and> payouts d1 = payouts d"
proof -
  obtain fc where d1: "d1 = d\<lparr>fee_configs := fc\<rparr>" using getConfig_fee_configs [OF assms(3)] by blast
  have "fees_ok d1" using keepsD [OF keeps_fees_ok_getConfig assms(2), of acct] assms(3) by simp
  then show ?thesis using assms(1) by (simp add: sweepFrame_def d1)
qed

lemma ledger_balance_cents: "ledger_ok d \<Longrightarrow> balanceOf acct ty d = Some b \<Longrightarrow> is_cents b"
  unfolding balanceOf_def findWallet_def ledger_ok_def
  using find_SomeD wallet_ledger_okD(2) by fastforce

text \<open>One account: nothing, or its whole balance as one payout, or (a reference that is taken) its
  whole balance lost.\<close>

lemma sweepCaught_run:
  assumes ok: "ledger_ok d" and fees: "fees_ok d" and run: "sweepCaught e tz dry n a d = (r, d')"
  shows "\<exists>out. r = Inr out \<and> sweepFrame d d' \<and>
    (case out of
       Swept p \<Rightarrow> \<not> dry \<and> p_account p = a_id a \<and> payouts d' = payouts d @ [p] \<and> sweepPayout e tz d d' p \<and>
         movedOut (a_id a) (payoutDebit p) d d'
     | Skipped w \<Rightarrow> ((\<exists>ref v. w = DryRun ref v) \<longrightarrow> dry) \<and> payouts d' = payouts d \<and> (wallets d' = wallets d \<or>
         w = SweepError UniqueViolation \<and> \<not> dry \<and> movedOut (a_id a) (collectionBalance (a_id a) d) d d'))"
proof -
  have same: "sweepFrame d d" using ok fees by (simp add: sweepFrame_def)
  obtain q d2 where q: "sweepAccount e tz dry n a d = (q, d2)" by fastforce
  have r: "r = (case q of Inl err \<Rightarrow> Inr (Skipped (SweepError err)) | Inr out \<Rightarrow> Inr out)" and d': "d' = d2"
    using run q by (auto simp: sweepCaught_def attempt_def ret_run split: sum.splits)
  show ?thesis
  proof (cases "findAccount (a_id a) d = None \<or> defaultSettlement (a_id a) d = None \<or>
      collectionBalance (a_id a) d \<le> 0 \<or> alreadySwept (startOfToday tz e) (a_id a) d")
    case True
    then show ?thesis using q r d' same
      by (auto simp: sweepAccount_eq Let_def split: if_splits option.splits)
  next
    case False
    then obtain s where s: "defaultSettlement (a_id a) d = Some s" by auto
    let ?b = "collectionBalance (a_id a) d"
    have b: "0 < ?b" "balanceOf (a_id a) WCOLLECTION d = Some ?b"
      using False by (auto simp: collectionBalance_def split: option.splits)
    then have cents: "is_cents ?b" using ledger_balance_cents [OF ok] by blast
    obtain c d1 where c: "getConfig (a_id a) d = (c, d1)" by fastforce
    note g = getConfig_sweepFrame [OF ok fees c]
    show ?thesis
    proof (cases "\<exists>cf ref. c = Inr cf \<and> buildReference (draw e n) (a_sourceCode a) None = Inr ref \<and> \<not> dry \<and>
        cfg_minPayout (cfg e) \<le> ?b - feeAmount (tierFee FeeDISBURSEMENT cf ?b)")
      case False: False
      then show ?thesis using q r d' g c s \<open>\<not> (_ \<or> _ \<or> _ \<or> _)\<close>
        by (cases c) (auto simp: sweepAccount_eq Let_def split: if_splits sum.splits)
    next
      case True
      then obtain cf ref where cf: "c = Inr cf" and ref: "buildReference (draw e n) (a_sourceCode a) None = Inr ref"
        and nd: "\<not> dry" and mn: "cfg_minPayout (cfg e) \<le> ?b - feeAmount (tierFee FeeDISBURSEMENT cf ?b)" by blast
      let ?fee = "tierFee FeeDISBURSEMENT cf ?b"
      let ?mk = "settlementPayout e (a_id a) (a_sourceCode a) s AUTO_SWEEP ref (Some ''AUTO-SWEEP'')
          (?b - feeAmount ?fee) ?fee"
      obtain z d3 where z: "settle e (a_id a) ActorSYSTEM None ref ?b ?mk ''settlement.auto_sweep''
          (?b - feeAmount ?fee) d1 = (z, d3)" by fastforce
      have res: "q = (case z of Inl err \<Rightarrow> Inl err | Inr p \<Rightarrow> Inr (Swept p))" "d2 = d3"
        using q c cf ref nd mn s z \<open>\<not> (_ \<or> _ \<or> _ \<or> _)\<close>
        by (auto simp: sweepAccount_eq Let_def split: sum.splits)
      have ok1: "ledger_ok d1" using g by (simp add: sweepFrame_def)
      note st = settle_run [OF ok1 b(1) cents z]
      have m: "movedOut (a_id a) x d1 d3 = movedOut (a_id a) x d d3" for x
        by (rule movedOut_cong) (simp_all add: g)
      have fr: "sweepFrame d d3" using st g by (auto simp: sweepFrame_def tablesKept_def fees_ok_def)
      show ?thesis
      proof (cases z)
        case (Inl err)
        then show ?thesis using st res r d' fr m g nd by auto
      next
        case (Inr p)
        then obtain i where p: "p = ?mk i" using st by auto
        have v: "is_cents (?b - feeAmount ?fee)" using cents disb.fee_cents by simp
        have debit: "payoutDebit p = ?b" using settlementPayout_debit [OF v disb.fee_cents] by (simp add: p)
        have mv: "movedOut (a_id a) ?b d d3" using st Inr m by simp
        then have "balanceOf (a_id a) WCOLLECTION d3 = Some 0" using b(2) by (simp add: movedOut_def)
        then have "sweepPayout e tz d d3 p"
          using debit b st Inr s mn v \<open>\<not> (_ \<or> _ \<or> _ \<or> _)\<close> by (simp add: sweepPayout_def p)
        then show ?thesis using st res r d' fr mv g nd Inr debit by (auto simp: p)
      qed
    qed
  qed
qed

text \<open>Whatever happens to other accounts leaves a sweep's payout as it is.\<close>

lemma sweepPayout_later:
  assumes "sweepPayout e tz d d1 p" and "balanceOf (p_account p) WCOLLECTION d' = balanceOf (p_account p) WCOLLECTION d1"
    and "set (jobs d1) \<subseteq> set (jobs d')"
  shows "sweepPayout e tz d d' p"
  using assms by (auto simp: sweepPayout_def queuedFor_def)

lemma sweepPayout_earlier:
  assumes "sweepPayout e tz d1 d' p" and "balanceOf (p_account p) WCOLLECTION d1 = balanceOf (p_account p) WCOLLECTION d"
    and "settlements d1 = settlements d" and "payouts d1 = payouts d @ rows"
  shows "sweepPayout e tz d d' p"
  using assms by (auto simp: sweepPayout_def defaultSettlement_def alreadySwept_def)

text \<open>The accounts of a run: those swept, and those whose sweep failed after the debit.\<close>

definition strandedBy :: "(ident \<times> sweep_outcome) list \<Rightarrow> ident set" where
  "strandedBy ds = {i. (i, Skipped (SweepError UniqueViolation)) \<in> set ds}"

definition sweepRun ::
    "env \<Rightarrow> int \<Rightarrow> bool \<Rightarrow> ident list \<Rightarrow> db \<Rightarrow> db \<Rightarrow> payout_row list \<Rightarrow> (ident \<times> sweep_outcome) list \<Rightarrow> bool" where
  "sweepRun e tz dry is d d' rows ds \<longleftrightarrow> sweepFrame d d' \<and> payouts d' = payouts d @ rows \<and>
     map fst ds = is \<and> distinct (map p_account rows) \<and> p_account ` set rows \<subseteq> set is \<and>
     (dry \<longrightarrow> rows = [] \<and> wallets d' = wallets d) \<and>
     (\<forall>p \<in> set rows. sweepPayout e tz d d' p \<and> (p_account p, Swept p) \<in> set ds) \<and>
     (\<forall>a ty. balanceOf a ty d' = balanceOf a ty d \<or>
        ty = WCOLLECTION \<and> balanceOf a ty d' = Some 0 \<and> (a \<in> p_account ` set rows \<or> a \<in> strandedBy ds))"

lemma movedOut_all:
  assumes "movedOut i v d d'" and "balanceOf i WCOLLECTION d = Some v"
  shows "balanceOf a ty d' = balanceOf a ty d \<or> ty = WCOLLECTION \<and> balanceOf a ty d' = Some 0 \<and> a = i"
  using assms by (cases "(a, ty) = (i, WCOLLECTION)") (auto simp: movedOut_def)

definition sweepStep ::
    "env \<Rightarrow> int \<Rightarrow> bool \<Rightarrow> ident \<Rightarrow> sweep_outcome \<Rightarrow> db \<Rightarrow> db \<Rightarrow> bool" where
  "sweepStep e tz dry i out d d1 \<longleftrightarrow> (case out of
       Swept p \<Rightarrow> \<not> dry \<and> p_account p = i \<and> payouts d1 = payouts d @ [p] \<and> sweepPayout e tz d d1 p \<and>
         movedOut i (payoutDebit p) d d1
     | Skipped w \<Rightarrow> ((\<exists>ref v. w = DryRun ref v) \<longrightarrow> dry) \<and> payouts d1 = payouts d \<and> (wallets d1 = wallets d \<or>
         w = SweepError UniqueViolation \<and> \<not> dry \<and> movedOut i (collectionBalance i d) d d1))"

definition sweptOf :: "sweep_outcome \<Rightarrow> payout_row list" where
  "sweptOf out = (case out of Swept p \<Rightarrow> [p] | Skipped _ \<Rightarrow> [])"

text \<open>One step changes at most the balance of its own account, and only to zero.\<close>

lemma sweepStep_balance:
  assumes "sweepStep e tz dry i out d d1"
  shows "balanceOf a ty d1 = balanceOf a ty d \<or> ty = WCOLLECTION \<and> balanceOf a ty d1 = Some 0 \<and> a = i \<and>
    (i \<in> p_account ` set (sweptOf out) \<or> out = Skipped (SweepError UniqueViolation)) \<and> \<not> dry"
proof (cases out)
  case (Swept p)
  then have "movedOut i (payoutDebit p) d d1" and "balanceOf i WCOLLECTION d = Some (payoutDebit p)"
    and "p_account p = i" and "\<not> dry"
    using assms by (auto simp: sweepStep_def sweepPayout_def)
  then show ?thesis using movedOut_all [of i "payoutDebit p" d d1 a ty] Swept by (auto simp: sweptOf_def)
next
  case (Skipped w)
  show ?thesis
  proof (cases "wallets d1 = wallets d")
    case True
    then show ?thesis using balanceOf_cong by blast
  next
    case False
    then have *: "w = SweepError UniqueViolation" "movedOut i (collectionBalance i d) d d1" "\<not> dry"
      using assms Skipped by (auto simp: sweepStep_def)
    then have "balanceOf i WCOLLECTION d = Some (collectionBalance i d)"
      by (auto simp: movedOut_def collectionBalance_def)
    then show ?thesis using movedOut_all [OF *(2)] * Skipped by blast
  qed
qed

lemma sweepRun_accounts:
  assumes "sweepRun e tz dry is d d' rows ds" and "i \<notin> set is"
  shows "balanceOf i ty d' = balanceOf i ty d"
  using assms by (force simp: sweepRun_def strandedBy_def)

lemma sweepRun_Cons:
  assumes fr: "sweepFrame d d1" and step: "sweepStep e tz dry i out d d1"
    and R: "sweepRun e tz dry is d1 d' rows ds" and i: "i \<notin> set is"
  shows "sweepRun e tz dry (i # is) d d' (sweptOf out @ rows) ((i, out) # ds)"
proof -
  have accts: "p_account ` set rows \<subseteq> set is" and jobs: "set (jobs d1) \<subseteq> set (jobs d')"
    using R by (simp_all add: sweepRun_def sweepFrame_def)
  have new: "payouts d1 = payouts d @ sweptOf out" "p_account ` set (sweptOf out) \<subseteq> {i}"
    using step by (auto simp: sweepStep_def sweptOf_def split: sweep_outcome.splits)
  have later: "balanceOf i ty d' = balanceOf i ty d1" for ty by (rule sweepRun_accounts [OF R i])
  have earlier: "balanceOf a ty d1 = balanceOf a ty d" if "a \<noteq> i" for a ty
    using sweepStep_balance [OF step, of a ty] that by blast
  have head: "sweepPayout e tz d d' p" if "p \<in> set (sweptOf out)" for p
  proof -
    have "sweepPayout e tz d d1 p" and "p_account p = i"
      using step that by (auto simp: sweepStep_def sweptOf_def split: sweep_outcome.splits)
    then show ?thesis using sweepPayout_later later jobs by simp
  qed
  have tail: "sweepPayout e tz d d' p" if "p \<in> set rows" for p
  proof -
    have "sweepPayout e tz d1 d' p" using R that by (simp add: sweepRun_def)
    moreover have "p_account p \<noteq> i" using that accts i by auto
    ultimately show ?thesis
      using sweepPayout_earlier [of e tz d1 d' p d, OF _ earlier _ new(1)] fr by (simp add: sweepFrame_def)
  qed
  have dry: "dry \<Longrightarrow> sweptOf out = [] \<and> wallets d1 = wallets d"
    using step by (auto simp: sweepStep_def sweptOf_def split: sweep_outcome.splits)
  have bal: "balanceOf a ty d' = balanceOf a ty d \<or> ty = WCOLLECTION \<and> balanceOf a ty d' = Some 0 \<and>
      (a \<in> p_account ` set (sweptOf out @ rows) \<or> a \<in> strandedBy ((i, out) # ds))" for a ty
  proof (cases "a = i")
    case True
    then show ?thesis using sweepStep_balance [OF step, of a ty] later by (auto simp: strandedBy_def)
  next
    case False
    then have "balanceOf a ty d1 = balanceOf a ty d" by (rule earlier)
    moreover have "balanceOf a ty d' = balanceOf a ty d1 \<or> ty = WCOLLECTION \<and> balanceOf a ty d' = Some 0 \<and>
        (a \<in> p_account ` set rows \<or> a \<in> strandedBy ds)" using R unfolding sweepRun_def by blast
    ultimately show ?thesis by (auto simp: strandedBy_def)
  qed
  have Rd: "distinct (map p_account rows)" "sweepFrame d1 d'" "map fst ds = is" "payouts d' = payouts d1 @ rows"
      "dry \<longrightarrow> rows = [] \<and> wallets d' = wallets d1" "\<forall>p \<in> set rows. (p_account p, Swept p) \<in> set ds"
    using R unfolding sweepRun_def by blast+
  show ?thesis
    unfolding sweepRun_def
  proof (intro conjI)
    show "distinct (map p_account (sweptOf out @ rows))"
      using Rd new(2) accts i by (cases out) (auto simp: sweptOf_def)
    show "sweepFrame d d'" using fr Rd(2) by (auto simp: sweepFrame_def)
    show "payouts d' = payouts d @ sweptOf out @ rows" using Rd(4) new(1) by simp
    show "map fst ((i, out) # ds) = i # is" using Rd(3) by simp
    show "p_account ` set (sweptOf out @ rows) \<subseteq> set (i # is)" using new(2) accts by auto
    show "dry \<longrightarrow> sweptOf out @ rows = [] \<and> wallets d' = wallets d" using dry Rd(5) by simp
    have "(p_account p, Swept p) \<in> set ((i, out) # ds)" if "p \<in> set (sweptOf out @ rows)" for p
      using that Rd(6) step by (cases out) (auto simp: sweptOf_def sweepStep_def)
    then show "\<forall>p \<in> set (sweptOf out @ rows). sweepPayout e tz d d' p \<and> (p_account p, Swept p) \<in> set ((i, out) # ds)"
      using head tail by (metis UnE set_append)
    show "\<forall>a ty. balanceOf a ty d' = balanceOf a ty d \<or> ty = WCOLLECTION \<and> balanceOf a ty d' = Some 0 \<and>
        (a \<in> p_account ` set (sweptOf out @ rows) \<or> a \<in> strandedBy ((i, out) # ds))"
      using bal by blast
  qed
qed

lemma sweepLoop_run:
  assumes "ledger_ok d" and "fees_ok d" and "distinct (map a_id as)"
    and "sweepLoop e tz dry n as rep d = (res, d')"
  shows "\<exists>rep' rows ds. res = Inr rep' \<and> sweepRun e tz dry (map a_id as) d d' rows ds \<and>
    sw_created rep' = sw_created rep + length rows \<and> sw_details rep' = sw_details rep @ ds \<and>
    (\<not> dry \<longrightarrow> sw_created rep' + sw_skipped rep' = sw_created rep + sw_skipped rep + length as)"
  using assms
proof (induction as arbitrary: n rep d)
  case Nil
  then have "res = Inr rep \<and> d' = d" by (simp add: ret_run)
  then show ?case using Nil.prems(1,2)
    by (intro exI [of _ rep] exI [of _ "[]"]) (simp add: sweepRun_def sweepFrame_def)
next
  case (Cons a as)
  obtain q d1 where q: "sweepCaught e tz dry n a d = (q, d1)" by fastforce
  obtain out where out: "q = Inr out" and fr: "sweepFrame d d1" and step: "sweepStep e tz dry (a_id a) out d d1"
    using sweepCaught_run [OF Cons.prems(1,2) q] unfolding sweepStep_def by blast
  have rest: "sweepLoop e tz dry (Suc n) as (addOutcome (a_id a) out rep) d1 = (res, d')"
    using Cons.prems(4) q out by (simp add: andThen_def)
  have pre: "ledger_ok d1" "fees_ok d1" "distinct (map a_id as)"
    using fr Cons.prems(3) by (simp_all add: sweepFrame_def)
  obtain rep' rows ds where res: "res = Inr rep'" and R: "sweepRun e tz dry (map a_id as) d1 d' rows ds"
    and cnt: "sw_created rep' = sw_created (addOutcome (a_id a) out rep) + length rows"
      "sw_details rep' = sw_details (addOutcome (a_id a) out rep) @ ds"
      "\<not> dry \<longrightarrow> sw_created rep' + sw_skipped rep' = sw_created (addOutcome (a_id a) out rep) +
         sw_skipped (addOutcome (a_id a) out rep) + length as"
    using Cons.IH [OF pre rest] by blast
  let ?new = "sweptOf out"
  have S: "sweepRun e tz dry (map a_id (a # as)) d d' (?new @ rows) ((a_id a, out) # ds)"
    using sweepRun_Cons [OF fr step R] Cons.prems(3) by simp
  show ?case
    using res S cnt step
    by (intro exI [of _ rep'] exI [of _ "?new @ rows"] exI [of _ "(a_id a, out) # ds"])
      (auto simp: addOutcome_def sweptOf_def sweepStep_def split: sweep_outcome.split sweep_reason.split)
qed


definition sample_settlement :: settlement_row where
  "sample_settlement = newSettlement default_env 0 (MobileSettlement TIGO ''255712345678'') True 9"

definition sample_sweep_db :: db where
  "sample_sweep_db = sample_push_db\<lparr>
     accounts := map (\<lambda>a. a\<lparr>a_autoSweep := True\<rparr>) (accounts sample_push_db), next_id := 10, settlements := [sample_settlement],
     wallets := [\<lparr>w_id = 1, w_account = 0, w_type = WCOLLECTION, w_currency = ''TZS'',
                  w_balance = 100, w_status = WalletACTIVE\<rparr>]\<rparr>"

text \<open>A day when the minimum payout is 50.\<close>

definition sample_sweep_env :: env where
  "sample_sweep_env = default_env\<lparr>cfg := default_config\<lparr>cfg_minPayout := 50\<rparr>\<rparr>"

lemma sample_sweep_db_ok: "ledger_ok sample_sweep_db" "fees_ok sample_sweep_db"
    "distinct (map a_id (accounts sample_sweep_db))"
  by (simp_all add: ledger_ok_def wallets_keyed_def wallet_ledger_ok_def sample_sweep_db_def
        sample_push_db_def sample_db_def empty_db_def ledgerOf_def lastAfter_def is_cents_def fees_ok_def)

lemma sample_sweep_runs:
  "case runAutoSweep sample_sweep_env 10800000 False sample_sweep_db of
     (Inr rep, d') \<Rightarrow> sw_created rep = 1 | _ \<Rightarrow> False"
  by code_simp


definition sample_withdrawal :: withdrawal_dto where
  "sample_withdrawal = \<lparr>wd_amount = Fin 60, wd_reference = Some ''w1'', wd_settlementAccountId = None\<rparr>"

lemma sample_withdrawal_runs:
  "case createWithdrawal sample_sweep_env 0 sample_withdrawal ActorAPI_KEY None sample_sweep_db of
     (Inr p, d') \<Rightarrow> payoutDebit p = 63 | _ \<Rightarrow> False"
  by code_simp


section \<open>The default settlement account\<close>

definition settle_inv :: "db \<Rightarrow> bool" where
  "settle_inv d \<longleftrightarrow> distinct (map sa_id (settlements d)) \<and>
     (\<forall>s \<in> set (settlements d). sa_id s < next_id d) \<and>
     (\<forall>s \<in> set (settlements d). \<forall>t \<in> set (settlements d).
        sa_account s = sa_account t \<and> sa_isDefault s \<and> sa_isDefault t \<longrightarrow> s = t)"

definition withoutDefaults :: "ident \<Rightarrow> db \<Rightarrow> db" where
  "withoutDefaults acct d = d\<lparr>settlements :=
     updateWhere (\<lambda>s. sa_account s = acct) (\<lambda>s. s\<lparr>sa_isDefault := False\<rparr>) (settlements d)\<rparr>"

lemma clearDefaults_run: "clearDefaults acct d = (Inr (), withoutDefaults acct d)"
  by (simp add: clearDefaults_def withoutDefaults_def)

lemma withoutDefaults_ids [simp]:
  "map sa_id (settlements (withoutDefaults acct d)) = map sa_id (settlements d)"
  "next_id (withoutDefaults acct d) = next_id d"
  by (simp_all add: withoutDefaults_def map_updateWhere)

lemma withoutDefaults_none:
  "s \<in> set (settlements (withoutDefaults acct d)) \<Longrightarrow> sa_account s = acct \<Longrightarrow> \<not> sa_isDefault s"
  unfolding withoutDefaults_def by (simp, erule in_updateWhereE) simp_all

lemma withoutDefaults_other:
  "s \<in> set (settlements (withoutDefaults acct d)) \<Longrightarrow> sa_account s \<noteq> acct \<Longrightarrow> s \<in> set (settlements d)"
  unfolding withoutDefaults_def by (simp, erule in_updateWhereE) simp_all

lemma settle_inv_withoutDefaults:
  assumes "settle_inv d" shows "settle_inv (withoutDefaults acct d)"
proof -
  have "\<forall>s \<in> set (settlements (withoutDefaults acct d)). sa_id s \<in> sa_id ` set (settlements d)"
    using arg_cong [OF withoutDefaults_ids(1), of set acct d] by (metis image_eqI list.set_map)
  moreover have "s = t"
    if "s \<in> set (settlements (withoutDefaults acct d))" "t \<in> set (settlements (withoutDefaults acct d))"
      and "sa_account s = sa_account t" "sa_isDefault s" "sa_isDefault t" for s t
    using that assms withoutDefaults_none [of s acct d] withoutDefaults_other [of _ acct d]
    unfolding settle_inv_def by metis
  ultimately show ?thesis using assms unfolding settle_inv_def by fastforce
qed

lemma setSettlement_keeps [simp]:
  "sa_id (setSettlement v s) = sa_id s" "sa_account (setSettlement v s) = sa_account s"
  "sa_isDefault (setSettlement v s) = sa_isDefault s" "sa_isActive (setSettlement v s) = sa_isActive s"
  by (cases v; simp)+

lemma patchedSettlement_keeps [simp]:
  "sa_id (patchedSettlement p v s) = sa_id s" "sa_account (patchedSettlement p v s) = sa_account s"
  "sa_isDefault (patchedSettlement p v s) = (case sp_isDefault p of None \<Rightarrow> sa_isDefault s | Some b \<Rightarrow> b)"
  by (simp_all add: patchedSettlement_def Let_def split: option.split)

lemma defaultSettlement_none:
  "defaultSettlement acct d = None \<longleftrightarrow>
     (\<forall>s \<in> set (settlements d). \<not> (sa_account s = acct \<and> sa_isActive s \<and> sa_isDefault s))"
proof -
  have "defaultSettlement acct d = None \<longleftrightarrow>
      set (filter (\<lambda>s. sa_account s = acct \<and> sa_isActive s \<and> sa_isDefault s) (settlements d)) = {}"
    unfolding defaultSettlement_def orderAsc_def
    by (metis (no_types, lifting) list.simps(4,5) neq_Nil_conv option.distinct(1) set_empty set_sort)
  then show ?thesis by auto
qed

lemma validate_error: "validateSettlementInput input = Inl err \<Longrightarrow> err = BadRequest VALIDATION_FAILED"
  by (auto simp: validateSettlementInput_def split: if_splits option.splits)

text \<open>The update as its checks and its two writes.\<close>

definition updateSettled :: "ident \<Rightarrow> ident \<Rightarrow> settlement_patch \<Rightarrow> settlement_data option \<Rightarrow> db \<Rightarrow> db" where
  "updateSettled acct i p v d = (let d1 = (if sp_isDefault p = Some True then withoutDefaults acct d else d)
     in d1\<lparr>settlements := updateWhere (\<lambda>s. sa_id s = i) (patchedSettlement p v) (settlements d1)\<rparr>)"

definition patchData :: "settlement_patch \<Rightarrow> err + settlement_data option" where
  "patchData p = (if si_type (sp_input p) = None then Inr None
     else map_sum id Some (validateSettlementInput (sp_input p)))"

lemma updateSettlement_run:
  assumes "resolveAccountId k d = Some acct" and "findSettlement acct i d = Some row"
  shows "updateSettlementAccount k i p d = (case patchData p of
      Inl err \<Rightarrow> (Inl err, if sp_isDefault p = Some True then withoutDefaults acct d else d)
    | Inr v \<Rightarrow> (case findSettlement acct i (updateSettled acct i p v d) of
        None \<Rightarrow> (Inl RecordNotFound, updateSettled acct i p v d)
      | Some s \<Rightarrow> (Inr s, updateSettled acct i p v d)))"
proof -
  have i: "sa_id row = i" using assms(2) by (auto simp: findSettlement_def dest: find_SomeD)
  have f: "fetch RecordNotFound q d = (case q d of None \<Rightarrow> (Inl RecordNotFound, d) | Some s \<Rightarrow> (Inr s, d))"
    for q :: "db \<Rightarrow> settlement_row option" and d by (simp add: fetch_def)
  show ?thesis
    using assms(1,2) i
    by (auto simp: updateSettlementAccount_def run f clearDefaults_run patchData_def updateSettled_def
        andThen_def [of "clearDefaults _"] Let_def split: sum.split option.split)
qed

lemma settle_inv_patch:
  assumes inv: "settle_inv d" and row: "row \<in> set (settlements d)" "sa_id row = i" "sa_account row = acct"
    and dflt: "sp_isDefault p = Some True \<longrightarrow> (\<forall>s \<in> set (settlements d). sa_account s = acct \<longrightarrow> \<not> sa_isDefault s)"
  shows "settle_inv (d\<lparr>settlements := updateWhere (\<lambda>s. sa_id s = i) (patchedSettlement p v) (settlements d)\<rparr>)"
proof -
  let ?f = "\<lambda>s. if sa_id s = i then patchedSettlement p v s else s"
  have ids: "s = row" if "s \<in> set (settlements d)" "sa_id s = i" for s
    using inv row that by (metis settle_inv_def distinct_map inj_onD)
  have uniq: "?f s = ?f t"
    if "s \<in> set (settlements d)" "t \<in> set (settlements d)" "sa_account (?f s) = sa_account (?f t)"
      and "sa_isDefault (?f s)" "sa_isDefault (?f t)" for s t
  proof (cases "sa_id s = i \<and> sa_id t = i \<or> sa_id s \<noteq> i \<and> sa_id t \<noteq> i")
    case True
    then consider "sa_id s = i" "sa_id t = i" | "sa_id s \<noteq> i" "sa_id t \<noteq> i" by blast
    then show ?thesis
    proof cases
      case 1
      then show ?thesis using ids [OF that(1)] ids [OF that(2)] by simp
    next
      case 2
      then have "s = t" using that inv unfolding settle_inv_def by simp
      then show ?thesis by simp
    qed
  next
    case False
    have "\<exists>u. u \<in> set (settlements d) \<and> sa_id u \<noteq> i \<and> sa_account u = acct \<and> sa_isDefault u \<and>
        sa_isDefault (patchedSettlement p v row)"
    proof (cases "sa_id s = i")
      case True
      then have "s = row" "sa_id t \<noteq> i" using ids [OF that(1)] False by auto
      then show ?thesis using that(2-5) True row(3) by (intro exI [of _ t]) simp
    next
      case ne: False
      then have "t = row" "sa_id t = i" using ids [OF that(2)] False by auto
      then show ?thesis using that(1,3-5) ne row(3) by (intro exI [of _ s]) simp
    qed
    then obtain u where u: "u \<in> set (settlements d)" "sa_id u \<noteq> i" "sa_account u = acct" "sa_isDefault u"
        "sa_isDefault (patchedSettlement p v row)" by blast
    then have "sa_isDefault row \<or> sp_isDefault p = Some True" by (simp split: option.splits)
    then show ?thesis using u dflt inv row ids unfolding settle_inv_def by metis
  qed
  have img: "set (updateWhere (\<lambda>s. sa_id s = i) (patchedSettlement p v) (settlements d)) = ?f ` set (settlements d)"
    by (simp add: updateWhere_def)
  show ?thesis
    unfolding settle_inv_def
  proof (intro conjI ballI impI)
    show "distinct (map sa_id (settlements (d\<lparr>settlements :=
        updateWhere (\<lambda>s. sa_id s = i) (patchedSettlement p v) (settlements d)\<rparr>)))"
      using inv by (simp add: settle_inv_def map_updateWhere)
  next
    fix s
    assume "s \<in> set (settlements (d\<lparr>settlements :=
        updateWhere (\<lambda>s. sa_id s = i) (patchedSettlement p v) (settlements d)\<rparr>))"
    then obtain s0 where "s0 \<in> set (settlements d)" and "s = ?f s0" using img by auto
    then show "sa_id s < next_id (d\<lparr>settlements :=
        updateWhere (\<lambda>s. sa_id s = i) (patchedSettlement p v) (settlements d)\<rparr>)"
      using inv by (auto simp: settle_inv_def)
  next
    fix s t
    assume "s \<in> set (settlements (d\<lparr>settlements :=
        updateWhere (\<lambda>s. sa_id s = i) (patchedSettlement p v) (settlements d)\<rparr>))"
      and "t \<in> set (settlements (d\<lparr>settlements :=
        updateWhere (\<lambda>s. sa_id s = i) (patchedSettlement p v) (settlements d)\<rparr>))"
      and *: "sa_account s = sa_account t \<and> sa_isDefault s \<and> sa_isDefault t"
    then obtain s0 t0 where "s0 \<in> set (settlements d)" "s = ?f s0" "t0 \<in> set (settlements d)" "t = ?f t0"
      using img by auto
    then show "s = t" using uniq [of s0 t0] * by blast
  qed
qed

lemma settle_inv_upsert: "keeps settle_inv (upsertSettlementAccount e k input dflt)"
proof (rule keepsI)
  fix d assume inv: "settle_inv d"
  have add: "settle_inv (d\<lparr>settlements := settlements d @ [s], next_id := Suc (next_id d)\<rparr>)"
    if "settle_inv d" and "sa_id s = next_id d"
      and "sa_isDefault s \<longrightarrow> (\<forall>t \<in> set (settlements d). sa_account t = sa_account s \<longrightarrow> \<not> sa_isDefault t)" for d s
    using that unfolding settle_inv_def by (auto simp: less_Suc_eq) (metis+)?
  show "settle_inv (snd (upsertSettlementAccount e k input dflt d))"
    using inv add [OF settle_inv_withoutDefaults [OF inv]] add [OF inv] withoutDefaults_none
    by (auto simp: upsertSettlementAccount_def run Let_def transaction_def clearDefaults_run
        andThen_def [of "clearDefaults _"] newSettlement_def split: option.split sum.split)
qed

lemma findSettlement_updateSettled:
  assumes "findSettlement acct i d = Some row"
  shows "findSettlement acct i (updateSettled acct i p v d) =
    Some (patchedSettlement p v (if sp_isDefault p = Some True then row\<lparr>sa_isDefault := False\<rparr> else row))"
proof -
  have row: "sa_id row = i" "sa_account row = acct"
    using assms by (auto simp: findSettlement_def dest: find_SomeD)
  have "findSettlement acct i (withoutDefaults acct d) = Some (row\<lparr>sa_isDefault := False\<rparr>)"
    using assms row by (simp add: findSettlement_def withoutDefaults_def find_updateWhere)
  then show ?thesis
    using assms row by (simp add: findSettlement_def updateSettled_def Let_def find_updateWhere)
qed

lemma settle_inv_updateSettled:
  assumes "settle_inv d" and "findSettlement acct i d = Some row"
  shows "settle_inv (updateSettled acct i p v d)"
proof -
  have row: "row \<in> set (settlements d)" "sa_id row = i" "sa_account row = acct"
    using assms(2) by (auto simp: findSettlement_def dest: find_SomeD)
  show ?thesis
  proof (cases "sp_isDefault p = Some True")
    case True
    have "row\<lparr>sa_isDefault := False\<rparr> \<in> set (settlements (withoutDefaults acct d))"
      using row unfolding withoutDefaults_def by (simp add: set_updateWhere) (rule bexI [OF _ row(1)], simp)
    from settle_inv_patch [OF settle_inv_withoutDefaults [OF assms(1)] this] row True withoutDefaults_none
    show ?thesis by (simp add: updateSettled_def Let_def)
  next
    case False
    then show ?thesis using settle_inv_patch [OF assms(1) row] by (simp add: updateSettled_def)
  qed
qed

lemma no_default_refused:
  "accountExists acct d \<Longrightarrow> defaultSettlement acct d = None \<Longrightarrow>
     fst (chosenSettlement acct None d) = Inl (BadRequest VALIDATION_FAILED)"
  by (auto simp: chosenSettlement_def getDefaultSettlementAccount_def andThen_assoc run accountExists_def)
text \<open>C30: an account never has two default settlement accounts: creating or updating keeps that, and
  an update that makes one the default leaves no other. But the earlier default is cleared before
  the new details are checked: an update that is refused for invalid details has by then left the
  account without any default, so that sweeps skip it and withdrawals are refused.\<close>

theorem settlement_default_unique:
  assumes "settle_inv d" and "resolveAccountId k d = Some acct" and "findSettlement acct i d = Some row"
    and "updateSettlementAccount k i p d = (res, d')"
  shows "settle_inv d' \<and> settle_inv (snd (upsertSettlementAccount e k input dflt d)) \<and> (case res of
      Inr s \<Rightarrow> s \<in> set (settlements d') \<and> sa_id s = i \<and>
        (if sp_isDefault p = Some True
         then \<forall>t \<in> set (settlements d'). sa_account t = acct \<longrightarrow> sa_isDefault t = (t = s)
         else sa_isDefault s = (sp_isDefault p = None \<and> sa_isDefault row))
    | Inl err \<Rightarrow> err = BadRequest VALIDATION_FAILED \<and>
        defaultSettlement acct d' = (if sp_isDefault p = Some True then None else defaultSettlement acct d) \<and>
        (sp_isDefault p = Some True \<longrightarrow> fst (chosenSettlement acct None d') = Inl (BadRequest VALIDATION_FAILED)))"
proof -
  have up: "settle_inv (snd (upsertSettlementAccount e k input dflt d))"
    using keepsD [OF settle_inv_upsert assms(1)] .
  have ex: "accountExists acct (withoutDefaults acct d)"
    using resolve_exists [OF assms(2)] by (simp add: accountExists_def findAccount_def withoutDefaults_def)
  note run = assms(4) [unfolded updateSettlement_run [OF assms(2,3)]]
  show ?thesis
  proof (cases "patchData p")
    case (Inl err)
    have none: "defaultSettlement acct (withoutDefaults acct d) = None"
      using withoutDefaults_none by (auto simp: defaultSettlement_none)
    have "err = BadRequest VALIDATION_FAILED"
      using Inl validate_error by (auto simp: patchData_def map_sum_def split: if_splits sum.splits)
    moreover have "res = Inl err" "d' = (if sp_isDefault p = Some True then withoutDefaults acct d else d)"
      using run Inl by simp_all
    ultimately show ?thesis
      using up settle_inv_withoutDefaults [OF assms(1)] assms(1) none no_default_refused [OF ex none]
      by simp
  next
    case (Inr v)
    obtain s where s_def: "s = patchedSettlement p v (if sp_isDefault p = Some True then row\<lparr>sa_isDefault := False\<rparr> else row)" by simp
    have f: "findSettlement acct i (updateSettled acct i p v d) = Some s"
      unfolding s_def by (rule findSettlement_updateSettled [OF assms(3)])
    then have res: "res = Inr s" "d' = updateSettled acct i p v d" using run Inr by auto
    have s: "s \<in> set (settlements d')" "sa_id s = i" "sa_account s = acct"
      using find_SomeD [OF f [unfolded findSettlement_def]] unfolding res(2) by blast+
    have inv: "settle_inv d'" unfolding res(2) by (rule settle_inv_updateSettled [OF assms(1,3)])
    have one: "sa_isDefault t = (t = s)"
      if "sp_isDefault p = Some True" and "t \<in> set (settlements d')" "sa_account t = acct" for t
    proof -
      have "sa_isDefault s" using that(1) by (simp add: s_def)
      then show ?thesis using inv that s unfolding settle_inv_def by blast
    qed
    have flag: "sa_isDefault s = (sp_isDefault p = None \<and> sa_isDefault row)" if "sp_isDefault p \<noteq> Some True"
      using that by (auto simp: s_def split: option.split)
    show ?thesis
      unfolding res(1) sum.case using inv up s(1,2) one flag by simp
  qed
qed

definition bad_patch :: settlement_patch where
  "bad_patch = \<lparr>sp_input = \<lparr>si_type = Some SettleMOBILE, si_method = None, si_phoneNumber = None,
     si_bankName = None, si_bankInitials = None, si_accountNumber = None, si_accountName = None\<rparr>,
     sp_isActive = None, sp_isDefault = Some True\<rparr>"

theorem settlement_default_unique_witness:
  "\<exists>d'. updateSettlementAccount (RowId 0) 9 bad_patch sample_sweep_db =
      (Inl (BadRequest VALIDATION_FAILED), d') \<and>
     defaultSettlement 0 sample_sweep_db = Some sample_settlement \<and> defaultSettlement 0 d' = None"
proof -
  have inv: "settle_inv sample_sweep_db"
    by (simp add: settle_inv_def sample_sweep_db_def sample_settlement_def newSettlement_def)
  have found: "resolveAccountId (RowId 0) sample_sweep_db = Some 0"
      "findSettlement 0 9 sample_sweep_db = Some sample_settlement"
    by code_simp+
  have fails: "fst (updateSettlementAccount (RowId 0) 9 bad_patch sample_sweep_db) =
      Inl (BadRequest VALIDATION_FAILED)" by code_simp
  then obtain d' where run: "updateSettlementAccount (RowId 0) 9 bad_patch sample_sweep_db =
      (Inl (BadRequest VALIDATION_FAILED), d')" by (metis prod.collapse)
  have "defaultSettlement 0 sample_sweep_db = Some sample_settlement" by code_simp
  with settlement_default_unique [OF inv found run] run show ?thesis by (simp add: bad_patch_def)
qed

end
