(* ===== verification/Accounts.thy ===== *)
theory Accounts
  imports Settlements
begin

text \<open>
  accounts/accounts.service.ts: opening an account with its wallets, permissions, settlement and fee
  rows in one transaction, its API keys, its details, suspension and permissions. The random draws
  and SHA-256 are parameters.
\<close>

section \<open>Opening an account\<close>

record account_draws =
  ad_code :: "nat \<Rightarrow> nat \<Rightarrow> nat"
  ad_id :: "nat \<Rightarrow> nat"
  ad_key :: "nat \<Rightarrow> nat"

text \<open>\<open>uniqueSourceCode\<close>: the tries that are left, and the number of the next draw.\<close>

fun uniqueSourceCodeLoop :: "nat \<Rightarrow> (nat \<Rightarrow> nat \<Rightarrow> nat) \<Rightarrow> nat \<Rightarrow> db \<Rightarrow> err + string" where
  "uniqueSourceCodeLoop 0 rnd i d = Inl (BadRequest VALIDATION_FAILED)"
| "uniqueSourceCodeLoop (Suc n) rnd i d =
     (case generateSourceCode (\<lambda>_. rnd i) [] of
        Inl err \<Rightarrow> Inl err
      | Inr code \<Rightarrow>
          if code \<in> a_sourceCode ` set (accounts d) then uniqueSourceCodeLoop n rnd (Suc i) d
          else Inr code)"

definition uniqueSourceCode :: "(nat \<Rightarrow> nat \<Rightarrow> nat) \<Rightarrow> (db, string) action" where
  "uniqueSourceCode rnd = (\<lambda>d. liftE (uniqueSourceCodeLoop 25 rnd 0 d) d)"

record create_account_dto =
  ca_accountName :: string
  ca_contactEmail :: "string option"
  ca_contactPhone :: "string option"
  ca_billingMode :: "billing_mode option"
  ca_autoSweep :: "bool option"
  ca_settlement :: "settlement_input option"
  ca_fees :: "fee_patch option"

definition onboardingSettlement :: "settlement_input \<Rightarrow> err + settlement_data" where
  "onboardingSettlement input =
     (if si_type input = Some SettleMOBILE then
        (case (si_method input, si_phoneNumber input) of
           (Some m, Some p) \<Rightarrow>
             if p = [] then Inl (BadRequest VALIDATION_FAILED)
             else (case normalizePhoneNumber p of
                 None \<Rightarrow> Inl (BadRequest VALIDATION_FAILED)
               | Some phone \<Rightarrow> Inr (MobileSettlement m phone))
         | _ \<Rightarrow> Inl (BadRequest VALIDATION_FAILED))
      else if \<not> truthy (si_accountNumber input) \<or> \<not> truthy (si_bankName input)
      then Inl (BadRequest VALIDATION_FAILED)
      else Inr (BankSettlement (trim (orEmpty (si_bankName input)))
             (map_option (\<lambda>s. toUpperCase (trim s)) (si_bankInitials input))
             (trim (orEmpty (si_accountNumber input))) (map_option trim (si_accountName input))))"

text \<open>\<open>clamp\<close>: a rate that is no whole number of basis points from 0 to 10000 is ignored.\<close>

definition clampBps :: "rat option \<Rightarrow> rat option" where
  "clampBps p = (case p of None \<Rightarrow> None | Some v \<Rightarrow> if validBps v then Some v else None)"

definition clampedPatch :: "fee_patch \<Rightarrow> fee_patch" where
  "clampedPatch p = p\<lparr>
     fp_collectionBelowBps := clampBps (fp_collectionBelowBps p),
     fp_collectionAboveBps := clampBps (fp_collectionAboveBps p),
     fp_disbursementBelowBps := clampBps (fp_disbursementBelowBps p),
     fp_disbursementAboveBps := clampBps (fp_disbursementAboveBps p),
     fp_transferBps := clampBps (fp_transferBps p)\<rparr>"

definition onboardingFees :: "ident \<Rightarrow> fee_patch \<Rightarrow> (db, fee_config_row) action" where
  "onboardingFees acct p =
     andThen (toDecimal (fp_collectionThreshold p)) (\<lambda>ct.
     andThen (toDecimal (fp_disbursementThreshold p)) (\<lambda>dt.
     createFeeConfig (applyFeePatch (clampedPatch p) ct dt (default_fee_config acct))))"

definition newAccount :: "env \<Rightarrow> create_account_dto \<Rightarrow> string \<Rightarrow> string \<Rightarrow> ident \<Rightarrow> account_row" where
  "newAccount e dto code pub i =
     \<lparr>a_id = i, a_accountId = pub, a_accountName = trim (ca_accountName dto), a_sourceCode = code,
      a_contactEmail = map_option (\<lambda>s. trim (toLowerCase s)) (ca_contactEmail dto),
      a_contactPhone = ca_contactPhone dto, a_status = AcctACTIVE,
      a_billingMode = (case ca_billingMode dto of None \<Rightarrow> ModeNONE | Some m \<Rightarrow> m),
      a_autoSweep = (case ca_autoSweep dto of None \<Rightarrow> True | Some b \<Rightarrow> b),
      a_suspendedBy = None, a_suspendReason = None, a_createdAt = now e\<rparr>"

definition insertAccount :: "(ident \<Rightarrow> account_row) \<Rightarrow> (db, account_row) action" where
  "insertAccount mk = (\<lambda>d. let a = mk (next_id d) in
     if a_accountId a \<in> a_accountId ` set (accounts d) \<or> a_sourceCode a \<in> a_sourceCode ` set (accounts d)
     then (Inl UniqueViolation, d)
     else (Inr a, d\<lparr>accounts := accounts d @ [a], next_id := Suc (next_id d)\<rparr>))"

definition newWallet :: "ident \<Rightarrow> ident \<Rightarrow> wallet_type \<Rightarrow> wallet_row" where
  "newWallet i acct ty = \<lparr>w_id = i, w_account = acct, w_type = ty, w_currency = ''TZS'', w_balance = 0,
     w_status = WalletACTIVE\<rparr>"

text \<open>\<open>wallet.createMany\<close> of the two wallets; \<open>(accountId, type)\<close> is unique.\<close>

definition createWallets :: "ident \<Rightarrow> (db, unit) action" where
  "createWallets acct = (\<lambda>d.
     if \<exists>w \<in> set (wallets d). w_account w = acct then (Inl UniqueViolation, d)
     else (Inr (), d\<lparr>wallets := wallets d @ [newWallet (next_id d) acct WCOLLECTION,
                                newWallet (Suc (next_id d)) acct WDISBURSEMENT],
                     next_id := next_id d + 2\<rparr>))"

definition ALL_SERVICES :: "service_key list" where
  "ALL_SERVICES = [SvcCOLLECTION, SvcDISBURSEMENT, SvcSMS]"

definition createPermissions :: "ident \<Rightarrow> who \<Rightarrow> (db, unit) action" where
  "createPermissions acct admin = (\<lambda>d.
     if \<exists>p \<in> set (permissions d). pm_account p = acct then (Inl UniqueViolation, d)
     else (Inr (), d\<lparr>permissions := permissions d @ map (\<lambda>sv. \<lparr>pm_account = acct, pm_service = sv,
              pm_granted = False, pm_meta = None, pm_grantedBy = Some admin\<rparr>) ALL_SERVICES\<rparr>))"

definition accountTx ::
    "env \<Rightarrow> create_account_dto \<Rightarrow> string \<Rightarrow> string \<Rightarrow> settlement_data option \<Rightarrow> who
     \<Rightarrow> (db, account_row) action" where
  "accountTx e dto code pub settlement admin =
     andThen (insertAccount (newAccount e dto code pub)) (\<lambda>a.
     thenDo (createWallets (a_id a))
     (thenDo (createPermissions (a_id a) admin)
     (thenDo (case settlement of
          None \<Rightarrow> ret ()
        | Some v \<Rightarrow> modify (\<lambda>d. d\<lparr>settlements := settlements d @ [newSettlement e (a_id a) v True (next_id d)],
                     next_id := Suc (next_id d)\<rparr>))
     (thenDo (case ca_fees dto of
          None \<Rightarrow> ret ()
        | Some p \<Rightarrow> andThen (onboardingFees (a_id a) p) (\<lambda>_. ret ()))
     (ret a)))))"

record issued_key =
  ik_id :: ident
  ik_name :: string
  ik_prefix :: string
  ik_createdAt :: int
  ik_apiKey :: string

definition issueApiKey ::
    "(string \<Rightarrow> string) \<Rightarrow> (nat \<Rightarrow> nat) \<Rightarrow> env \<Rightarrow> account_key \<Rightarrow> string \<Rightarrow> who \<Rightarrow> (db, issued_key) action" where
  "issueApiKey hashApiKey bytes e k name admin =
     andThen (fetch (NotFound NOT_FOUND) (resolveAccountId k)) (\<lambda>acct.
     let g = generateApiKey hashApiKey bytes (orElse (Some (cfg_apiKeyPrefix (cfg e))) ''zs'') in
     andThen (\<lambda>d. if gk_hash g \<in> k_keyHash ` set (api_keys d) then (Inl UniqueViolation, d)
        else let row = \<lparr>k_id = next_id d, k_account = acct, k_name = orElse (Some name) ''default'',
                k_prefix = gk_displayPrefix g, k_keyHash = gk_hash g, k_revokedAt = None,
                k_createdAt = now e\<rparr>
          in (Inr row, d\<lparr>api_keys := api_keys d @ [row], next_id := Suc (next_id d)\<rparr>)) (\<lambda>row.
     thenDo (audit_record e admin (Some acct) ''api_key.created'' ''ApiKey'' (Some (k_id row)))
     (ret \<lparr>ik_id = k_id row, ik_name = k_name row, ik_prefix = k_prefix row,
           ik_createdAt = k_createdAt row, ik_apiKey = gk_full g\<rparr>)))"

definition onboardingChecks :: "create_account_dto \<Rightarrow> err + settlement_data option" where
  "onboardingChecks dto = (case ca_settlement dto of
     None \<Rightarrow> Inr None | Some s \<Rightarrow> map_sum id Some (onboardingSettlement s))"

definition createAccount ::
    "(string \<Rightarrow> string) \<Rightarrow> account_draws \<Rightarrow> env \<Rightarrow> create_account_dto \<Rightarrow> who
     \<Rightarrow> (db, account_row \<times> issued_key) action" where
  "createAccount hashApiKey r e dto admin =
     andThen (uniqueSourceCode (ad_code r)) (\<lambda>code.
     let pub = ''ACC-'' @ createRandomId (ad_id r) 8 in
     andThen (liftE (onboardingChecks dto)) (\<lambda>settlement.
     andThen (transaction (accountTx e dto code pub settlement admin)) (\<lambda>a.
     andThen (issueApiKey hashApiKey (ad_key r) e (RowId (a_id a)) ''default'' admin) (\<lambda>key.
     thenDo (audit_record e admin (Some (a_id a)) ''account.created'' ''Account'' (Some (a_id a)))
     (thenDo (track e ''account.created'' (Some (RowId (a_id a))) None)
     (ret (a, key)))))))"

section \<open>API keys\<close>

definition findKey :: "ident \<Rightarrow> ident \<Rightarrow> db \<Rightarrow> api_key_row option" where
  "findKey acct i d = List.find (\<lambda>k. k_id k = i \<and> k_account k = acct) (api_keys d)"

text \<open>The answer is the time of revocation.\<close>

definition revokeApiKey :: "env \<Rightarrow> account_key \<Rightarrow> ident \<Rightarrow> who \<Rightarrow> (db, int) action" where
  "revokeApiKey e k i admin =
     andThen (fetch (NotFound NOT_FOUND) (resolveAccountId k)) (\<lambda>acct.
     andThen (fetch (NotFound NOT_FOUND) (findKey acct i)) (\<lambda>key.
     case k_revokedAt key of
       Some t \<Rightarrow> ret t
     | None \<Rightarrow>
         thenDo (modify (\<lambda>d. d\<lparr>api_keys :=
            updateWhere (\<lambda>r. k_id r = k_id key) (\<lambda>r. r\<lparr>k_revokedAt := Some (now e)\<rparr>) (api_keys d)\<rparr>))
         (thenDo (audit_record e admin (Some acct) ''api_key.revoked'' ''ApiKey'' (Some (k_id key)))
         (ret (now e)))))"

section \<open>Lookup\<close>

text \<open>\<open>contains\<close> with \<open>mode: 'insensitive'\<close>.\<close>

definition containsInsensitive :: "string \<Rightarrow> string \<Rightarrow> bool" where
  "containsInsensitive hay needle =
     list_ex (\<lambda>n. startsWith (drop n (toLowerCase hay)) (toLowerCase needle)) [0..<Suc (length hay)]"

definition listAccounts ::
    "nat \<Rightarrow> nat \<Rightarrow> account_status option \<Rightarrow> string option \<Rightarrow> db \<Rightarrow> account_row list \<times> nat" where
  "listAccounts skip n status search d =
     (let rows = filter (\<lambda>a. (case status of None \<Rightarrow> True | Some s \<Rightarrow> a_status a = s) \<and>
            (truthy search \<longrightarrow> containsInsensitive (a_accountName a) (orEmpty search) \<or>
                              containsInsensitive (a_accountId a) (orEmpty search))) (accounts d)
      in (window skip n (orderDesc a_createdAt rows), length rows))"

definition getByPublicId :: "account_key \<Rightarrow> (db, account_row) action" where
  "getByPublicId k = fetch (NotFound NOT_FOUND) (\<lambda>d. case k of
     PublicId p \<Rightarrow> List.find (\<lambda>a. a_accountId a = p) (accounts d) | RowId i \<Rightarrow> findAccount i d)"

definition getEntity :: "account_key \<Rightarrow> (db, account_row) action" where
  "getEntity k = fetch (NotFound NOT_FOUND) (\<lambda>d.
     case resolveAccountId k d of None \<Rightarrow> None | Some i \<Rightarrow> findAccount i d)"

record account_profile =
  pr_account :: account_row
  pr_permissions :: "permission_row list"
  pr_wallets :: "wallet_row list"
  pr_senderNames :: "sender_row list"
  pr_plan :: "account_plan_row option"
  pr_settlements :: "settlement_row list"
  pr_feeConfig :: "fee_config_row option"

definition permissionsOf :: "ident \<Rightarrow> db \<Rightarrow> permission_row list" where
  "permissionsOf acct d = filter (\<lambda>p. pm_account p = acct) (permissions d)"

definition accountProfile :: "ident \<Rightarrow> (db, account_profile) action" where
  "accountProfile acct =
     andThen (fetch (NotFound NOT_FOUND) (findAccount acct)) (\<lambda>a. query (\<lambda>d.
       \<lparr>pr_account = a, pr_permissions = permissionsOf acct d,
        pr_wallets = filter (\<lambda>w. w_account w = acct) (wallets d),
        pr_senderNames = filter (\<lambda>s. sn_account s = Some acct \<and> sn_type s = SenderDEDICATED) (senders d),
        pr_plan = List.find (\<lambda>p. ap_account p = acct) (account_plans d),
        pr_settlements = filter (\<lambda>s. sa_account s = acct) (settlements d),
        pr_feeConfig = findFeeConfig acct d\<rparr>))"

section \<open>Changes\<close>

definition updateAccountRow :: "ident \<Rightarrow> (account_row \<Rightarrow> account_row) \<Rightarrow> (db, account_row) action" where
  "updateAccountRow i f =
     thenDo (modify (\<lambda>d. d\<lparr>accounts := updateWhere (\<lambda>a. a_id a = i) f (accounts d)\<rparr>))
     (fetch RecordNotFound (findAccount i))"

record update_account_dto =
  ua_accountName :: "string option"
  ua_contactEmail :: "string option"
  ua_contactPhone :: "string option"

definition updatedAccount :: "update_account_dto \<Rightarrow> account_row \<Rightarrow> account_row" where
  "updatedAccount dto a = a\<lparr>
     a_accountName := (if truthy (ua_accountName dto) then trim (orEmpty (ua_accountName dto)) else a_accountName a),
     a_contactEmail := (if truthy (ua_contactEmail dto)
        then Some (trim (toLowerCase (orEmpty (ua_contactEmail dto)))) else a_contactEmail a),
     a_contactPhone := (if truthy (ua_contactPhone dto) then ua_contactPhone dto else a_contactPhone a)\<rparr>"

definition updateAccount :: "env \<Rightarrow> account_key \<Rightarrow> update_account_dto \<Rightarrow> who \<Rightarrow> (db, account_row) action" where
  "updateAccount e k dto admin =
     andThen (getEntity k) (\<lambda>before.
     andThen (updateAccountRow (a_id before) (updatedAccount dto)) (\<lambda>updated.
     thenDo (audit_record e admin (Some (a_id before)) ''account.updated'' ''Account'' (Some (a_id before)))
     (ret updated)))"

definition suspendAccount :: "env \<Rightarrow> account_key \<Rightarrow> string \<Rightarrow> who \<Rightarrow> (db, account_row) action" where
  "suspendAccount e k reason admin =
     andThen (getEntity k) (\<lambda>a.
     if a_status a = AcctSUSPENDED then ret a
     else andThen (updateAccountRow (a_id a) (\<lambda>r. r\<lparr>a_status := AcctSUSPENDED,
            a_suspendedBy := Some admin, a_suspendReason := Some reason\<rparr>)) (\<lambda>updated.
       thenDo (audit_record e admin (Some (a_id a)) ''account.suspended'' ''Account'' (Some (a_id a)))
       (thenDo (track e ''account.suspended'' (Some (RowId (a_id a))) None)
       (ret updated))))"

definition activateAccount :: "env \<Rightarrow> account_key \<Rightarrow> who \<Rightarrow> (db, account_row) action" where
  "activateAccount e k admin =
     andThen (getEntity k) (\<lambda>a.
     if a_status a = AcctACTIVE then ret a
     else andThen (updateAccountRow (a_id a) (\<lambda>r. r\<lparr>a_status := AcctACTIVE,
            a_suspendedBy := None, a_suspendReason := None\<rparr>)) (\<lambda>updated.
       thenDo (audit_record e admin (Some (a_id a)) ''account.activated'' ''Account'' (Some (a_id a)))
       (thenDo (track e ''account.activated'' (Some (RowId (a_id a))) None)
       (ret updated))))"

record permission_item =
  pi_service :: service_key
  pi_granted :: bool
  pi_meta :: "permission_meta option"

text \<open>\<open>servicePermission.upsert\<close>; a missing \<open>meta\<close> leaves the stored one.\<close>

definition upsertPermission :: "ident \<Rightarrow> who \<Rightarrow> permission_item \<Rightarrow> (db, unit) action" where
  "upsertPermission acct admin it = modify (\<lambda>d.
     if \<exists>p \<in> set (permissions d). pm_account p = acct \<and> pm_service p = pi_service it
     then d\<lparr>permissions := updateWhere (\<lambda>p. pm_account p = acct \<and> pm_service p = pi_service it)
        (\<lambda>p. p\<lparr>pm_granted := pi_granted it,
               pm_meta := (case pi_meta it of None \<Rightarrow> pm_meta p | Some m \<Rightarrow> Some m),
               pm_grantedBy := Some admin\<rparr>) (permissions d)\<rparr>
     else d\<lparr>permissions := permissions d @ [\<lparr>pm_account = acct, pm_service = pi_service it,
        pm_granted = pi_granted it, pm_meta = pi_meta it, pm_grantedBy = Some admin\<rparr>]\<rparr>)"

definition setPermissions ::
    "env \<Rightarrow> account_key \<Rightarrow> permission_item list \<Rightarrow> who \<Rightarrow> (db, permission_row list) action" where
  "setPermissions e k items admin =
     andThen (fetch (NotFound NOT_FOUND) (resolveAccountId k)) (\<lambda>acct.
     thenDo (transaction (forEach (upsertPermission acct admin) items))
     (andThen (query (permissionsOf acct)) (\<lambda>perms.
      thenDo (audit_record e admin (Some acct) ''account.permissions_set'' ''ServicePermission'' (Some acct))
      (ret perms))))"

section \<open>Well-formed accounts\<close>

text \<open>What every operation keeps: unique ids, public ids, five-character source codes and key
  hashes; both wallets and one permission row per service for each account, and no others.\<close>

definition accounts_keyed :: "account_row list \<Rightarrow> ident \<Rightarrow> bool" where
  "accounts_keyed as n \<longleftrightarrow> distinct (map a_id as) \<and> distinct (map a_accountId as) \<and>
     distinct (map a_sourceCode as) \<and>
     (\<forall>a \<in> set as. a_id a < n \<and> length (a_sourceCode a) = SOURCE_CODE_LENGTH)"

definition wallets_complete :: "ident set \<Rightarrow> wallet_row list \<Rightarrow> bool" where
  "wallets_complete is ws \<longleftrightarrow> w_account ` set ws \<subseteq> is \<and>
     (\<forall>i \<in> is. \<forall>ty. \<exists>w \<in> set ws. w_account w = i \<and> w_type w = ty)"

definition permissions_complete :: "ident set \<Rightarrow> permission_row list \<Rightarrow> bool" where
  "permissions_complete is ps \<longleftrightarrow> pm_account ` set ps \<subseteq> is \<and>
     distinct (map (\<lambda>p. (pm_account p, pm_service p)) ps) \<and>
     (\<forall>i \<in> is. \<forall>s. \<exists>p \<in> set ps. pm_account p = i \<and> pm_service p = s)"

definition keys_owned :: "ident set \<Rightarrow> api_key_row list \<Rightarrow> bool" where
  "keys_owned is ks \<longleftrightarrow> k_account ` set ks \<subseteq> is \<and> distinct (map k_keyHash ks)"

definition account_wf :: "db \<Rightarrow> bool" where
  "account_wf d \<longleftrightarrow> accounts_keyed (accounts d) (next_id d) \<and>
     wallets_complete (a_id ` set (accounts d)) (wallets d) \<and>
     permissions_complete (a_id ` set (accounts d)) (permissions d) \<and>
     keys_owned (a_id ` set (accounts d)) (api_keys d)"

lemma image_updateWhere: "(\<And>r. g (f r) = g r) \<Longrightarrow> g ` set (updateWhere p f xs) = g ` set xs"
  using map_updateWhere [of g f p xs] by (metis list.set_map)

lemma accounts_keyed_mono: "accounts_keyed as n \<Longrightarrow> n \<le> m \<Longrightarrow> accounts_keyed as m"
  by (auto simp: accounts_keyed_def)

lemma account_wf_cong:
  assumes "accounts d' = accounts d" and "wallets d' = wallets d" and "permissions d' = permissions d"
    and "api_keys d' = api_keys d" and "next_id d \<le> next_id d'" and "account_wf d"
  shows "account_wf d'"
  using assms accounts_keyed_mono [of "accounts d" "next_id d" "next_id d'"] unfolding account_wf_def by simp

lemma audit_record_run: "audit_record e actor acct action entity i d = (Inr (), snd (audit_record e actor acct action entity i d))"
  by (simp add: audit_record_def)

lemma andThen_audit [run]:
  "andThen (audit_record e actor acct action entity i) k d =
     k () (snd (audit_record e actor acct action entity i d))"
  by (simp add: andThen_def audit_record_def)

lemma audit_record_tables [simp]:
  "accounts (snd (audit_record e actor acct action entity i d)) = accounts d"
  "wallets (snd (audit_record e actor acct action entity i d)) = wallets d"
  "permissions (snd (audit_record e actor acct action entity i d)) = permissions d"
  "api_keys (snd (audit_record e actor acct action entity i d)) = api_keys d"
  "next_id (snd (audit_record e actor acct action entity i d)) = next_id d"
  "wallet_txs (snd (audit_record e actor acct action entity i d)) = wallet_txs d"
  by (simp_all add: audit_record_def)

lemma keeps_audit_wf [keeps_rules]: "keeps account_wf (audit_record e actor acct action entity i)"
  by (rule keepsI) (rule account_wf_cong, simp_all add: audit_record_def)

lemma keeps_track_wf [keeps_rules]: "keeps account_wf (track e name acct v)"
  by (rule keepsI) (rule account_wf_cong, simp_all add: track_def)

lemma account_wf_update_accounts:
  assumes "account_wf d" and "\<And>a. a_id (f a) = a_id a \<and> a_accountId (f a) = a_accountId a \<and>
    a_sourceCode (f a) = a_sourceCode a"
  shows "account_wf (d\<lparr>accounts := updateWhere p f (accounts d)\<rparr>)"
proof -
  have maps: "map g (updateWhere p f (accounts d)) = map g (accounts d)" if "\<And>a. g (f a) = g a"
    for g :: "account_row \<Rightarrow> 'x" using that by (simp add: map_updateWhere)
  have ids: "a_id ` set (updateWhere p f (accounts d)) = a_id ` set (accounts d)"
    using assms(2) by (simp add: image_updateWhere)
  have "accounts_keyed (updateWhere p f (accounts d)) (next_id d)"
    using assms maps [of a_id] maps [of a_accountId] maps [of a_sourceCode]
    unfolding account_wf_def accounts_keyed_def by (auto elim: in_updateWhereE)
  then show ?thesis using assms(1) ids unfolding account_wf_def by simp
qed

lemma keeps_updateAccountRow:
  assumes "\<And>a. a_id (f a) = a_id a \<and> a_accountId (f a) = a_accountId a \<and> a_sourceCode (f a) = a_sourceCode a"
  shows "keeps account_wf (updateAccountRow i f)"
  unfolding updateAccountRow_def using account_wf_update_accounts [OF _ assms]
  by (intro keeps_rules keeps_modify) blast

lemma account_exists_mem: "accountExists i d \<longleftrightarrow> i \<in> a_id ` set (accounts d)"
  by (auto simp: accountExists_def findAccount_def find_None_iff)

lemma upsertPermission_wf:
  assumes "permissions_complete is ps" and "i \<in> is" and "\<And>p. pm_account (f p) = pm_account p \<and> pm_service (f p) = pm_service p"
  shows "permissions_complete is (updateWhere q f ps)"
proof -
  have m: "pm_account ` set (updateWhere q f ps) = pm_account ` set ps"
      "map (\<lambda>p. (pm_account p, pm_service p)) (updateWhere q f ps) = map (\<lambda>p. (pm_account p, pm_service p)) ps"
      "(\<lambda>p. (pm_account p, pm_service p)) ` set (updateWhere q f ps) = (\<lambda>p. (pm_account p, pm_service p)) ` set ps"
    using assms(3) by (simp_all add: image_updateWhere map_updateWhere)
  have "\<exists>p \<in> set (updateWhere q f ps). pm_account p = i \<and> pm_service p = s" if i: "i \<in> is" for i s
  proof -
    have "(i, s) \<in> (\<lambda>p. (pm_account p, pm_service p)) ` set (updateWhere q f ps)"
    proof -
      obtain p where "p \<in> set ps" and "pm_account p = i" and "pm_service p = s"
        using i assms(1) unfolding permissions_complete_def by blast
      then show ?thesis unfolding m(3) by (intro image_eqI [of _ _ p]) simp_all
    qed
    then show ?thesis by auto
  qed
  then show ?thesis using assms(1) m unfolding permissions_complete_def by simp
qed

lemma keeps_upsertPermission:
  "account_wf d \<Longrightarrow> accountExists acct d \<Longrightarrow>
     account_wf (snd (upsertPermission acct admin it d)) \<and> accountExists acct (snd (upsertPermission acct admin it d))"
proof -
  assume wf: "account_wf d" and acct: "accountExists acct d"
  have ex: "\<exists>p \<in> set (permissions d). pm_account p = acct \<and> pm_service p = pi_service it"
    using wf acct unfolding account_wf_def permissions_complete_def account_exists_mem by blast
  let ?f = "\<lambda>p. p\<lparr>pm_granted := pi_granted it,
      pm_meta := (case pi_meta it of None \<Rightarrow> pm_meta p | Some m \<Rightarrow> Some m), pm_grantedBy := Some admin\<rparr>"
  have "permissions_complete (a_id ` set (accounts d))
      (updateWhere (\<lambda>p. pm_account p = acct \<and> pm_service p = pi_service it) ?f (permissions d))"
    using wf acct unfolding account_wf_def account_exists_mem
    by (intro upsertPermission_wf [of _ _ acct]) auto
  then show ?thesis
    using ex wf acct by (simp add: upsertPermission_def account_wf_def accountExists_def findAccount_def)
qed

lemma andThen_upsertPermission:
  "andThen (upsertPermission acct admin it) k d = k () (snd (upsertPermission acct admin it d))"
  by (simp add: upsertPermission_def)

lemma keeps_setPermissions [keeps_rules]: "keeps account_wf (setPermissions e k items admin)"
proof (rule keepsI)
  fix d assume wf: "account_wf d"
  have loop: "account_wf (snd (forEach (upsertPermission acct admin) its d))"
    if "account_wf d" "accountExists acct d" for acct its d
    using that
    by (induction its arbitrary: d) (simp_all add: ret_run andThen_upsertPermission keeps_upsertPermission)
  show "account_wf (snd (setPermissions e k items admin d))"
  proof (cases "resolveAccountId k d")
    case (Some acct)
    obtain r d1 where r: "forEach (upsertPermission acct admin) items d = (r, d1)" by fastforce
    have w1: "account_wf d1" using loop [OF wf resolve_exists [OF Some], of items] r by simp
    have "account_wf (snd (audit_record e admin (Some acct) action entity i d1))" for action entity i
      by (rule keepsD [OF keeps_audit_wf w1])
    then show ?thesis using Some r w1 wf
      by (cases r) (simp_all add: setPermissions_def run andThen_transaction)
  qed (use wf in \<open>simp add: setPermissions_def run\<close>)
qed

lemma keeps_issueApiKey [keeps_rules]: "keeps account_wf (issueApiKey h bytes e k name admin)"
proof (rule keepsI)
  fix d assume wf: "account_wf d"
  have add: "account_wf (d\<lparr>api_keys := api_keys d @ [row], next_id := Suc (next_id d)\<rparr>)"
    if "accountExists (k_account row) d" and "k_keyHash row \<notin> k_keyHash ` set (api_keys d)" for row
    using wf that accounts_keyed_mono [of "accounts d" "next_id d" "Suc (next_id d)"]
    unfolding account_wf_def keys_owned_def account_exists_mem by simp
  show "account_wf (snd (issueApiKey h bytes e k name admin d))"
    using wf add resolve_exists [of k d]
    by (cases "resolveAccountId k d")
      (auto simp: issueApiKey_def run Let_def andThen_def [of "\<lambda>d. if _ d then _ d else _ d"] ret_run
        intro: keepsD [OF keeps_audit_wf])
qed

lemma keeps_revokeApiKey [keeps_rules]: "keeps account_wf (revokeApiKey e k i admin)"
proof -
  have upd: "account_wf (d\<lparr>api_keys := updateWhere p (\<lambda>r. r\<lparr>k_revokedAt := t\<rparr>) (api_keys d)\<rparr>)"
    if "account_wf d" for d p t
    using that unfolding account_wf_def keys_owned_def by (simp add: map_updateWhere image_updateWhere)
  show ?thesis
    unfolding revokeApiKey_def using upd
    by (intro keeps_rules keeps_modify) blast
qed

section \<open>Opening an account\<close>

lemma andThen_insertAccount [run]:
  "andThen (insertAccount mk) k d = (let a = mk (next_id d) in
     if a_accountId a \<in> a_accountId ` set (accounts d) \<or> a_sourceCode a \<in> a_sourceCode ` set (accounts d)
     then (Inl UniqueViolation, d)
     else k a (d\<lparr>accounts := accounts d @ [a], next_id := Suc (next_id d)\<rparr>))"
  by (simp add: insertAccount_def andThen_def Let_def)

lemma andThen_createWallets [run]:
  "andThen (createWallets acct) k d =
     (if \<exists>w \<in> set (wallets d). w_account w = acct then (Inl UniqueViolation, d)
      else k () (d\<lparr>wallets := wallets d @ [newWallet (next_id d) acct WCOLLECTION,
                                newWallet (Suc (next_id d)) acct WDISBURSEMENT],
                   next_id := next_id d + 2\<rparr>))"
  by (simp add: createWallets_def andThen_def)

lemma andThen_createPermissions [run]:
  "andThen (createPermissions acct admin) k d =
     (if \<exists>p \<in> set (permissions d). pm_account p = acct then (Inl UniqueViolation, d)
      else k () (d\<lparr>permissions := permissions d @ map (\<lambda>sv. \<lparr>pm_account = acct, pm_service = sv,
              pm_granted = False, pm_meta = None, pm_grantedBy = Some admin\<rparr>) ALL_SERVICES\<rparr>))"
  by (simp add: createPermissions_def andThen_def)

text \<open>The tables after the first three inserts.\<close>

definition opened :: "env \<Rightarrow> create_account_dto \<Rightarrow> string \<Rightarrow> string \<Rightarrow> who \<Rightarrow> db \<Rightarrow> db" where
  "opened e dto code pub admin d = (let i = next_id d in
     d\<lparr>accounts := accounts d @ [newAccount e dto code pub i],
       wallets := wallets d @ [newWallet (i + 1) i WCOLLECTION, newWallet (i + 2) i WDISBURSEMENT],
       permissions := permissions d @ map (\<lambda>sv. \<lparr>pm_account = i, pm_service = sv,
              pm_granted = False, pm_meta = None, pm_grantedBy = Some admin\<rparr>) ALL_SERVICES,
       next_id := i + 3\<rparr>)"

lemma newAccount_fields [simp]:
  "a_id (newAccount e dto code pub i) = i" "a_accountId (newAccount e dto code pub i) = pub"
  "a_sourceCode (newAccount e dto code pub i) = code" "a_status (newAccount e dto code pub i) = AcctACTIVE"
  by (simp_all add: newAccount_def)

lemma onboardingFees_frame: "\<exists>fc. snd (onboardingFees acct p d) = d\<lparr>fee_configs := fc\<rparr>"
proof -
  have "\<exists>fc. d = d\<lparr>fee_configs := fc\<rparr>" by (rule exI [of _ "fee_configs d"]) simp
  then show ?thesis
    by (auto simp: onboardingFees_def andThen_toDecimal createFeeConfig_def split: option.split)
qed

text \<open>The last two inserts touch neither accounts nor wallets nor permissions.\<close>

definition accountRest :: "env \<Rightarrow> create_account_dto \<Rightarrow> settlement_data option \<Rightarrow> ident \<Rightarrow> (db, unit) action" where
  "accountRest e dto st i =
     thenDo (case st of
          None \<Rightarrow> ret ()
        | Some v \<Rightarrow> modify (\<lambda>d. d\<lparr>settlements := settlements d @ [newSettlement e i v True (next_id d)],
                     next_id := Suc (next_id d)\<rparr>))
     (case ca_fees dto of
          None \<Rightarrow> ret ()
        | Some p \<Rightarrow> andThen (onboardingFees i p) (\<lambda>_. ret ()))"

lemma accountTx_split:
  "accountTx e dto code pub st admin =
     andThen (insertAccount (newAccount e dto code pub)) (\<lambda>a.
     thenDo (createWallets (a_id a)) (thenDo (createPermissions (a_id a) admin)
     (thenDo (accountRest e dto st (a_id a)) (ret a))))"
  by (simp add: accountTx_def accountRest_def andThen_assoc)

lemma accountRest_frame:
  "\<exists>ss fc n. snd (accountRest e dto st i d) = d\<lparr>settlements := ss, fee_configs := fc, next_id := n\<rparr> \<and>
     next_id d \<le> n"
proof -
  have fees: "\<exists>fc. snd ((case ca_fees dto of None \<Rightarrow> ret ()
        | Some p \<Rightarrow> andThen (onboardingFees i p) (\<lambda>_. ret ())) d) = d\<lparr>fee_configs := fc\<rparr>" for d
  proof (cases "ca_fees dto")
    case None
    then show ?thesis by (auto simp: ret_run intro: exI [of _ "fee_configs d"])
  next
    case (Some p)
    obtain fc where "snd (onboardingFees i p d) = d\<lparr>fee_configs := fc\<rparr>"
      using onboardingFees_frame by blast
    then show ?thesis using Some by (auto simp: snd_andThen_pure ret_run)
  qed
  show ?thesis
  proof (cases st)
    case None
    obtain fc where "snd (accountRest e dto st i d) = d\<lparr>fee_configs := fc\<rparr>"
      using fees [of d] None by (auto simp: accountRest_def)
    then show ?thesis
      by (intro exI [of _ "settlements d"] exI [of _ fc] exI [of _ "next_id d"]) simp
  next
    case (Some v)
    let ?d = "d\<lparr>settlements := settlements d @ [newSettlement e i v True (next_id d)], next_id := Suc (next_id d)\<rparr>"
    obtain fc where "snd (accountRest e dto st i d) = ?d\<lparr>fee_configs := fc\<rparr>"
      using fees [of ?d] Some by (auto simp: accountRest_def)
    then show ?thesis
      by (intro exI [of _ "settlements ?d"] exI [of _ fc] exI [of _ "next_id ?d"]) simp
  qed
qed

lemma accountTx_Inr:
  assumes "accountTx e dto code pub st admin d = (Inr a, d')"
  shows "a = newAccount e dto code pub (next_id d) \<and> pub \<notin> a_accountId ` set (accounts d) \<and>
    code \<notin> a_sourceCode ` set (accounts d) \<and>
    (\<exists>ss fc n. d' = (opened e dto code pub admin d)\<lparr>settlements := ss, fee_configs := fc, next_id := n\<rparr> \<and>
       next_id d + 3 \<le> n)"
proof -
  let ?o = "opened e dto code pub admin d"
  obtain r d2 where rest: "accountRest e dto st (next_id d) ?o = (r, d2)" by fastforce
  obtain ss fc n where d2: "d2 = ?o\<lparr>settlements := ss, fee_configs := fc, next_id := n\<rparr>" "next_id ?o \<le> n"
    using accountRest_frame [of e dto st "next_id d" ?o] rest by auto
  have n: "next_id ?o = next_id d + 3" by (simp add: opened_def Let_def)
  have o: "?o = d\<lparr>accounts := accounts d @ [newAccount e dto code pub (next_id d)],
       wallets := wallets d @ [newWallet (Suc (next_id d)) (next_id d) WCOLLECTION,
                               newWallet (Suc (Suc (next_id d))) (next_id d) WDISBURSEMENT],
       next_id := Suc (Suc (Suc (next_id d))),
       permissions := permissions d @ map (\<lambda>sv. \<lparr>pm_account = next_id d, pm_service = sv,
              pm_granted = False, pm_meta = None, pm_grantedBy = Some admin\<rparr>) ALL_SERVICES\<rparr>"
    by (simp add: opened_def Let_def numeral_3_eq_3)
  have "a = newAccount e dto code pub (next_id d) \<and> pub \<notin> a_accountId ` set (accounts d) \<and>
    code \<notin> a_sourceCode ` set (accounts d) \<and> d' = d2"
    using assms rest
    by (auto simp: accountTx_split run Let_def o andThen_def [of "accountRest _ _ _ _"]
        split: if_splits sum.splits)
  then show ?thesis using d2 n by auto
qed

lemma uniqueSourceCodeLoop_Inr:
  "uniqueSourceCodeLoop n rnd i d = Inr code \<Longrightarrow>
     length code = SOURCE_CODE_LENGTH \<and> code \<notin> a_sourceCode ` set (accounts d)"
proof (induction n arbitrary: i)
  case (Suc n)
  have "generateSourceCode (\<lambda>_. rnd i) [] = Inr (randomChars (rnd i) SOURCE_CODE_LENGTH)"
    by (simp add: generateSourceCode_def numeral_eq_Suc Let_def)
  then show ?case using Suc by (auto split: if_splits)
qed simp

lemma permissions_complete_new:
  assumes "permissions_complete is ps" and "i \<notin> is"
    and mk: "\<And>s. pm_account (mk s) = i \<and> pm_service (mk s) = s"
  shows "permissions_complete (insert i is) (ps @ map mk ALL_SERVICES)"
proof -
  let ?k = "\<lambda>p. (pm_account p, pm_service p)"
  have all: "set ALL_SERVICES = UNIV" "distinct ALL_SERVICES"
    using service_key.exhaust by (auto simp: ALL_SERVICES_def)
  have "map ?k (map mk ALL_SERVICES) = map (Pair i) ALL_SERVICES" using mk by simp
  then have "distinct (map ?k (ps @ map mk ALL_SERVICES))"
    using assms(1,2) all(2) by (auto simp: permissions_complete_def distinct_map inj_on_def simp del: map_map)
  moreover have "\<exists>p \<in> set (ps @ map mk ALL_SERVICES). pm_account p = j \<and> pm_service p = s"
    if j: "j \<in> insert i is" for j s
  proof (cases "j = i")
    case True
    then show ?thesis using mk [of s] all(1) by (intro bexI [of _ "mk s"]) simp_all
  next
    case False
    then show ?thesis using j assms(1) unfolding permissions_complete_def by fastforce
  qed
  moreover have "pm_account ` set (ps @ map mk ALL_SERVICES) \<subseteq> insert i is"
    using assms(1) mk by (auto simp: permissions_complete_def)
  ultimately show ?thesis unfolding permissions_complete_def by blast
qed

lemma opened_wf:
  assumes wf: "account_wf d" and "pub \<notin> a_accountId ` set (accounts d)"
    and "code \<notin> a_sourceCode ` set (accounts d)" and "length code = SOURCE_CODE_LENGTH" and n: "next_id d + 3 \<le> n"
  shows "account_wf ((opened e dto code pub admin d)\<lparr>settlements := ss, fee_configs := fc, next_id := n\<rparr>)"
proof -
  let ?i = "next_id d"
  have keyed: "accounts_keyed (accounts d) ?i" using wf by (simp add: account_wf_def)
  then have new: "?i \<notin> a_id ` set (accounts d)" by (auto simp: accounts_keyed_def)
  have "accounts_keyed (accounts d @ [newAccount e dto code pub ?i]) n"
    using keyed assms(2-4) new n by (auto simp: accounts_keyed_def)
  moreover have "wallets_complete (insert ?i (a_id ` set (accounts d)))
      (wallets d @ [newWallet (?i + 1) ?i WCOLLECTION, newWallet (?i + 2) ?i WDISBURSEMENT])"
  proof -
    have "\<exists>w \<in> {newWallet (?i + 1) ?i WCOLLECTION, newWallet (?i + 2) ?i WDISBURSEMENT}.
        w_account w = ?i \<and> w_type w = ty" for ty
      by (cases ty) (simp_all add: newWallet_def)
    then show ?thesis
      using wf unfolding account_wf_def wallets_complete_def by (fastforce simp: newWallet_def)
  qed
  moreover have "permissions_complete (insert ?i (a_id ` set (accounts d)))
      (permissions d @ map (\<lambda>sv. \<lparr>pm_account = ?i, pm_service = sv,
              pm_granted = False, pm_meta = None, pm_grantedBy = Some admin\<rparr>) ALL_SERVICES)"
  proof -
    have "permissions_complete (a_id ` set (accounts d)) (permissions d)" using wf by (simp add: account_wf_def)
    from permissions_complete_new [OF this new] show ?thesis by simp
  qed
  moreover have "keys_owned (insert ?i (a_id ` set (accounts d))) (api_keys d)"
    using wf by (auto simp: account_wf_def keys_owned_def)
  ultimately show ?thesis by (simp add: account_wf_def opened_def Let_def)
qed

lemma opened_ledger:
  assumes "ledger_ok d" and "account_wf d" and n: "next_id d + 3 \<le> n"
  shows "ledger_ok ((opened e dto code pub admin d)\<lparr>settlements := ss, fee_configs := fc, next_id := n\<rparr>)"
proof -
  let ?i = "next_id d"
  have k: "wallets_keyed d" using assms(1) by (rule ledger_keyed)
  have noacct: "w_account w \<noteq> ?i" if "w \<in> set (wallets d)" for w
  proof -
    have "w_account w \<in> a_id ` set (accounts d)"
      using assms(2) that by (auto simp: account_wf_def wallets_complete_def)
    then show ?thesis using assms(2) by (auto simp: account_wf_def accounts_keyed_def)
  qed
  have none: "ledgerOf j d = []" if "?i \<le> j" for j
    using k that by (auto simp: wallets_keyed_def ledgerOf_def filter_empty_conv)
  have "wallets_keyed ((opened e dto code pub admin d)\<lparr>settlements := ss, fee_configs := fc, next_id := n\<rparr>)"
    using k n noacct by (fastforce simp: wallets_keyed_def opened_def Let_def newWallet_def)
  moreover have same: "ledgerOf j ((opened e dto code pub admin d)\<lparr>settlements := ss, fee_configs := fc, next_id := n\<rparr>) =
      ledgerOf j d" for j
    by (simp add: ledgerOf_def opened_def Let_def)
  moreover have "wallet_ledger_ok d w" if "w \<in> set (wallets d)" for w
    using assms(1) that by (simp add: ledger_ok_def)
  moreover have "wallet_ledger_ok d (newWallet j acct ty)" if "?i \<le> j" for j acct ty
    using none [OF that] by (simp add: wallet_ledger_ok_def newWallet_def lastAfter_def)
  ultimately show ?thesis
    unfolding ledger_ok_def wallet_ledger_ok_def same by (simp add: opened_def Let_def ball_Un)
qed

lemma keeps_accountTx:
  assumes "account_wf d" and "length code = SOURCE_CODE_LENGTH"
    and "transaction (accountTx e dto code pub st admin) d = (r, d')"
  shows "account_wf d'"
proof (cases r)
  case (Inl err)
  have "d' = d" by (rule transaction_Inl [OF assms(3) [unfolded Inl]])
  then show ?thesis using assms(1) by simp
next
  case (Inr a)
  then have "accountTx e dto code pub st admin d = (Inr a, d')" using assms(3) by (simp add: transaction_Inr)
  from accountTx_Inr [OF this] show ?thesis using opened_wf [OF assms(1)] assms(2) by blast
qed

lemma createAccount_run:
  "createAccount h r e dto admin d = (case uniqueSourceCodeLoop 25 (ad_code r) 0 d of
     Inl err \<Rightarrow> (Inl err, d)
   | Inr code \<Rightarrow> (case onboardingChecks dto of
       Inl err \<Rightarrow> (Inl err, d)
     | Inr st \<Rightarrow> (case transaction (accountTx e dto code (''ACC-'' @ createRandomId (ad_id r) 8) st admin) d of
         (Inl err, d1) \<Rightarrow> (Inl err, d1)
       | (Inr a, d1) \<Rightarrow> (case issueApiKey h (ad_key r) e (RowId (a_id a)) ''default'' admin d1 of
           (Inl err, d2) \<Rightarrow> (Inl err, d2)
         | (Inr key, d2) \<Rightarrow> (Inr (a, key), snd (track e ''account.created'' (Some (RowId (a_id a))) None
             (snd (audit_record e admin (Some (a_id a)) ''account.created'' ''Account'' (Some (a_id a)) d2))))))))"
proof -
  have u: "andThen (uniqueSourceCode rnd) k d = (case uniqueSourceCodeLoop 25 rnd 0 d of
      Inl err \<Rightarrow> (Inl err, d) | Inr code \<Rightarrow> k code d)" for rnd and k :: "string \<Rightarrow> (db, 'b) action"
    by (simp add: uniqueSourceCode_def andThen_def ret_run raise_run split: sum.split)
  show ?thesis
    by (simp add: createAccount_def u run Let_def andThen_def [of "transaction _"]
        andThen_def [of "issueApiKey _ _ _ _ _ _"] track_def split: sum.split prod.split)
qed

lemma keeps_createAccount [keeps_rules]: "keeps account_wf (createAccount h r e dto admin)"
proof (rule keepsI)
  fix d assume wf: "account_wf d"
  show "account_wf (snd (createAccount h r e dto admin d))"
  proof (cases "\<exists>code st. uniqueSourceCodeLoop 25 (ad_code r) 0 d = Inr code \<and> onboardingChecks dto = Inr st")
    case False
    then show ?thesis using wf by (auto simp: createAccount_run split: sum.splits)
  next
    case True
    then obtain code st where c: "uniqueSourceCodeLoop 25 (ad_code r) 0 d = Inr code" and st: "onboardingChecks dto = Inr st"
      by blast
    obtain q d1 where q: "transaction (accountTx e dto code (''ACC-'' @ createRandomId (ad_id r) 8) st admin) d = (q, d1)"
      by fastforce
    have wf1: "account_wf d1" using keeps_accountTx [OF wf _ q] uniqueSourceCodeLoop_Inr [OF c] by blast
    have wf2: "account_wf (snd (issueApiKey h (ad_key r) e k n admin d1))" for k n
      by (rule keepsD [OF keeps_issueApiKey wf1])
    have wf3: "account_wf (snd (track e nm x None (snd (audit_record e admin ac act en i d2))))"
      if "account_wf d2" for nm x ac act en i d2
      by (rule keepsD [OF keeps_track_wf keepsD [OF keeps_audit_wf that]])
    show ?thesis
    proof (cases q)
      case (Inl err)
      then show ?thesis using c st q wf1 by (simp add: createAccount_run)
    next
      case (Inr a)
      obtain z d2 where z: "issueApiKey h (ad_key r) e (RowId (a_id a)) ''default'' admin d1 = (z, d2)" by fastforce
      have "account_wf d2" using wf2 [of "RowId (a_id a)" "''default''"] z by simp
      then show ?thesis using c st q z Inr wf3 by (cases z) (simp_all add: createAccount_run)
    qed
  qed
qed

lemma issueApiKey_Inr:
  assumes "issueApiKey h bytes e k name admin d = (Inr key, d')"
  shows "\<exists>acct row. resolveAccountId k d = Some acct \<and>
     k_keyHash row \<notin> k_keyHash ` set (api_keys d) \<and> k_account row = acct \<and> k_id row = ik_id key \<and>
     k_keyHash row = h (ik_apiKey key) \<and> k_prefix row = take 12 (ik_apiKey key) \<and> k_revokedAt row = None \<and>
     ik_apiKey key = orElse (Some (cfg_apiKeyPrefix (cfg e))) ''zs'' @ ''_live_'' @ hexBytes bytes 32 \<and>
     api_keys d' = api_keys d @ [row] \<and> accounts d' = accounts d \<and> wallets d' = wallets d \<and>
     wallet_txs d' = wallet_txs d \<and> permissions d' = permissions d \<and> next_id d \<le> next_id d'"
  using assms
  by (auto simp: issueApiKey_def run Let_def andThen_def [of "\<lambda>d. if _ d then _ d else _ d"] ret_run
      generateApiKey_def API_KEY_DISPLAY_PREFIX_LENGTH_def split: option.splits if_splits)

lemma createAccount_result:
  assumes "account_wf d" and "ledger_ok d" and "createAccount h r e dto admin d = (res, d')"
  shows "case res of
      Inr (a, key) \<Rightarrow> accounts d' = accounts d @ [a] \<and> a_status a = AcctACTIVE \<and>
        length (a_sourceCode a) = SOURCE_CODE_LENGTH \<and> a_sourceCode a \<notin> a_sourceCode ` set (accounts d) \<and>
        (\<forall>ty. balanceOf (a_id a) ty d' = Some 0) \<and>
        (\<forall>s. \<exists>p \<in> set (permissionsOf (a_id a) d'). pm_service p = s) \<and>
        (\<forall>p \<in> set (permissionsOf (a_id a) d'). \<not> pm_granted p) \<and>
        (\<exists>k. api_keys d' = api_keys d @ [k] \<and> k_account k = a_id a \<and> k_revokedAt k = None \<and>
           k_keyHash k = h (ik_apiKey key) \<and> k_prefix k = take 12 (ik_apiKey key) \<and>
           k_keyHash k \<notin> k_keyHash ` set (api_keys d)) \<and>
        ik_apiKey key = orElse (Some (cfg_apiKeyPrefix (cfg e))) ''zs'' @ ''_live_'' @ hexBytes (ad_key r) 32 \<and>
        account_wf d' \<and> ledger_ok d'
    | Inl err \<Rightarrow> d' = d \<or> (\<exists>a. accounts d' = accounts d @ [a] \<and> err = UniqueViolation)"
proof -
  show ?thesis
  proof (cases "\<exists>code st. uniqueSourceCodeLoop 25 (ad_code r) 0 d = Inr code \<and> onboardingChecks dto = Inr st")
    case False
    then show ?thesis using assms(3) by (auto simp: createAccount_run split: sum.splits)
  next
    case True
    then obtain code st where c: "uniqueSourceCodeLoop 25 (ad_code r) 0 d = Inr code" and st: "onboardingChecks dto = Inr st"
      by blast
    note code = uniqueSourceCodeLoop_Inr [OF c]
    let ?pub = "''ACC-'' @ createRandomId (ad_id r) 8"
    obtain q d1 where q: "transaction (accountTx e dto code ?pub st admin) d = (q, d1)" by fastforce
    show ?thesis
    proof (cases q)
      case (Inl err)
      then show ?thesis using assms(3) c st q transaction_Inl by (fastforce simp: createAccount_run)
    next
      case (Inr a)
      then have tx: "accountTx e dto code ?pub st admin d = (Inr a, d1)" using q by (simp add: transaction_Inr)
      obtain ss fc n where a: "a = newAccount e dto code ?pub (next_id d)" and fresh: "?pub \<notin> a_accountId ` set (accounts d)"
        and d1: "d1 = (opened e dto code ?pub admin d)\<lparr>settlements := ss, fee_configs := fc, next_id := n\<rparr>"
        and n: "next_id d + 3 \<le> n"
        using accountTx_Inr [OF tx] by blast
      have wf1: "account_wf d1" and ok1: "ledger_ok d1"
        unfolding d1 using opened_wf [OF assms(1) fresh] opened_ledger [OF assms(2,1) n] code n by blast+
      have accts: "accounts d1 = accounts d @ [a]" by (simp add: d1 a opened_def Let_def)
      obtain z d2 where z: "issueApiKey h (ad_key r) e (RowId (a_id a)) ''default'' admin d1 = (z, d2)" by fastforce
      show ?thesis
      proof (cases z)
        case (Inl err)
        then have "err = UniqueViolation \<and> d2 = d1"
          using z accts by (auto simp: issueApiKey_def run Let_def resolve_RowId account_exists_mem
              andThen_def [of "\<lambda>d. if _ d then _ d else _ d"] ret_run split: if_splits)
        then show ?thesis using assms(3) c st q Inr z Inl accts by (auto simp: createAccount_run)
      next
        case K: (Inr key)
        have res: "res = Inr (a, key)" and d': "d' = snd (track e ''account.created'' (Some (RowId (a_id a))) None
             (snd (audit_record e admin (Some (a_id a)) ''account.created'' ''Account'' (Some (a_id a)) d2)))"
          using assms(3) c st q Inr z K by (simp_all add: createAccount_run)
        obtain row where row: "k_account row = a_id a" "k_keyHash row = h (ik_apiKey key)"
            "k_prefix row = take 12 (ik_apiKey key)" "k_revokedAt row = None"
            "api_keys d2 = api_keys d1 @ [row]" "accounts d2 = accounts d1" "wallets d2 = wallets d1"
            "wallet_txs d2 = wallet_txs d1" "permissions d2 = permissions d1" "next_id d1 \<le> next_id d2"
            "k_keyHash row \<notin> k_keyHash ` set (api_keys d1)"
            "ik_apiKey key = orElse (Some (cfg_apiKeyPrefix (cfg e))) ''zs'' @ ''_live_'' @ hexBytes (ad_key r) 32"
          using issueApiKey_Inr [OF z [unfolded K]] by (auto simp: resolve_RowId split: if_splits)
        have wf: "account_wf d'"
          using keepsD [OF keeps_createAccount assms(1)] assms(3) by (metis snd_conv)
        have tabs: "wallets d' = wallets d1" "wallet_txs d' = wallet_txs d1" "next_id d1 \<le> next_id d'"
            "permissions d' = permissions d1" "accounts d' = accounts d1" "api_keys d' = api_keys d @ [row]"
          using row by (simp_all add: d' track_def audit_record_def d1 opened_def Let_def)
        have ok: "ledger_ok d'" using ledger_ok_cong [OF tabs(1-3)] ok1 by simp
        have noacct: "w_account w \<noteq> a_id a" if "w \<in> set (wallets d)" for w
          using assms(1) that by (force simp: account_wf_def wallets_complete_def accounts_keyed_def a)
        have noperm: "pm_account p \<noteq> a_id a" if "p \<in> set (permissions d)" for p
          using assms(1) that by (force simp: account_wf_def permissions_complete_def accounts_keyed_def a)
        have bal: "balanceOf (a_id a) ty d' = Some 0" for ty
        proof -
          have "List.find (\<lambda>w. w_account w = a_id a \<and> w_type w = ty) (wallets d) = None"
            using noacct by (auto simp: find_None_iff)
          then show ?thesis
            by (cases ty) (simp_all add: balanceOf_def findWallet_def tabs d1 opened_def Let_def find_append newWallet_def a)
        qed
        have "filter (\<lambda>p. pm_account p = a_id a) (permissions d) = []" using noperm by (auto simp: filter_empty_conv)
        then have perms: "permissionsOf (a_id a) d' = map (\<lambda>sv. \<lparr>pm_account = a_id a, pm_service = sv,
              pm_granted = False, pm_meta = None, pm_grantedBy = Some admin\<rparr>) ALL_SERVICES"
          by (simp add: permissionsOf_def tabs d1 opened_def Let_def a comp_def)
        have srv: "\<exists>p \<in> set (permissionsOf (a_id a) d'). pm_service p = s" for s
          unfolding perms by (cases s) (simp_all add: ALL_SERVICES_def)
        have "api_keys d1 = api_keys d" by (simp add: d1 opened_def Let_def)
        then show ?thesis
          unfolding res using accts tabs row code bal perms srv wf ok
          by (auto simp: a)
      qed
    qed
  qed
qed

section \<open>Properties\<close>


text \<open>C32: a new account is active, has a fresh source code, two empty wallets and one permission
  row for each service, none granted; it comes with one key, of which the database holds the hash and
  the first twelve characters only. When opening fails before the key is made, no account is left.\<close>

theorem create_account_opens:
  assumes "account_wf d" and "ledger_ok d" and "createAccount h r e dto admin d = (res, d')"
  shows "case res of
      Inr (a, key) \<Rightarrow> accounts d' = accounts d @ [a] \<and> a_status a = AcctACTIVE \<and>
        length (a_sourceCode a) = SOURCE_CODE_LENGTH \<and> a_sourceCode a \<notin> a_sourceCode ` set (accounts d) \<and>
        (\<forall>ty. balanceOf (a_id a) ty d' = Some 0) \<and>
        (\<forall>s. \<exists>p \<in> set (permissionsOf (a_id a) d'). pm_service p = s) \<and>
        (\<forall>p \<in> set (permissionsOf (a_id a) d'). \<not> pm_granted p) \<and>
        (\<exists>k. api_keys d' = api_keys d @ [k] \<and> k_account k = a_id a \<and> k_revokedAt k = None \<and>
           k_keyHash k = h (ik_apiKey key) \<and> k_prefix k = take 12 (ik_apiKey key)) \<and>
        account_wf d' \<and> ledger_ok d'
    | Inl err \<Rightarrow> d' = d \<or> (\<exists>a. accounts d' = accounts d @ [a] \<and> err = UniqueViolation)"
  using createAccount_result [OF assms] by (auto split: sum.splits)

definition sample_draws :: account_draws where
  "sample_draws = \<lparr>ad_code = (\<lambda>_ i. i), ad_id = (\<lambda>i. i), ad_key = (\<lambda>i. i)\<rparr>"

definition sample_account_dto :: create_account_dto where
  "sample_account_dto = \<lparr>ca_accountName = ''Shop'', ca_contactEmail = None, ca_contactPhone = None,
     ca_billingMode = None, ca_autoSweep = None, ca_settlement = None, ca_fees = None\<rparr>"

lemma sample_account_runs:
  "case createAccount (\<lambda>s. s) sample_draws default_env sample_account_dto SystemActor empty_db of
     (Inr (a, key), d') \<Rightarrow> a_sourceCode a = ''ABCDE'' \<and> length (ik_apiKey key) = 72 | _ \<Rightarrow> False"
  by code_simp

lemma empty_account_wf: "account_wf empty_db"
  by (simp add: account_wf_def accounts_keyed_def wallets_complete_def permissions_complete_def
        keys_owned_def empty_db_def)

theorem create_account_opens_witness:
  "\<exists>a key d'. createAccount (\<lambda>s. s) sample_draws default_env sample_account_dto SystemActor empty_db
      = (Inr (a, key), d') \<and> balanceOf (a_id a) WDISBURSEMENT d' = Some 0 \<and> accounts d' = [a]"
proof -
  obtain a key d' where run: "createAccount (\<lambda>s. s) sample_draws default_env sample_account_dto
      SystemActor empty_db = (Inr (a, key), d')"
    using sample_account_runs by (auto split: prod.splits sum.splits)
  from create_account_opens [OF empty_account_wf empty_ledger_ok this] run
  show ?thesis by (simp add: empty_db_def)
qed

text \<open>The details checked when an account is opened are those the settlements service accepts.\<close>

lemma onboarding_validates: "onboardingSettlement input = validateSettlementInput input"
  by (cases "si_method input"; cases "si_phoneNumber input")
    (simp_all add: onboardingSettlement_def validateSettlementInput_def orEmpty_def normalizePhoneNumber_def)

end
