(* ===== verification/Access.thy ===== *)
theory Access
  imports Accounts
begin

text \<open>
  Who may call what: common/guards (API keys, staff tokens, roles, service permissions), the
  wallet-action gate of wallets.controller.ts, the login with its lockout (auth/auth.service.ts)
  and the guards that each controller puts on its routes. The JWT library, bcrypt and SHA-256 are
  parameters.
\<close>

section \<open>API keys\<close>

record headers =
  h_apiKey :: "string option"
  h_authorization :: "string option"

text \<open>\<open>replace(/^ApiKey\s+/i, '')\<close>.\<close>

definition stripScheme :: "string \<Rightarrow> string" where
  "stripScheme s =
     (let rest = drop 6 s in
      if toLowerCase (take 6 s) = ''apikey'' \<and> rest \<noteq> [] \<and> isSpaceChar (hd rest)
      then dropWhile isSpaceChar rest else s)"

definition presentedKey :: "headers \<Rightarrow> string" where
  "presentedKey h = trim (orElse (h_apiKey h) (orElse (map_option stripScheme (h_authorization h)) []))"

record request_account =
  ra_account :: account_row
  ra_permissions :: "permission_row list"
  ra_apiKeyId :: ident

definition findKeyByHash :: "string \<Rightarrow> db \<Rightarrow> api_key_row option" where
  "findKeyByHash hash d = List.find (\<lambda>k. k_keyHash k = hash) (api_keys d)"

definition apiKeyGuard :: "(string \<Rightarrow> string) \<Rightarrow> headers \<Rightarrow> db \<Rightarrow> err + request_account" where
  "apiKeyGuard hashApiKey h d =
     (let key = presentedKey h in
      if key = [] \<or> \<not> isValidApiKeyShape key then Inl (Unauthorized UNAUTHORIZED)
      else case findKeyByHash (hashApiKey key) d of
        None \<Rightarrow> Inl (Unauthorized API_KEY_REVOKED)
      | Some k \<Rightarrow>
          if k_revokedAt k \<noteq> None then Inl (Unauthorized API_KEY_REVOKED)
          else case findAccount (k_account k) d of
            None \<Rightarrow> Inl (Unauthorized API_KEY_REVOKED)
          | Some a \<Rightarrow>
              if a_status a = AcctSUSPENDED then Inl (Unauthorized ACCOUNT_SUSPENDED)
              else Inr \<lparr>ra_account = a, ra_permissions = permissionsOf (a_id a) d, ra_apiKeyId = k_id k\<rparr>)"

section \<open>Service permissions\<close>

record service_requirement =
  rq_service :: service_key
  rq_channel :: "channel option"

definition permissionFor :: "service_key \<Rightarrow> permission_row list \<Rightarrow> permission_row option" where
  "permissionFor s ps = List.find (\<lambda>p. pm_service p = s) ps"

definition channelAllowed :: "permission_row \<Rightarrow> channel option \<Rightarrow> bool" where
  "channelAllowed p c =
     (case (c, pm_meta p) of
        (Some ch, Some m) \<Rightarrow>
          (case m_channels m of Some (x # xs) \<Rightarrow> ch \<in> set (x # xs) | _ \<Rightarrow> True)
      | _ \<Rightarrow> True)"

definition servicePermissionGuard ::
    "service_requirement option \<Rightarrow> permission_row list \<Rightarrow> err + unit" where
  "servicePermissionGuard requirement ps =
     (case requirement of
        None \<Rightarrow> Inr ()
      | Some q \<Rightarrow>
          (case permissionFor (rq_service q) ps of
             None \<Rightarrow> Inl (Forbidden SERVICE_NOT_GRANTED)
           | Some p \<Rightarrow>
               if \<not> pm_granted p then Inl (Forbidden SERVICE_NOT_GRANTED)
               else if \<not> channelAllowed p (rq_channel q) then Inl (Forbidden CHANNEL_NOT_ALLOWED)
               else Inr ()))"

text \<open>\<open>assertWalletActions\<close> of the wallet controller.\<close>

definition assertWalletActions :: "permission_row list \<Rightarrow> wallet_type \<Rightarrow> err + unit" where
  "assertWalletActions ps ty =
     (case permissionFor (if ty = WCOLLECTION then SvcCOLLECTION else SvcDISBURSEMENT) ps of
        None \<Rightarrow> Inl (Forbidden WALLET_ACTIONS_NOT_GRANTED)
      | Some p \<Rightarrow>
          if pm_granted p \<and> (case pm_meta p of None \<Rightarrow> False | Some m \<Rightarrow> m_walletActions m)
          then Inr () else Inl (Forbidden WALLET_ACTIONS_NOT_GRANTED))"

section \<open>Staff tokens and roles\<close>

record jwt_payload =
  jp_sub :: ident
  jp_email :: string
  jp_name :: string
  jp_role :: user_role

text \<open>The first two parts of the header, split at single spaces.\<close>

definition bearerToken :: "string \<Rightarrow> string option" where
  "bearerToken header =
     (let scheme = takeWhile (\<lambda>c. c \<noteq> CHR '' '') header;
          rest = drop 1 (dropWhile (\<lambda>c. c \<noteq> CHR '' '') header);
          token = takeWhile (\<lambda>c. c \<noteq> CHR '' '') rest
      in if toLowerCase scheme = ''bearer'' \<and> token \<noteq> [] then Some token else None)"

definition jwtAuthGuard :: "(string \<Rightarrow> jwt_payload option) \<Rightarrow> headers \<Rightarrow> err + jwt_payload" where
  "jwtAuthGuard verify h =
     (case bearerToken (orEmpty (h_authorization h)) of
        None \<Rightarrow> Inl (Unauthorized UNAUTHORIZED)
      | Some t \<Rightarrow> (case verify t of None \<Rightarrow> Inl (Unauthorized UNAUTHORIZED) | Some p \<Rightarrow> Inr p))"

definition rolesGuard :: "user_role list \<Rightarrow> user_role option \<Rightarrow> err + unit" where
  "rolesGuard required role =
     (if required = [] then Inr ()
      else case role of
        None \<Rightarrow> Inl (Forbidden FORBIDDEN)
      | Some r \<Rightarrow> if r \<in> set required then Inr () else Inl (Forbidden FORBIDDEN))"

section \<open>Login\<close>

record auth_config =
  ac_maxFailures :: nat
  ac_window :: int
  ac_lockout :: int

definition default_auth_config :: auth_config where
  "default_auth_config = \<lparr>ac_maxFailures = 10, ac_window = 900000, ac_lockout = 900000\<rparr>"

record failure_record =
  fr_count :: nat
  fr_firstAt :: int
  fr_lockedUntil :: "int option"

type_synonym failures = "string \<rightharpoonup> failure_record"

definition registerFailure :: "auth_config \<Rightarrow> int \<Rightarrow> string \<Rightarrow> failures \<Rightarrow> failures" where
  "registerFailure c t email f =
     (let fresh = f(email \<mapsto> \<lparr>fr_count = 1, fr_firstAt = t, fr_lockedUntil = None\<rparr>) in
      case f email of
        None \<Rightarrow> fresh
      | Some r \<Rightarrow>
          if ac_window c < t - fr_firstAt r then fresh
          else let n = fr_count r + 1 in
            if ac_maxFailures c \<le> n
            then f(email \<mapsto> \<lparr>fr_count = 0, fr_firstAt = t, fr_lockedUntil = Some (t + ac_lockout c)\<rparr>)
            else f(email \<mapsto> r\<lparr>fr_count := n\<rparr>))"

definition lockedAt :: "int \<Rightarrow> string \<Rightarrow> failures \<Rightarrow> bool" where
  "lockedAt t email f =
     (case f email of None \<Rightarrow> False
      | Some r \<Rightarrow> (case fr_lockedUntil r of None \<Rightarrow> False | Some u \<Rightarrow> t < u))"

definition findStaff :: "string \<Rightarrow> db \<Rightarrow> staff_row option" where
  "findStaff email d = List.find (\<lambda>s. s_email s = email) (staff d)"

record login_result =
  lr_accessToken :: string
  lr_user :: jwt_payload

definition staffPayload :: "staff_row \<Rightarrow> jwt_payload" where
  "staffPayload s = \<lparr>jp_sub = s_id s, jp_email = s_email s, jp_name = s_name s, jp_role = s_role s\<rparr>"

definition loginEmail :: "string \<Rightarrow> string" where
  "loginEmail s = trim (toLowerCase s)"

text \<open>One login at time \<open>t\<close>: the answer and the new failure records.\<close>

definition login ::
    "auth_config \<Rightarrow> (string \<Rightarrow> string \<Rightarrow> bool) \<Rightarrow> (jwt_payload \<Rightarrow> string) \<Rightarrow> db \<Rightarrow> int \<Rightarrow> string \<Rightarrow> string
     \<Rightarrow> (failures, login_result) action" where
  "login c compare sign d t rawEmail password = (\<lambda>f.
     let email = loginEmail rawEmail in
     if lockedAt t email f then (Inl (Unauthorized INVALID_CREDENTIALS), f)
     else case findStaff email d of
       None \<Rightarrow> (Inl (Unauthorized INVALID_CREDENTIALS), registerFailure c t email f)
     | Some u \<Rightarrow>
         if \<not> s_isActive u \<or> \<not> compare password (s_passwordHash u)
         then (Inl (Unauthorized INVALID_CREDENTIALS), registerFailure c t email f)
         else (Inr \<lparr>lr_accessToken = sign (staffPayload u), lr_user = staffPayload u\<rparr>, f(email := None)))"

definition me :: "ident \<Rightarrow> db \<Rightarrow> err + staff_row" where
  "me i d = (case List.find (\<lambda>s. s_id s = i) (staff d) of
     None \<Rightarrow> Inl (Unauthorized UNAUTHORIZED) | Some s \<Rightarrow> Inr s)"

section \<open>Routes\<close>

datatype verb = GET | POST | PUT | PATCH | DELETE

text \<open>The guards of a route: none, the API key (with a service requirement), a staff token with one
  of the roles, or any staff token.\<close>

datatype gate =
    PublicRoute | AccountRoute "service_requirement option" | StaffRoute "user_role list" | SignedIn

record route =
  rt_verb :: verb
  rt_path :: string
  rt_gate :: gate

definition keyed :: "verb \<Rightarrow> string \<Rightarrow> route" where
  "keyed v p = \<lparr>rt_verb = v, rt_path = p, rt_gate = AccountRoute None\<rparr>"

definition needs :: "service_key \<Rightarrow> channel option \<Rightarrow> verb \<Rightarrow> string \<Rightarrow> route" where
  "needs s c v p = \<lparr>rt_verb = v, rt_path = p, rt_gate = AccountRoute (Some \<lparr>rq_service = s, rq_channel = c\<rparr>)\<rparr>"

definition adminOnly :: "verb \<Rightarrow> string \<Rightarrow> route" where
  "adminOnly v p = \<lparr>rt_verb = v, rt_path = p, rt_gate = StaffRoute [RoleADMIN]\<rparr>"

definition allStaff :: "verb \<Rightarrow> string \<Rightarrow> route" where
  "allStaff v p = \<lparr>rt_verb = v, rt_path = p, rt_gate = StaffRoute [RoleADMIN, RoleSERVICEMAN]\<rparr>"

definition public :: "verb \<Rightarrow> string \<Rightarrow> route" where
  "public v p = \<lparr>rt_verb = v, rt_path = p, rt_gate = PublicRoute\<rparr>"

definition collectionRoutes :: "route list" where
  "collectionRoutes =
     [needs SvcCOLLECTION (Some MOBILE_MONEY) POST ''collections/ussd-push/preview'',
      needs SvcCOLLECTION (Some MOBILE_MONEY) POST ''collections/ussd-push'',
      needs SvcCOLLECTION None GET ''collections'',
      needs SvcCOLLECTION None GET ''collections/:reference'',
      needs SvcCOLLECTION None POST ''collections/:reference/refresh'']"

definition depositRoutes :: "route list" where
  "depositRoutes =
     [needs SvcCOLLECTION (Some MOBILE_MONEY) POST ''wallets/deposits/preview'',
      needs SvcCOLLECTION (Some MOBILE_MONEY) POST ''wallets/deposits'',
      needs SvcCOLLECTION None GET ''wallets/deposits'',
      needs SvcCOLLECTION None GET ''wallets/deposits/:reference'',
      needs SvcCOLLECTION None POST ''wallets/deposits/:reference/refresh'']"

definition disbursementRoutes :: "route list" where
  "disbursementRoutes =
     [needs SvcDISBURSEMENT (Some MOBILE_MONEY) POST ''disbursements/mobile-money/preview'',
      needs SvcDISBURSEMENT (Some MOBILE_MONEY) POST ''disbursements/mobile-money'',
      needs SvcDISBURSEMENT (Some BANK) POST ''disbursements/bank'',
      needs SvcDISBURSEMENT None POST ''disbursements/links'',
      needs SvcDISBURSEMENT None POST ''disbursements/batches'',
      needs SvcDISBURSEMENT None GET ''disbursements'',
      needs SvcDISBURSEMENT None GET ''disbursements/batches'',
      needs SvcDISBURSEMENT None GET ''disbursements/batches/:reference'',
      needs SvcDISBURSEMENT None GET ''disbursements/:reference'']"

definition payoutLinkRoutes :: "route list" where
  "payoutLinkRoutes =
     [public GET ''payout-links/:token'', public POST ''payout-links/:token/recipient'',
      public POST ''payout-links/:token/confirm'']"

definition smsRoutes :: "route list" where
  "smsRoutes =
     [needs SvcSMS None POST ''sms/send'', needs SvcSMS None GET ''sms/sender-names'',
      needs SvcSMS None GET ''sms'', needs SvcSMS None GET ''sms/:reference'']"

definition walletRoutes :: "route list" where
  "walletRoutes =
     [keyed GET ''wallets'', keyed GET ''wallets/:type/transactions'',
      keyed POST ''wallets/:type/deposit'', keyed POST ''wallets/:type/withdraw'',
      keyed POST ''wallets/transfers'', keyed GET ''wallets/transfers'']"

definition adminWalletRoutes :: "route list" where
  "adminWalletRoutes =
     [allStaff GET ''admin/accounts/:accountId/wallets'',
      allStaff GET ''admin/accounts/:accountId/wallets/:type/transactions'',
      adminOnly POST ''admin/accounts/:accountId/wallets/:type/deposit'',
      adminOnly POST ''admin/accounts/:accountId/wallets/:type/withdraw'',
      adminOnly POST ''admin/accounts/:accountId/wallets/:type/freeze'',
      adminOnly POST ''admin/accounts/:accountId/wallets/:type/activate'']"

definition walletSettlementRoutes :: "route list" where
  "walletSettlementRoutes =
     [keyed POST ''wallets/withdrawals'', keyed GET ''wallets/withdrawals'',
      keyed GET ''wallets/settlement-accounts'']"

definition adminSettlementRoutes :: "route list" where
  "adminSettlementRoutes =
     [allStaff GET ''admin/accounts/:accountId/settlement'',
      adminOnly POST ''admin/accounts/:accountId/settlement'',
      adminOnly PUT ''admin/accounts/:accountId/settlement/auto-sweep'',
      adminOnly POST ''admin/accounts/:accountId/settlement/sweep-now'',
      adminOnly PUT ''admin/accounts/:accountId/settlement/:settlementId'']"

definition feeRoutes :: "route list" where
  "feeRoutes = [allStaff GET ''admin/accounts/:accountId/fees'', adminOnly PUT ''admin/accounts/:accountId/fees'']"

definition accountRoutes :: "route list" where
  "accountRoutes =
     [keyed GET ''me'', adminOnly POST ''admin/accounts'', allStaff GET ''admin/accounts'',
      allStaff GET ''admin/accounts/:accountId'', adminOnly PATCH ''admin/accounts/:accountId'',
      adminOnly POST ''admin/accounts/:accountId/suspend'', adminOnly POST ''admin/accounts/:accountId/activate'',
      adminOnly POST ''admin/accounts/:accountId/api-keys'',
      adminOnly DELETE ''admin/accounts/:accountId/api-keys/:keyId'',
      adminOnly PUT ''admin/accounts/:accountId/permissions'']"

definition adminRoutes :: "route list" where
  "adminRoutes =
     [adminOnly POST ''admin/users'', adminOnly GET ''admin/users'',
      allStaff GET ''admin/accounts/:accountId/overview'', allStaff GET ''admin/accounts/:accountId/computations'',
      allStaff GET ''admin/audit-logs'', allStaff GET ''admin/analytics/summary'', allStaff GET ''admin/traces'']"

definition billingRoutes :: "route list" where
  "billingRoutes =
     [adminOnly POST ''admin/plans'', allStaff GET ''admin/plans'',
      adminOnly POST ''admin/accounts/:accountId/plan'', adminOnly POST ''admin/accounts/:accountId/bills'',
      adminOnly POST ''admin/accounts/:accountId/bills/:billId/paid'',
      allStaff GET ''admin/accounts/:accountId/bills'']"

definition webhookRoutes :: "route list" where
  "webhookRoutes =
     [keyed POST ''me/webhooks'', keyed GET ''me/webhooks'', keyed PATCH ''me/webhooks/:endpointId'',
      keyed DELETE ''me/webhooks/:endpointId'']"

definition receiverRoutes :: "route list" where
  "receiverRoutes = [public POST ''webhooks/clickpesa'', public POST ''webhooks/beem'']"

definition authRoutes :: "route list" where
  "authRoutes = [public POST ''auth/login'', \<lparr>rt_verb = GET, rt_path = ''auth/me'', rt_gate = SignedIn\<rparr>]"

definition healthRoutes :: "route list" where
  "healthRoutes = [public GET ''health'']"

definition allRoutes :: "route list" where
  "allRoutes = collectionRoutes @ depositRoutes @ disbursementRoutes @ payoutLinkRoutes @ smsRoutes @
     walletRoutes @ adminWalletRoutes @ walletSettlementRoutes @ adminSettlementRoutes @ feeRoutes @
     accountRoutes @ adminRoutes @ billingRoutes @ webhookRoutes @ receiverRoutes @ authRoutes @ healthRoutes"

datatype caller = Anonymous | AccountCaller request_account | StaffCaller jwt_payload

text \<open>The guards of a route in their order, for one request.\<close>

definition authorize ::
    "(string \<Rightarrow> string) \<Rightarrow> (string \<Rightarrow> jwt_payload option) \<Rightarrow> route \<Rightarrow> headers \<Rightarrow> db \<Rightarrow> err + caller" where
  "authorize hashApiKey verify rt h d =
     (case rt_gate rt of
        PublicRoute \<Rightarrow> Inr Anonymous
      | AccountRoute requirement \<Rightarrow> (case apiKeyGuard hashApiKey h d of
            Inl err \<Rightarrow> Inl err
          | Inr a \<Rightarrow> (case servicePermissionGuard requirement (ra_permissions a) of
              Inl err \<Rightarrow> Inl err | Inr _ \<Rightarrow> Inr (AccountCaller a)))
      | StaffRoute roles \<Rightarrow> (case jwtAuthGuard verify h of
            Inl err \<Rightarrow> Inl err
          | Inr p \<Rightarrow> (case rolesGuard roles (Some (jp_role p)) of
              Inl err \<Rightarrow> Inl err | Inr _ \<Rightarrow> Inr (StaffCaller p)))
      | SignedIn \<Rightarrow> (case jwtAuthGuard verify h of
            Inl err \<Rightarrow> Inl err | Inr p \<Rightarrow> Inr (StaffCaller p)))"

section \<open>Lemmas\<close>

lemma staffRoutes_roles:
  "list_all (\<lambda>rt. case rt_gate rt of
     StaffRoute roles \<Rightarrow> RoleADMIN \<in> set roles \<and>
       (RoleSERVICEMAN \<in> set roles) = (rt_verb rt = GET \<and> rt_path rt \<noteq> ''admin/users'')
   | _ \<Rightarrow> True) allRoutes"
  by code_simp

lemma serviceRoutes_listed:
  "list_all (\<lambda>rt. case rt_gate rt of PublicRoute \<Rightarrow> True | SignedIn \<Rightarrow> True | StaffRoute roles \<Rightarrow> roles \<noteq> []
     | AccountRoute q \<Rightarrow> q \<noteq> None \<or> startsWith (rt_path rt) ''me'' \<or> startsWith (rt_path rt) ''wallets'') allRoutes"
  by code_simp

text \<open>Keys: what is stored of a key is found by its hash.\<close>

lemma findKeyByHash_new:
  "k_keyHash row \<notin> k_keyHash ` set ks \<Longrightarrow> api_keys d = ks @ [row] \<Longrightarrow> findKeyByHash (k_keyHash row) d = Some row"
  unfolding findKeyByHash_def by (rule find_unique) (auto, (metis image_eqI)?)

lemma hexBytes_chars: "list_all (\<lambda>c. \<not> isSpaceChar c) (hexBytes bytes n)"
proof -
  have hex: "list_all (\<lambda>c. \<not> isSpaceChar c) HEX" "length HEX = 16" by code_simp+
  show ?thesis using hex by (auto simp: hexBytes_def list_all_iff)
qed

lemma trim_no_space:
  assumes "list_all (\<lambda>c. \<not> isSpaceChar c) s" shows "trim s = s"
proof -
  have id: "dropWhile isSpaceChar t = t" if "list_all (\<lambda>c. \<not> isSpaceChar c) t" for t
    using that by (cases t) simp_all
  have "list_all (\<lambda>c. \<not> isSpaceChar c) (rev s)" using assms by (simp add: list_all_iff)
  then show ?thesis using assms by (simp add: trim_def id)
qed

lemma fullKey_shape:
  "list_all (\<lambda>c. \<not> isSpaceChar c) (''zs'' @ ''_live_'' @ hexBytes bytes 32)"
  "length (''zs'' @ ''_live_'' @ hexBytes bytes 32) = 72"
proof -
  have "list_all (\<lambda>c. \<not> isSpaceChar c) ''zs_live_''" by code_simp
  then show "list_all (\<lambda>c. \<not> isSpaceChar c) (''zs'' @ ''_live_'' @ hexBytes bytes 32)"
    using hexBytes_chars by simp
  show "length (''zs'' @ ''_live_'' @ hexBytes bytes 32) = 72" by (simp add: length_hexBytes)
qed

lemma permissionFor_wf:
  assumes "\<forall>p \<in> set ps. \<not> pm_granted p"
  shows "servicePermissionGuard (Some q) ps = Inl (Forbidden SERVICE_NOT_GRANTED)"
  using assms by (auto simp: servicePermissionGuard_def permissionFor_def dest: find_SomeD split: option.split)

lemma account_found:
  "account_wf d \<Longrightarrow> a \<in> set (accounts d) \<Longrightarrow> findAccount (a_id a) d = Some a"
  unfolding findAccount_def
  by (rule find_unique) (auto simp: account_wf_def accounts_keyed_def distinct_map dest: inj_onD)

lemma findAccount_id: "findAccount i d = Some a \<Longrightarrow> a_id a = i"
  by (auto simp: findAccount_def dest: find_SomeD)

lemma findAccount_update:
  "(\<And>a. a_id (f a) = a_id a) \<Longrightarrow>
     findAccount j (d\<lparr>accounts := updateWhere (\<lambda>a. a_id a = i) f (accounts d)\<rparr>) =
       map_option (\<lambda>a. if a_id a = i then f a else a) (findAccount j d)"
  by (simp add: findAccount_def find_updateWhere)

text \<open>Suspension and activation share one shape.\<close>

lemma status_change_run:
  assumes "andThen (getEntity k) (\<lambda>a.
       if a_status a = st then ret a
       else andThen (updateAccountRow (a_id a) f) (\<lambda>u.
         thenDo (audit_record e admin (Some (a_id a)) action entity (Some (a_id a)))
         (thenDo (track e event (Some (RowId (a_id a))) None) (ret u)))) d = (Inr a, d1)"
    and "\<And>r. a_id (f r) = a_id r" and "\<And>r. a_status (f r) = st"
  shows "findAccount (a_id a) d1 = Some a \<and> a_status a = st \<and> api_keys d1 = api_keys d \<and>
     permissions d1 = permissions d"
proof -
  obtain i b where i: "resolveAccountId k d = Some i" and b: "findAccount i d = Some b"
    using assms(1) by (auto simp: getEntity_def run split: option.splits)
  note bid = findAccount_id [OF b]
  have upd: "findAccount i (d\<lparr>accounts := updateWhere (\<lambda>a. a_id a = i) f (accounts d)\<rparr>) = Some (f b)"
    using findAccount_update [OF assms(2)] b bid by simp
  show ?thesis
  proof (cases "a_status b = st")
    case True
    then show ?thesis using assms(1) i b bid by (auto simp: getEntity_def run)
  next
    case False
    then have "a = f b" and "d1 = snd (track e event (Some (RowId i)) None
        (snd (audit_record e admin (Some i) action entity (Some i)
          (d\<lparr>accounts := updateWhere (\<lambda>a. a_id a = i) f (accounts d)\<rparr>))))"
      using assms(1) i b bid upd
      by (auto simp: getEntity_def updateAccountRow_def run andThen_assoc track_def)
    then show ?thesis using upd bid assms(2,3) by (simp add: track_def audit_record_def findAccount_def)
  qed
qed

lemma suspend_run:
  assumes "suspendAccount e k reason admin d = (Inr a, d1)"
  shows "findAccount (a_id a) d1 = Some a \<and> a_status a = AcctSUSPENDED \<and> api_keys d1 = api_keys d \<and>
     permissions d1 = permissions d"
  by (rule status_change_run [OF assms [unfolded suspendAccount_def]]) simp_all

lemma activate_run:
  assumes "activateAccount e k admin d = (Inr a, d1)"
  shows "findAccount (a_id a) d1 = Some a \<and> a_status a = AcctACTIVE \<and> api_keys d1 = api_keys d \<and>
     permissions d1 = permissions d"
  by (rule status_change_run [OF assms [unfolded activateAccount_def]]) simp_all


lemma apiKeyGuard_Inr:
  assumes "apiKeyGuard hash h d = Inr ra"
  shows "\<exists>key. presentedKey h \<noteq> [] \<and> isValidApiKeyShape (presentedKey h) \<and>
     findKeyByHash (hash (presentedKey h)) d = Some key \<and> k_revokedAt key = None \<and>
     findAccount (k_account key) d = Some (ra_account ra) \<and> a_status (ra_account ra) \<noteq> AcctSUSPENDED \<and>
     ra_permissions ra = permissionsOf (a_id (ra_account ra)) d \<and> ra_apiKeyId ra = k_id key"
  using assms by (auto simp: apiKeyGuard_def Let_def split: if_splits option.splits)

section \<open>Properties\<close>

text \<open>C33: a serviceman may read and nothing else: of the routes for staff, a serviceman's token opens
  exactly the GET routes other than the staff list, and is refused on every other.\<close>

theorem serviceman_read_only:
  assumes "rt \<in> set allRoutes" and "rt_gate rt = StaffRoute roles" and "jwtAuthGuard verify h = Inr p"
    and "jp_role p = RoleSERVICEMAN"
  shows "authorize hashApiKey verify rt h d =
    (if rt_verb rt = GET \<and> rt_path rt \<noteq> ''admin/users'' then Inr (StaffCaller p) else Inl (Forbidden FORBIDDEN))"
proof -
  have "(RoleSERVICEMAN \<in> set roles) = (rt_verb rt = GET \<and> rt_path rt \<noteq> ''admin/users'')" and "roles \<noteq> []"
    using staffRoutes_roles assms(1,2) by (auto simp: list_all_iff)
  then show ?thesis using assms(2-4) by (simp add: authorize_def rolesGuard_def)
qed

text \<open>C34: the key a new account is given works at once, but opens no service: on every route that
  needs a service the request is refused as not granted, and on the others it is let through.\<close>

theorem fresh_account_denied:
  assumes "account_wf d" and "ledger_ok d" and "cfg_apiKeyPrefix (cfg e) = ''zs''"
    and "createAccount hash r e dto admin d = (Inr (a, key), d')"
    and "h_apiKey h = Some (ik_apiKey key)" and "rt_gate rt = AccountRoute requirement"
  shows "\<exists>ra. apiKeyGuard hash h d' = Inr ra \<and> ra_account ra = a \<and>
    authorize hash verify rt h d' = (case requirement of
       None \<Rightarrow> Inr (AccountCaller ra) | Some _ \<Rightarrow> Inl (Forbidden SERVICE_NOT_GRANTED))"
proof -
  obtain k where accts: "accounts d' = accounts d @ [a]" and act: "a_status a = AcctACTIVE"
    and k: "api_keys d' = api_keys d @ [k]" "k_account k = a_id a" "k_revokedAt k = None"
      "k_keyHash k = hash (ik_apiKey key)" "k_keyHash k \<notin> k_keyHash ` set (api_keys d)"
    and none: "\<forall>p \<in> set (permissionsOf (a_id a) d'). \<not> pm_granted p" and wf: "account_wf d'"
    and full: "ik_apiKey key = ''zs'' @ ''_live_'' @ hexBytes (ad_key r) 32"
    using createAccount_result [OF assms(1,2,4)] assms(3) by (auto simp: orElse_def)
  have key: "presentedKey h = ik_apiKey key" "isValidApiKeyShape (ik_apiKey key)" "ik_apiKey key \<noteq> []"
    using assms(5) trim_no_space [OF fullKey_shape(1)] fullKey_shape(2) [of "ad_key r"] unfolding full
    by (simp_all add: presentedKey_def orElse_def isValidApiKeyShape_def API_KEY_MIN_LENGTH_def)
  have found: "findKeyByHash (hash (ik_apiKey key)) d' = Some k" "findAccount (a_id a) d' = Some a"
    using findKeyByHash_new [OF k(5,1)] k(4) account_found [OF wf, of a] accts by simp_all
  have ra: "apiKeyGuard hash h d' = Inr \<lparr>ra_account = a, ra_permissions = permissionsOf (a_id a) d', ra_apiKeyId = k_id k\<rparr>"
    using key found k(2,3) act by (simp add: apiKeyGuard_def Let_def)
  show ?thesis
    using ra assms(6) permissionFor_wf [OF none]
    by (auto simp: authorize_def servicePermissionGuard_def [of None] split: option.split)
qed

text \<open>A suspension closes the account to all its keys at once, whatever the route, and lifting it
  opens the account to the same keys with the same permissions; no key changes in between.\<close>

theorem suspension_blocks:
  assumes "account_wf d" and "apiKeyGuard hash h d = Inr ra"
    and "suspendAccount e k reason admin d = (Inr a, d1)" and "a_id a = a_id (ra_account ra)"
    and "activateAccount e' k' admin' d1 = (Inr b, d2)" and "a_id b = a_id a"
    and "rt_gate rt = AccountRoute requirement"
  shows "authorize hash verify rt h d1 = Inl (Unauthorized ACCOUNT_SUSPENDED) \<and>
    (\<exists>rb. apiKeyGuard hash h d2 = Inr rb \<and> ra_apiKeyId rb = ra_apiKeyId ra \<and>
       ra_permissions rb = ra_permissions ra \<and> a_status (ra_account rb) = AcctACTIVE)"
proof -
  obtain key where key: "presentedKey h \<noteq> []" "isValidApiKeyShape (presentedKey h)"
      "findKeyByHash (hash (presentedKey h)) d = Some key" "k_revokedAt key = None"
      "findAccount (k_account key) d = Some (ra_account ra)" "ra_apiKeyId ra = k_id key"
      "ra_permissions ra = permissionsOf (a_id (ra_account ra)) d"
    using apiKeyGuard_Inr [OF assms(2)] by blast
  have acct: "k_account key = a_id a" using findAccount_id [OF key(5)] assms(4) by simp
  note s = suspend_run [OF assms(3)] and t = activate_run [OF assms(5)]
  have "apiKeyGuard hash h d1 = Inl (Unauthorized ACCOUNT_SUSPENDED)"
    using key s acct by (simp add: apiKeyGuard_def findKeyByHash_def Let_def)
  moreover have "apiKeyGuard hash h d2 = Inr \<lparr>ra_account = b, ra_permissions = permissionsOf (a_id a) d,
      ra_apiKeyId = k_id key\<rparr>"
    using key s t acct assms(6) by (simp add: apiKeyGuard_def findKeyByHash_def permissionsOf_def Let_def)
  ultimately show ?thesis using assms(4,7) key t by (simp add: authorize_def)
qed

section \<open>The lockout\<close>

text \<open>A sequence of logins for one email, each with its time and password.\<close>

definition attempts ::
    "auth_config \<Rightarrow> (string \<Rightarrow> string \<Rightarrow> bool) \<Rightarrow> (jwt_payload \<Rightarrow> string) \<Rightarrow> db \<Rightarrow> string
     \<Rightarrow> (int \<times> string) list \<Rightarrow> failures \<Rightarrow> failures" where
  "attempts c compare sign d email tps f =
     fold (\<lambda>(t, pw) g. snd (login c compare sign d t email pw g)) tps f"

definition rejected :: "(string \<Rightarrow> string \<Rightarrow> bool) \<Rightarrow> db \<Rightarrow> string \<Rightarrow> string \<Rightarrow> bool" where
  "rejected compare d email pw \<longleftrightarrow>
     (case findStaff (loginEmail email) d of None \<Rightarrow> True
      | Some u \<Rightarrow> \<not> s_isActive u \<or> \<not> compare pw (s_passwordHash u))"

lemma login_rejected:
  assumes "rejected compare d email pw" and "\<not> lockedAt t (loginEmail email) f"
  shows "snd (login c compare sign d t email pw f) = registerFailure c t (loginEmail email) f"
  using assms by (auto simp: login_def rejected_def Let_def split: option.splits)

lemma attempts_count:
  assumes "f (loginEmail email) = Some \<lparr>fr_count = n, fr_firstAt = t0, fr_lockedUntil = None\<rparr>"
    and "n + length tps < ac_maxFailures c"
    and "\<forall>(t, pw) \<in> set tps. t \<le> t0 + ac_window c \<and> rejected compare d email pw"
  shows "attempts c compare sign d email tps f (loginEmail email) =
    Some \<lparr>fr_count = n + length tps, fr_firstAt = t0, fr_lockedUntil = None\<rparr>"
  using assms
proof (induction tps arbitrary: n f)
  case (Cons x tps)
  obtain t pw where x: "x = (t, pw)" by (cases x)
  have nl: "\<not> lockedAt t (loginEmail email) f" using Cons.prems(1) by (simp add: lockedAt_def)
  have rej: "rejected compare d email pw" and t: "t \<le> t0 + ac_window c" using Cons.prems(3) x by auto
  let ?g = "registerFailure c t (loginEmail email) f"
  have "?g (loginEmail email) = Some \<lparr>fr_count = Suc n, fr_firstAt = t0, fr_lockedUntil = None\<rparr>"
    using Cons.prems(1,2) t by (simp add: registerFailure_def Let_def)
  from Cons.IH [where f = ?g and n = "Suc n", OF this] Cons.prems(2,3)
  show ?case using login_rejected [OF rej nl] by (simp add: attempts_def x)
qed (simp add: attempts_def)

lemma lockout_after:
  assumes "f (loginEmail email) = None" and "2 \<le> ac_maxFailures c"
    and "length tps = ac_maxFailures c" and "fst (hd tps) = t0" and "fst (last tps) = t1"
    and "\<forall>(t, pw) \<in> set tps. t \<le> t0 + ac_window c \<and> rejected compare d email pw"
  shows "attempts c compare sign d email tps f (loginEmail email) =
    Some \<lparr>fr_count = 0, fr_firstAt = t1, fr_lockedUntil = Some (t1 + ac_lockout c)\<rparr>"
proof -
  obtain p0 mid p1 where tps: "tps = (t0, p0) # mid @ [(t1, p1)]"
  proof -
    obtain x ys where xs: "tps = x # ys" "ys \<noteq> []"
      using assms(2,3) by (cases tps; cases "tl tps") auto
    have "x = (t0, snd x)" and "last ys = (t1, snd (last ys))" using assms(4,5) xs by auto
    then have "tps = (t0, snd x) # butlast ys @ [(t1, snd (last ys))]"
      using xs append_butlast_last_id [OF xs(2)] by metis
    then show thesis by (rule that)
  qed
  let ?f1 = "registerFailure c t0 (loginEmail email) f"
  let ?f2 = "attempts c compare sign d email mid ?f1"
  have nl0: "\<not> lockedAt t0 (loginEmail email) f" using assms(1) by (simp add: lockedAt_def)
  have "?f1 (loginEmail email) = Some \<lparr>fr_count = 1, fr_firstAt = t0, fr_lockedUntil = None\<rparr>"
    using assms(1) by (simp add: registerFailure_def Let_def)
  from attempts_count [where f = ?f1 and n = 1, OF this, of mid c compare d sign] assms(3,6)
  have f2: "?f2 (loginEmail email) = Some \<lparr>fr_count = ac_maxFailures c - 1, fr_firstAt = t0, fr_lockedUntil = None\<rparr>"
    by (simp add: tps)
  then have nl2: "\<not> lockedAt t1 (loginEmail email) ?f2" by (simp add: lockedAt_def)
  have "attempts c compare sign d email tps f = registerFailure c t1 (loginEmail email) ?f2"
    using login_rejected [OF _ nl0] login_rejected [OF _ nl2] assms(6) by (simp add: attempts_def tps)
  then show ?thesis using f2 assms(2,6) by (simp add: registerFailure_def Let_def tps)
qed

text \<open>C35: after the configured number of failures within the window, counted from the first of them,
  even the right password is answered exactly like a wrong one until the lockout ends; from then on it
  is accepted, and the failures are forgotten.\<close>

theorem login_lockout:
  assumes "f (loginEmail email) = None" and "2 \<le> ac_maxFailures c"
    and "length tps = ac_maxFailures c" and "fst (hd tps) = t0" and "fst (last tps) = t1"
    and "\<forall>(t, pw) \<in> set tps. t \<le> t0 + ac_window c \<and> rejected compare d email pw"
    and "findStaff (loginEmail email) d = Some u" and "s_isActive u" and "compare good (s_passwordHash u)"
  shows "login c compare sign d t email good (attempts c compare sign d email tps f) =
    (if t < t1 + ac_lockout c
     then (Inl (Unauthorized INVALID_CREDENTIALS), attempts c compare sign d email tps f)
     else (Inr \<lparr>lr_accessToken = sign (staffPayload u), lr_user = staffPayload u\<rparr>,
           (attempts c compare sign d email tps f)(loginEmail email := None)))"
  using lockout_after [where f = f and email = email and c = c and sign = sign, OF assms(1-6)] assms(7-9)
  by (simp add: login_def Let_def lockedAt_def)

definition sample_staff :: "user_role \<Rightarrow> staff_row" where
  "sample_staff r = \<lparr>s_id = 1, s_email = ''a@b.tz'', s_passwordHash = ''right'', s_name = ''A'', s_role = r,
     s_isActive = True, s_createdAt = 0\<rparr>"

definition three_strikes :: auth_config where
  "three_strikes = default_auth_config\<lparr>ac_maxFailures := 3\<rparr>"

theorem login_lockout_witness:
  "fst (login three_strikes (=) jp_name (empty_db\<lparr>staff := [sample_staff RoleADMIN]\<rparr>) 899999 ''A@b.tz'' ''right''
     (attempts three_strikes (=) jp_name (empty_db\<lparr>staff := [sample_staff RoleADMIN]\<rparr>) ''A@b.tz''
        [(0, ''x''), (1, ''y''), (2, ''z'')] Map.empty)) = Inl (Unauthorized INVALID_CREDENTIALS)"
proof -
  have email: "loginEmail ''A@b.tz'' = ''a@b.tz''" by code_simp
  let ?d = "empty_db\<lparr>staff := [sample_staff RoleADMIN]\<rparr>"
  have found: "findStaff (loginEmail ''A@b.tz'') ?d = Some (sample_staff RoleADMIN)"
    by (simp add: findStaff_def email sample_staff_def)
  have rej: "rejected (=) ?d ''A@b.tz'' pw" if "pw \<noteq> ''right''" for pw
    using that unfolding rejected_def found by (simp add: sample_staff_def)
  have strikes: "2 \<le> ac_maxFailures three_strikes"
      "length [(0 :: int, ''x''), (1, ''y''), (2, ''z'')] = ac_maxFailures three_strikes"
      "s_isActive (sample_staff RoleADMIN)" "''right'' = s_passwordHash (sample_staff RoleADMIN)"
    by (simp_all add: three_strikes_def default_auth_config_def sample_staff_def)
  have bad: "\<forall>(t, pw) \<in> set [(0 :: int, ''x''), (1, ''y''), (2, ''z'')]. t \<le> 0 + ac_window three_strikes \<and>
      rejected (=) (empty_db\<lparr>staff := [sample_staff RoleADMIN]\<rparr>) ''A@b.tz'' pw"
    by (simp add: rej three_strikes_def default_auth_config_def)
  show ?thesis
    using login_lockout [where c = three_strikes and compare = "(=)" and sign = jp_name and t = 899999
        and f = Map.empty, OF _ strikes(1,2) _ _ bad found strikes(3,4)]
    by (simp add: three_strikes_def default_auth_config_def)
qed

text \<open>The window starts at the first failure and does not slide: here seventeen failures within two
  milliseconds of the end of a window lock nothing.\<close>

lemma fixed_window_17_failures:
  "\<not> lockedAt 900002 ''a@b.tz'' (attempts default_auth_config (=) jp_name empty_db ''a@b.tz''
     ((0, ''x'') # replicate 8 (900000, ''x'') @ replicate 9 (900001, ''x'')) Map.empty)"
  by code_simp

definition sample_token :: "string \<Rightarrow> jwt_payload option" where
  "sample_token t = (if t = ''ok'' then Some (staffPayload (sample_staff RoleSERVICEMAN)) else None)"

theorem serviceman_read_only_witness:
  "authorize (\<lambda>s. s) sample_token (adminOnly POST ''admin/plans'')
     \<lparr>h_apiKey = None, h_authorization = Some ''Bearer ok''\<rparr> empty_db = Inl (Forbidden FORBIDDEN)"
proof -
  have listed: "adminOnly POST ''admin/plans'' \<in> set allRoutes" by (simp add: allRoutes_def billingRoutes_def)
  have gate: "rt_gate (adminOnly POST ''admin/plans'') = StaffRoute [RoleADMIN]" by (simp add: adminOnly_def)
  have tok: "jwtAuthGuard sample_token \<lparr>h_apiKey = None, h_authorization = Some ''Bearer ok''\<rparr> =
      Inr (staffPayload (sample_staff RoleSERVICEMAN))" by code_simp
  show ?thesis
    using serviceman_read_only [OF listed gate tok] by (simp add: staffPayload_def sample_staff_def adminOnly_def)
qed

definition new_key_headers :: headers where
  "new_key_headers = \<lparr>h_apiKey = Some (''zs_live_'' @ hexBytes (\<lambda>i. i) 32), h_authorization = None\<rparr>"

definition opened_db :: db where
  "opened_db = snd (createAccount (\<lambda>s. s) sample_draws default_env sample_account_dto SystemActor empty_db)"

lemma opened_db_run:
  "\<exists>a key. createAccount (\<lambda>s. s) sample_draws default_env sample_account_dto SystemActor empty_db
     = (Inr (a, key), opened_db) \<and> h_apiKey new_key_headers = Some (ik_apiKey key)"
proof -
  obtain a key where run: "createAccount (\<lambda>s. s) sample_draws default_env sample_account_dto SystemActor empty_db
      = (Inr (a, key), opened_db)"
    using sample_account_runs unfolding opened_db_def by (auto split: prod.splits sum.splits)
  from createAccount_result [OF empty_account_wf empty_ledger_ok run]
  have "ik_apiKey key = ''zs_live_'' @ hexBytes (\<lambda>i. i) 32"
    by (simp add: default_env_def default_config_def sample_draws_def orElse_def)
  then show ?thesis using run by (auto simp: new_key_headers_def)
qed

theorem fresh_account_denied_witness:
  "authorize (\<lambda>s. s) sample_token (needs SvcSMS None POST ''sms/send'') new_key_headers opened_db
     = Inl (Forbidden SERVICE_NOT_GRANTED)"
proof -
  obtain a key where run: "createAccount (\<lambda>s. s) sample_draws default_env sample_account_dto SystemActor empty_db
      = (Inr (a, key), opened_db)" and hd: "h_apiKey new_key_headers = Some (ik_apiKey key)"
    using opened_db_run by blast
  have pre: "cfg_apiKeyPrefix (cfg default_env) = ''zs''" by (simp add: default_env_def default_config_def)
  have gate: "rt_gate (needs SvcSMS None POST ''sms/send'') = AccountRoute (Some \<lparr>rq_service = SvcSMS, rq_channel = None\<rparr>)"
    by (simp add: needs_def)
  show ?thesis using fresh_account_denied [OF empty_account_wf empty_ledger_ok pre run hd gate] by auto
qed

theorem suspension_blocks_witness:
  "\<exists>a d1 d2. suspendAccount default_env (RowId 0) ''fraud'' SystemActor opened_db = (Inr a, d1) \<and>
     authorize (\<lambda>s. s) sample_token (keyed GET ''me'') new_key_headers d1 = Inl (Unauthorized ACCOUNT_SUSPENDED) \<and>
     snd (activateAccount default_env (RowId 0) SystemActor d1) = d2 \<and>
     isl (apiKeyGuard (\<lambda>s. s) new_key_headers d2) = False"
proof -
  obtain a key where run: "createAccount (\<lambda>s. s) sample_draws default_env sample_account_dto SystemActor empty_db
      = (Inr (a, key), opened_db)" using opened_db_run by blast
  have wf: "account_wf opened_db" using createAccount_result [OF empty_account_wf empty_ledger_ok run] by simp
  have ok: "case apiKeyGuard (\<lambda>s. s) new_key_headers opened_db of Inr ra \<Rightarrow> a_id (ra_account ra) = 0 | _ \<Rightarrow> False"
    by code_simp
  then obtain ra where ra: "apiKeyGuard (\<lambda>s. s) new_key_headers opened_db = Inr ra" "a_id (ra_account ra) = 0"
    by (auto split: sum.splits)
  have runs: "case suspendAccount default_env (RowId 0) ''fraud'' SystemActor opened_db of
      (Inr s, d1) \<Rightarrow> a_id s = 0 \<and> (case activateAccount default_env (RowId 0) SystemActor d1 of
          (Inr b, d2) \<Rightarrow> a_id b = 0 | _ \<Rightarrow> False) | _ \<Rightarrow> False"
    by code_simp
  then obtain s d1 b d2 where s: "suspendAccount default_env (RowId 0) ''fraud'' SystemActor opened_db = (Inr s, d1)"
      "a_id s = 0" and b: "activateAccount default_env (RowId 0) SystemActor d1 = (Inr b, d2)" "a_id b = 0"
    by (auto split: prod.splits sum.splits)
  have "a_id s = a_id (ra_account ra)" and "a_id b = a_id s" using ra s b by simp_all
  from suspension_blocks [OF wf ra(1) s(1) this(1) b(1) this(2), of "keyed GET ''me''" None sample_token]
  show ?thesis using s b by (auto simp: keyed_def)
qed

end
