(* ===== verification/Sms.thy ===== *)
theory Sms
  imports Accounts
begin

text \<open>
  sms/sms.service.ts: accepting a message, the pay-as-you-go bill, the queue handler that claims the
  message and hands it to the SMS rail, and the cron that pulls delivery reports. The rail is a
  parameter.
\<close>

section \<open>Accepting a message\<close>

record send_sms_dto =
  ss_senderName :: "string option"
  ss_message :: string
  ss_recipients :: "string list"
  ss_scheduleAt :: "int option"

text \<open>\<open>Array.from(new Set(xs))\<close>: the first occurrence of each.\<close>

definition firstOccurrences :: "'a list \<Rightarrow> 'a list" where
  "firstOccurrences xs = rev (remdups (rev xs))"

definition smsRecipients :: "string list \<Rightarrow> string list" where
  "smsRecipients raw = firstOccurrences (List.map_filter normalizePhoneNumber raw)"

definition hasSender :: "ident option \<Rightarrow> sender_type \<Rightarrow> string \<Rightarrow> db \<Rightarrow> bool" where
  "hasSender acct ty name d \<longleftrightarrow> (\<exists>s \<in> set (senders d).
     sn_account s = acct \<and> sn_name s = name \<and> sn_type s = ty \<and> sn_isApproved s)"

definition resolveSender :: "env \<Rightarrow> ident \<Rightarrow> string option \<Rightarrow> (db, string) action" where
  "resolveSender e acct requested =
     (if truthy requested then
        (let name = toUpperCase (orEmpty requested) in
         andThen (query (hasSender (Some acct) SenderDEDICATED name)) (\<lambda>dedicated.
         if dedicated then ret name
         else andThen (query (hasSender None SenderSHARED name)) (\<lambda>shared.
         if shared then ret name else raise (Forbidden INVALID_SENDER))))
      else query (\<lambda>d. case List.find (\<lambda>s. sn_account s = Some acct \<and> sn_type s = SenderDEDICATED \<and> sn_isApproved s)
                (senders d) of
           Some s \<Rightarrow> sn_name s | None \<Rightarrow> cfg_smsDefaultSender (cfg e)))"

definition pendingRecipients :: "string list \<Rightarrow> sms_recipient list" where
  "pendingRecipients dests = map (\<lambda>(i, dest). \<lparr>rc_recipientId = i + 1, rc_destAddr = dest,
     rc_status = ''PENDING'', rc_error = None, rc_reportedAt = None\<rparr>) (enumerate 0 dests)"

definition newSms :: "env \<Rightarrow> ident \<Rightarrow> send_sms_dto \<Rightarrow> string list \<Rightarrow> string \<Rightarrow> string \<Rightarrow> ident \<Rightarrow> sms_row" where
  "newSms e acct dto dests sender reference i =
     \<lparr>m_id = i, m_account = acct, m_reference = reference, m_senderName = sender,
      m_message = ss_message dto, m_encoding = 0, m_recipients = pendingRecipients dests,
      m_recipientCount = length dests, m_status = SmsQUEUED, m_providerRequestId = None, m_cost = None,
      m_failureReason = None, m_scheduledAt = ss_scheduleAt dto, m_sentAt = None, m_deliveredAt = None,
      m_createdAt = now e, m_updatedAt = now e\<rparr>"

definition insertSms :: "(ident \<Rightarrow> sms_row) \<Rightarrow> (db, sms_row) action" where
  "insertSms mk = (\<lambda>d. let m = mk (next_id d) in
     if m_reference m \<in> m_reference ` set (smses d) then (Inl UniqueViolation, d)
     else (Inr m, d\<lparr>smses := smses d @ [m], next_id := Suc (next_id d)\<rparr>))"

definition paysAsYouGo :: "ident \<Rightarrow> db \<Rightarrow> bool" where
  "paysAsYouGo acct d =
     (case List.find (\<lambda>p. pm_account p = acct \<and> pm_service p = SvcSMS) (permissions d) of
        None \<Rightarrow> False
      | Some p \<Rightarrow> pm_granted p \<and> (case pm_meta p of None \<Rightarrow> False | Some m \<Rightarrow> m_payAsYouGo m))"

definition usageBill :: "env \<Rightarrow> ident \<Rightarrow> nat \<Rightarrow> string \<Rightarrow> ident \<Rightarrow> bill_row" where
  "usageBill e acct n reference i =
     \<lparr>bl_id = i, bl_account = acct, bl_type = BillPAY_AS_YOU_GO, bl_title = ''SMS usage ('' @ reference @ '')'',
      bl_amount = round2 (cfg_smsRate (cfg e) * of_nat n), bl_currency = ''TZS'', bl_isRecurring = False,
      bl_periodDays = None, bl_dueDate = None, bl_status = BillPENDING, bl_issuedBy = None, bl_paidAt = None,
      bl_createdAt = now e\<rparr>"

definition maybeIssuePaygBill :: "env \<Rightarrow> ident \<Rightarrow> nat \<Rightarrow> string \<Rightarrow> (db, unit) action" where
  "maybeIssuePaygBill e acct n reference =
     andThen (query (paysAsYouGo acct)) (\<lambda>payg.
     if \<not> payg then ret ()
     else modify (\<lambda>d. d\<lparr>bills := bills d @ [usageBill e acct n reference (next_id d)],
                        next_id := Suc (next_id d)\<rparr>))"

definition sendSms :: "env \<Rightarrow> ident \<Rightarrow> send_sms_dto \<Rightarrow> (db, sms_row) action" where
  "sendSms e acct dto =
     andThen (sourceCode acct) (\<lambda>code.
     let dests = smsRecipients (ss_recipients dto) in
     thenDo (require (dests \<noteq> []) (BadRequest VALIDATION_FAILED))
     (andThen (resolveSender e acct (ss_senderName dto)) (\<lambda>sender.
      andThen (liftE (buildReference (draw e 0) code None)) (\<lambda>reference.
      andThen (insertSms (newSms e acct dto dests sender reference)) (\<lambda>m.
      thenDo (maybeIssuePaygBill e acct (length dests) reference)
      (thenDo (enqueue e ''sms.send'' (SmsSend (m_id m)) 0)
      (thenDo (track e ''sms.sent'' (Some (RowId acct)) None)
      (ret m))))))))"

section \<open>The queue handler\<close>

definition updateSms :: "(sms_row \<Rightarrow> bool) \<Rightarrow> (sms_row \<Rightarrow> sms_row) \<Rightarrow> db \<Rightarrow> db" where
  "updateSms p f d = d\<lparr>smses := updateWhere p f (smses d)\<rparr>"

definition stale_ms :: int where "stale_ms = 600000"

text \<open>Claims older than ten minutes go back to the queue.\<close>

definition recoverStale :: "env \<Rightarrow> db \<Rightarrow> db" where
  "recoverStale e = updateSms (\<lambda>m. m_status m = SmsPROCESSING \<and> m_updatedAt m < now e - stale_ms)
     (\<lambda>m. m\<lparr>m_status := SmsQUEUED, m_updatedAt := now e\<rparr>)"

definition findSms :: "ident \<Rightarrow> db \<Rightarrow> sms_row option" where
  "findSms i d = List.find (\<lambda>m. m_id m = i) (smses d)"

definition claimable :: "sms_row \<Rightarrow> bool" where
  "claimable m \<longleftrightarrow> m_status m = SmsQUEUED \<or> m_status m = SmsFAILED"

text \<open>\<open>updateMany\<close> with a status condition: one statement, so at most one claimer wins.\<close>

definition claimSms :: "env \<Rightarrow> ident \<Rightarrow> (db, nat) action" where
  "claimSms e i = (\<lambda>d.
     let won = (\<lambda>m. m_id m = i \<and> claimable m) in
     (Inr (countWhere won (smses d)),
      updateSms won (\<lambda>m. m\<lparr>m_status := SmsPROCESSING, m_updatedAt := now e\<rparr>) d))"

definition smsRequest :: "sms_row \<Rightarrow> sms_send_request" where
  "smsRequest m = \<lparr>sq_source_addr = m_senderName m, sq_message = m_message m, sq_encoding = m_encoding m,
     sq_recipients = map (\<lambda>r. (rc_recipientId r, rc_destAddr r)) (m_recipients m),
     sq_schedule_time = m_scheduledAt m\<rparr>"

definition submittedRecipients :: "sms_send_response provider_result \<Rightarrow> sms_recipient list \<Rightarrow> sms_recipient list" where
  "submittedRecipients r = map (\<lambda>x. x\<lparr>
     rc_status := (if rs_ok r then ''SUBMITTED'' else ''FAILED''),
     rc_error := (if rs_ok r then None else rs_error r)\<rparr>)"

definition segments :: "sms_row \<Rightarrow> nat" where
  "segments m = (let per = (if m_encoding m = 1 then 70 else 160)
     in max 1 ((length (m_message m) + per - 1) div per))"

definition smsCost :: "env \<Rightarrow> sms_row \<Rightarrow> rat" where
  "smsCost e m = cfg_smsRate (cfg e) * of_nat (segments m) * of_nat (m_recipientCount m)"

definition sentSms :: "env \<Rightarrow> sms_row \<Rightarrow> sms_send_response provider_result \<Rightarrow> string \<Rightarrow> sms_row \<Rightarrow> sms_row" where
  "sentSms e m r requestId x = x\<lparr>m_status := SmsSENT, m_providerRequestId := Some requestId,
     m_sentAt := Some (now e), m_cost := Some (round2 (smsCost e m)),
     m_recipients := submittedRecipients r (m_recipients m), m_updatedAt := now e\<rparr>"

definition failedSms :: "env \<Rightarrow> sms_row \<Rightarrow> sms_send_response provider_result \<Rightarrow> sms_row \<Rightarrow> sms_row" where
  "failedSms e m r x = x\<lparr>m_status := SmsFAILED, m_failureReason := rs_error r,
     m_recipients := submittedRecipients r (m_recipients m), m_updatedAt := now e\<rparr>"

definition sentEvent :: "sms_row \<Rightarrow> string \<Rightarrow> payload" where
  "sentEvent m requestId = [(''status'', PSms SmsSENT), (''reference'', PStr (m_reference m)),
     (''senderName'', PStr (m_senderName m)), (''recipientCount'', PNat (m_recipientCount m)),
     (''providerRequestId'', PStr requestId)]"

text \<open>What follows the answer of the rail.\<close>

definition recordSend :: "env \<Rightarrow> sms_row \<Rightarrow> sms_send_response provider_result \<Rightarrow> (db, unit) action" where
  "recordSend e m r =
     (case (rs_ok r, rs_data r) of
        (True, Some resp) \<Rightarrow>
          (let requestId = orEmpty (sr_request_id resp) in
           thenDo (modify (updateSms (\<lambda>x. m_id x = m_id m) (sentSms e m r requestId)))
           (andThen (dispatch e SMS_STATUS (m_account m) (m_reference m) (sentEvent m requestId)) (\<lambda>_. ret ())))
      | _ \<Rightarrow>
          thenDo (modify (updateSms (\<lambda>x. m_id x = m_id m) (failedSms e m r)))
          (thenDo (track e ''sms.failed'' (Some (RowId (m_account m))) None)
          (raise (JsError (case rs_error r of Some msg \<Rightarrow> msg
                           | None \<Rightarrow> ''SMS provider rejected the message'')))))"

definition processSendJob :: "env \<Rightarrow> sms_provider \<Rightarrow> ident \<Rightarrow> (db, unit) action" where
  "processSendJob e rail i =
     thenDo (modify (recoverStale e))
     (andThen (query (findSms i)) (\<lambda>found.
      case found of
        None \<Rightarrow> ret ()
      | Some m \<Rightarrow>
          if m_status m = SmsSENT \<or> m_status m = SmsDELIVERED then ret ()
          else andThen (claimSms e (m_id m)) (\<lambda>count.
            if count = 0 then ret () else recordSend e m (sp_send rail (smsRequest m)))))"

section \<open>Delivery reports\<close>

definition dueReports :: "env \<Rightarrow> db \<Rightarrow> sms_row list" where
  "dueReports e d = take 25 (orderAsc (\<lambda>m. case m_sentAt m of None \<Rightarrow> 0 | Some t \<Rightarrow> t)
     (filter (\<lambda>m. m_status m = SmsSENT \<and> (case m_sentAt m of None \<Rightarrow> False | Some t \<Rightarrow> t \<le> now e - 300000) \<and>
        m_providerRequestId m \<noteq> None) (smses d)))"

text \<open>The update of the first recipient with this address.\<close>

fun reportFirst :: "env \<Rightarrow> string \<Rightarrow> string \<Rightarrow> sms_recipient list \<Rightarrow> sms_recipient list" where
  "reportFirst e dest status [] = []"
| "reportFirst e dest status (r # rs) =
     (if rc_destAddr r = dest then r\<lparr>rc_status := status, rc_reportedAt := Some (now e)\<rparr> # rs
      else r # reportFirst e dest status rs)"

definition reportStatus :: "sms_provider \<Rightarrow> sms_row \<Rightarrow> sms_recipient \<Rightarrow> string option" where
  "reportStatus rail m r =
     (let report = sp_deliveryReport rail (orEmpty (m_providerRequestId m)) (rc_destAddr r) in
      case (rs_ok report, rs_data report) of
        (True, Some dr) \<Rightarrow> Some (toUpperCase (case dr_status dr of None \<Rightarrow> ''UNKNOWN'' | Some s \<Rightarrow> s))
      | _ \<Rightarrow> None)"

text \<open>The inner loop: the recipients so far and whether one failed.\<close>

fun pullReports ::
    "env \<Rightarrow> sms_provider \<Rightarrow> sms_row \<Rightarrow> sms_recipient list \<Rightarrow> sms_recipient list \<times> bool
     \<Rightarrow> (db, sms_recipient list \<times> bool) action" where
  "pullReports e rail m [] acc = ret acc"
| "pullReports e rail m (r # rs) (updated, anyFailed) =
     (case reportStatus rail m r of
        None \<Rightarrow> pullReports e rail m rs (updated, anyFailed)
      | Some status \<Rightarrow>
          thenDo (if status = ''DELIVERED'' then track e ''sms.delivered'' (Some (RowId (m_account m))) None
                  else ret ())
          (pullReports e rail m rs
             (reportFirst e (rc_destAddr r) status updated, anyFailed \<or> status = ''FAILED'')))"

definition syncedStatus :: "sms_row \<Rightarrow> sms_recipient list \<Rightarrow> bool \<Rightarrow> sms_status" where
  "syncedStatus m updated anyFailed =
     (if list_all (\<lambda>r. toUpperCase (rc_status r) = ''DELIVERED'') updated then SmsDELIVERED
      else if anyFailed then SmsFAILED else m_status m)"

definition syncSms :: "env \<Rightarrow> sms_provider \<Rightarrow> sms_row \<Rightarrow> (db, unit) action" where
  "syncSms e rail m =
     andThen (pullReports e rail m (take 20 (filter (\<lambda>r. rc_status r \<noteq> ''DELIVERED'') (m_recipients m)))
               (m_recipients m, False)) (\<lambda>(updated, anyFailed).
     let nextStatus = syncedStatus m updated anyFailed in
     thenDo (modify (updateSms (\<lambda>x. m_id x = m_id m) (\<lambda>x. x\<lparr>m_recipients := updated, m_status := nextStatus,
        m_deliveredAt := (if nextStatus = SmsDELIVERED then Some (now e) else m_deliveredAt m),
        m_updatedAt := now e\<rparr>)))
     (if nextStatus \<noteq> m_status m
      then andThen (dispatch e SMS_STATUS (m_account m) (m_reference m)
             [(''status'', PSms nextStatus), (''reference'', PStr (m_reference m)),
              (''senderName'', PStr (m_senderName m))]) (\<lambda>_. ret ())
      else ret ()))"

definition syncDeliveryReports :: "env \<Rightarrow> sms_provider \<Rightarrow> (db, unit) action" where
  "syncDeliveryReports e rail =
     andThen (query (dueReports e)) (\<lambda>sent. forEach (syncSms e rail) sent)"

section \<open>Queries\<close>

definition getSms :: "ident \<Rightarrow> string \<Rightarrow> (db, sms_row) action" where
  "getSms acct ref = fetch (NotFound NOT_FOUND)
     (\<lambda>d. List.find (\<lambda>m. m_reference m = ref \<and> m_account m = acct) (smses d))"

fun smsStatusOf :: "string \<Rightarrow> sms_status option" where
  "smsStatusOf s =
     (if s = ''QUEUED'' then Some SmsQUEUED else if s = ''PROCESSING'' then Some SmsPROCESSING
      else if s = ''SENT'' then Some SmsSENT else if s = ''DELIVERED'' then Some SmsDELIVERED
      else if s = ''FAILED'' then Some SmsFAILED else None)"

definition listSms :: "ident \<Rightarrow> nat \<Rightarrow> nat \<Rightarrow> string option \<Rightarrow> (db, sms_row list \<times> nat) action" where
  "listSms acct skip n status =
     andThen (if \<not> truthy status then ret None
              else case smsStatusOf (toUpperCase (orEmpty status)) of
                None \<Rightarrow> raise (JsError ''PrismaClientValidationError'') | Some s \<Rightarrow> ret (Some s)) (\<lambda>st.
     query (\<lambda>d. let rows = filter (\<lambda>m. m_account m = acct \<and> (case st of None \<Rightarrow> True | Some s \<Rightarrow> m_status m = s))
                    (smses d)
       in (window skip n (orderDesc m_createdAt rows), length rows)))"

definition senderNames :: "ident \<Rightarrow> db \<Rightarrow> sender_row list \<times> sender_row list" where
  "senderNames acct d =
     (filter (\<lambda>s. sn_account s = Some acct \<and> sn_type s = SenderDEDICATED) (senders d),
      filter (\<lambda>s. sn_account s = None \<and> sn_type s = SenderSHARED) (senders d))"

section \<open>Facts about the queue handler\<close>

lemma findSms_updateSms:
  "(\<And>r. m_id (f r) = m_id r) \<Longrightarrow>
     findSms i (updateSms p f d) = map_option (\<lambda>r. if p r then f r else r) (findSms i d)"
  by (simp add: findSms_def updateSms_def find_updateWhere)

lemma ids_updateSms:
  "(\<And>r. m_id (f r) = m_id r) \<Longrightarrow> map m_id (smses (updateSms p f d)) = map m_id (smses d)"
  by (simp add: updateSms_def map_updateWhere)

lemma ids_recoverStale: "map m_id (smses (recoverStale e d)) = map m_id (smses d)"
  unfolding recoverStale_def by (rule ids_updateSms) simp

lemma findSms_recoverStale:
  "findSms i (recoverStale e d) = map_option (\<lambda>m.
     if m_status m = SmsPROCESSING \<and> m_updatedAt m < now e - stale_ms
     then m\<lparr>m_status := SmsQUEUED, m_updatedAt := now e\<rparr> else m) (findSms i d)"
  unfolding recoverStale_def by (rule findSms_updateSms) simp

lemma sms_same_id:
  "distinct (map m_id (smses d)) \<Longrightarrow> findSms i d = Some m \<Longrightarrow> x \<in> set (smses d) \<Longrightarrow> m_id x = i \<Longrightarrow> x = m"
  by (auto simp: findSms_def distinct_map inj_on_def dest!: find_SomeD)

lemma findSms_mem: "distinct (map m_id (smses d)) \<Longrightarrow> m \<in> set (smses d) \<Longrightarrow> findSms (m_id m) d = Some m"
  unfolding findSms_def by (rule find_unique) (auto simp: distinct_map inj_on_def)

lemma once_filtered: "distinct xs \<Longrightarrow> x \<in> set xs \<Longrightarrow> length (filter (\<lambda>y. y = x) xs) = 1"
  by (induction xs) (auto simp: filter_empty_conv)

text \<open>Who cannot claim the message leaves the database alone; who can, wins exactly one row.\<close>

lemma claimSms_lost:
  assumes "distinct (map m_id (smses d))" and "findSms i d = Some m" and "\<not> claimable m"
  shows "claimSms e i d = (Inr 0, d)"
proof -
  have none: "\<not> (m_id x = i \<and> claimable x)" if "x \<in> set (smses d)" for x
    using sms_same_id [OF assms(1,2) that] assms(3) by blast
  then have "updateWhere (\<lambda>x. m_id x = i \<and> claimable x) f (smses d) = smses d" for f
    by (rule updateWhere_none)
  moreover have "countWhere (\<lambda>x. m_id x = i \<and> claimable x) (smses d) = 0"
    using none by (auto simp: countWhere_def filter_empty_conv)
  ultimately show ?thesis by (simp add: claimSms_def updateSms_def)
qed

lemma claimSms_won:
  assumes "distinct (map m_id (smses d))" and "findSms i d = Some m" and "claimable m"
  shows "fst (claimSms e i d) = Inr 1"
    and "findSms i (snd (claimSms e i d)) = Some (m\<lparr>m_status := SmsPROCESSING, m_updatedAt := now e\<rparr>)"
    and "distinct (map m_id (smses (snd (claimSms e i d))))"
proof -
  have m: "m \<in> set (smses d)" "m_id m = i" using assms(2) by (auto simp: findSms_def dest: find_SomeD)
  have one: "m_id x = i \<and> claimable x \<longleftrightarrow> x = m" if "x \<in> set (smses d)" for x
    using sms_same_id [OF assms(1,2) that] assms(3) m by blast
  have "filter (\<lambda>x. m_id x = i \<and> claimable x) (smses d) = filter (\<lambda>x. x = m) (smses d)"
    by (rule filter_cong [OF refl]) (rule one)
  moreover have "length (filter (\<lambda>x. x = m) (smses d)) = 1"
    using m(1) assms(1) by (intro once_filtered) (simp_all add: distinct_map)
  ultimately show "fst (claimSms e i d) = Inr 1" by (simp add: claimSms_def Let_def countWhere_def)
  show "findSms i (snd (claimSms e i d)) = Some (m\<lparr>m_status := SmsPROCESSING, m_updatedAt := now e\<rparr>)"
    using assms(2,3) m by (simp add: claimSms_def Let_def findSms_updateSms)
  show "distinct (map m_id (smses (snd (claimSms e i d))))"
    using assms(1) by (simp add: claimSms_def Let_def ids_updateSms)
qed

lemma processSendJob_idle:
  assumes "distinct (map m_id (smses d))" and "findSms i (recoverStale e d) = Some m" and "\<not> claimable m"
  shows "processSendJob e rail i d = (Inr (), recoverStale e d)"
proof -
  have "claimSms e i (recoverStale e d) = (Inr 0, recoverStale e d)"
    using assms by (intro claimSms_lost) (simp_all add: ids_recoverStale)
  moreover have "m_id m = i" using assms(2) by (auto simp: findSms_def dest: find_SomeD)
  ultimately show ?thesis
    using assms(2) by (simp add: processSendJob_def run andThen_Inr ret_run)
qed

lemma processSendJob_sends:
  assumes "distinct (map m_id (smses d))" and "findSms i (recoverStale e d) = Some m" and "claimable m"
  shows "processSendJob e rail i d
       = recordSend e m (sp_send rail (smsRequest m)) (snd (claimSms e i (recoverStale e d)))"
proof -
  have "m_id m = i" using assms(2) by (auto simp: findSms_def dest: find_SomeD)
  moreover have "claimSms e i (recoverStale e d) = (Inr 1, snd (claimSms e i (recoverStale e d)))"
    using claimSms_won(1) [of "recoverStale e d" i m e] assms
    by (metis ids_recoverStale prod.collapse)
  moreover have "m_status m \<noteq> SmsSENT" and "m_status m \<noteq> SmsDELIVERED"
    using assms(3) by (auto simp: claimable_def)
  ultimately show ?thesis
    using assms(2) by (simp add: processSendJob_def run andThen_Inr)
qed

section \<open>Facts about accepted messages\<close>

lemma eventsOnly_sms: "eventsOnly d d' \<Longrightarrow> smses d' = smses d \<and> bills d' = bills d"
  by (auto simp: eventsOnly_def)

lemma findSms_cong: "smses d' = smses d \<Longrightarrow> findSms i d' = findSms i d"
  by (simp add: findSms_def)

definition accepted :: "sms_send_response provider_result \<Rightarrow> bool" where
  "accepted r \<longleftrightarrow> rs_ok r \<and> rs_data r \<noteq> None"

lemma recordSend_accepted:
  assumes "accepted r" and "findSms (m_id m) d = Some x"
  shows "\<exists>d' q. recordSend e m r d = (Inr (), d') \<and> findSms (m_id m) d' = Some (sentSms e m r q x) \<and>
    map m_id (smses d') = map m_id (smses d)"
proof -
  obtain resp where r: "rs_ok r" "rs_data r = Some resp" using assms(1) by (auto simp: accepted_def)
  let ?q = "orEmpty (sr_request_id resp)"
  let ?d = "updateSms (\<lambda>x. m_id x = m_id m) (sentSms e m r ?q) d"
  obtain n d' where s: "dispatch e SMS_STATUS (m_account m) (m_reference m) (sentEvent m ?q) ?d = (Inr n, d')"
    and ev: "eventsOnly ?d d'"
    using dispatch_Inr by blast
  have "recordSend e m r d = (Inr (), d')"
    using r s by (simp add: recordSend_def Let_def andThen_Inr ret_run)
  moreover have "findSms (m_id m) d' = Some (sentSms e m r ?q x)"
    using assms(2) eventsOnly_sms [OF ev] findSms_cong [of d' ?d]
    by (simp add: findSms_updateSms sentSms_def) (auto simp: findSms_def dest: find_SomeD)
  moreover have "map m_id (smses d') = map m_id (smses d)"
    using eventsOnly_sms [OF ev] by (simp add: ids_updateSms sentSms_def)
  ultimately show ?thesis by blast
qed

lemma recordSend_refused:
  assumes "\<not> accepted r" and "findSms (m_id m) d = Some x"
  shows "\<exists>d' msg. recordSend e m r d = (Inl (JsError msg), d') \<and>
    findSms (m_id m) d' = Some (failedSms e m r x) \<and> map m_id (smses d') = map m_id (smses d)"
proof -
  let ?d = "updateSms (\<lambda>x. m_id x = m_id m) (failedSms e m r) d"
  obtain d' where t: "track e ''sms.failed'' (Some (RowId (m_account m))) None ?d = (Inr (), d')"
    and ev: "eventsOnly ?d d'"
    using track_Inr by blast
  have "\<exists>msg. recordSend e m r d = (Inl (JsError msg), d')"
    using assms(1) t
    by (cases "rs_ok r"; cases "rs_data r") (simp_all add: recordSend_def accepted_def andThen_Inr raise_run)
  moreover have "findSms (m_id m) d' = Some (failedSms e m r x)"
    using assms(2) eventsOnly_sms [OF ev] findSms_cong [of d' ?d]
    by (simp add: findSms_updateSms failedSms_def) (auto simp: findSms_def dest: find_SomeD)
  moreover have "map m_id (smses d') = map m_id (smses d)"
    using eventsOnly_sms [OF ev] by (simp add: ids_updateSms failedSms_def)
  ultimately show ?thesis by blast
qed

lemma recoverStale_keeps:
  "findSms i d = Some m \<Longrightarrow> m_status m \<noteq> SmsPROCESSING \<Longrightarrow> findSms i (recoverStale e d) = Some m"
  by (simp add: findSms_recoverStale)

lemma firstOccurrences_props: "distinct (firstOccurrences xs) \<and> set (firstOccurrences xs) = set xs"
  by (simp add: firstOccurrences_def)

lemma set_map_filter: "set (List.map_filter f xs) = {y. \<exists>x \<in> set xs. f x = Some y}"
  by (induction xs) (auto simp: List.map_filter_simps split: option.splits)

lemma smsRecipients_props:
  "distinct (smsRecipients raw) \<and>
   set (smsRecipients raw) = {p. \<exists>r \<in> set raw. normalizePhoneNumber r = Some p}"
  using firstOccurrences_props [of "List.map_filter normalizePhoneNumber raw"]
  by (simp add: smsRecipients_def set_map_filter)

lemma pendingRecipients_props [simp]:
  "map rc_destAddr (pendingRecipients dests) = dests"
  "map rc_recipientId (pendingRecipients dests) = [1..<Suc (length dests)]"
  "length (pendingRecipients dests) = length dests"
  by (auto simp: pendingRecipients_def enumerate_eq_zip intro!: nth_equalityI simp del: upt_Suc)

lemma resolveSender_frame: "resolveSender e acct req d = (fst (resolveSender e acct req d), d)"
  by (simp add: resolveSender_def Let_def ret_run raise_run)

lemma resolveSender_Inr:
  "fst (resolveSender e acct req d) = Inr s \<Longrightarrow> truthy req \<Longrightarrow>
     s = toUpperCase (orEmpty req) \<and>
     (hasSender (Some acct) SenderDEDICATED s d \<or> hasSender None SenderSHARED s d)"
  by (auto simp: resolveSender_def Let_def ret_run raise_run split: if_splits)

lemma andThen_resolveSender:
  "andThen (resolveSender e acct req) k d =
     (case fst (resolveSender e acct req d) of Inl x \<Rightarrow> (Inl x, d) | Inr s \<Rightarrow> k s d)"
  by (subst andThen_def, subst resolveSender_frame) simp

lemma maybeIssuePaygBill_run:
  "andThen (maybeIssuePaygBill e acct n reference) k d =
     k () (if paysAsYouGo acct d
           then d\<lparr>bills := bills d @ [usageBill e acct n reference (next_id d)], next_id := Suc (next_id d)\<rparr>
           else d)"
  by (simp add: maybeIssuePaygBill_def andThen_assoc andThen_def [of "if _ then _ else _"] ret_run)

text \<open>The state an accepted message leaves behind.\<close>

lemma andThen_track_snd: "andThen (track e n a v) k d = k () (snd (track e n a v d))"
  by (simp add: track_def)

lemma sendSms_Inr:
  assumes "sendSms e acct dto d = (Inr m, d')"
  shows "smsRecipients (ss_recipients dto) \<noteq> [] \<and> (\<exists>sender reference d1 d2.
    fst (resolveSender e acct (ss_senderName dto) d) = Inr sender \<and>
    m = newSms e acct dto (smsRecipients (ss_recipients dto)) sender reference (next_id d) \<and>
    d1 = d\<lparr>smses := smses d @ [m], next_id := Suc (next_id d)\<rparr> \<and>
    d2 = (if paysAsYouGo acct d
          then d1\<lparr>bills := bills d1 @ [usageBill e acct (m_recipientCount m) reference (next_id d1)],
                  next_id := Suc (next_id d1)\<rparr> else d1) \<and>
    d' = snd (track e ''sms.sent'' (Some (RowId acct)) None
                (snd (enqueue e ''sms.send'' (SmsSend (m_id m)) 0 d2))))"
proof -
  have p: "paysAsYouGo acct (d\<lparr>smses := x, next_id := n\<rparr>) = paysAsYouGo acct d" for x n
    by (simp add: paysAsYouGo_def)
  have c: "m_recipientCount (newSms e acct dto ds s r i) = length ds" for ds s r i
    by (simp add: newSms_def)
  let ?ds = "smsRecipients (ss_recipients dto)"
  obtain code sender reference where ds: "?ds \<noteq> []"
    and sender: "fst (resolveSender e acct (ss_senderName dto) d) = Inr sender"
    and ins: "andThen (insertSms (newSms e acct dto ?ds sender reference)) (\<lambda>m.
      thenDo (maybeIssuePaygBill e acct (length ?ds) reference)
      (thenDo (enqueue e ''sms.send'' (SmsSend (m_id m)) 0)
      (thenDo (track e ''sms.sent'' (Some (RowId acct)) None) (ret m)))) d = (Inr m, d')"
    using assms unfolding sendSms_def Let_def sourceCode_def andThen_fetch andThen_require
      andThen_resolveSender andThen_liftE
    by (auto split: option.splits sum.splits if_splits)
  let ?m = "newSms e acct dto ?ds sender reference (next_id d)"
  let ?d1 = "d\<lparr>smses := smses d @ [?m], next_id := Suc (next_id d)\<rparr>"
  let ?d2 = "if paysAsYouGo acct d
          then ?d1\<lparr>bills := bills ?d1 @ [usageBill e acct (length ?ds) reference (next_id ?d1)],
                  next_id := Suc (next_id ?d1)\<rparr> else ?d1"
  have "m_reference ?m \<notin> m_reference ` set (smses d)"
  proof
    assume "m_reference ?m \<in> m_reference ` set (smses d)"
    then have "insertSms (newSms e acct dto ?ds sender reference) d = (Inl UniqueViolation, d)"
      by (simp add: insertSms_def Let_def)
    with ins show False by (simp add: andThen_Inl)
  qed
  then have i: "insertSms (newSms e acct dto ?ds sender reference) d = (Inr ?m, ?d1)"
    by (simp add: insertSms_def Let_def)
  have "?m = m" and "snd (track e ''sms.sent'' (Some (RowId acct)) None
                (snd (enqueue e ''sms.send'' (SmsSend (m_id ?m)) 0 ?d2))) = d'"
    using ins unfolding andThen_Inr [where m = "insertSms (newSms e acct dto ?ds sender reference)", OF i] maybeIssuePaygBill_run p andThen_enqueue
      andThen_track_snd ret_run prod.inject sum.inject
    by (rule conjunct1, rule conjunct2)
  with ds sender show ?thesis by (auto simp: c)
qed

section \<open>Properties\<close>


definition sample_sms :: sms_row where
  "sample_sms = \<lparr>m_id = 4, m_account = 0, m_reference = ''SHOP1AAAAAAAAAAAAAAA'', m_senderName = ''ZOOINFO'',
     m_message = replicate 161 CHR ''x'', m_encoding = 0,
     m_recipients = pendingRecipients [''255712345678'', ''255712345679''], m_recipientCount = 2,
     m_status = SmsQUEUED, m_providerRequestId = None, m_cost = None, m_failureReason = None,
     m_scheduledAt = None, m_sentAt = None, m_deliveredAt = None, m_createdAt = 0, m_updatedAt = 0\<rparr>"

definition sample_rail :: sms_provider where
  "sample_rail = mockSmsProvider \<lparr>ms_failNext = False, ms_sendCounter = 0\<rparr>"



definition sample_sms_db :: db where
  "sample_sms_db = sample_db\<lparr>
     accounts := map (\<lambda>a. a\<lparr>a_sourceCode := ''SHOP1''\<rparr>) (accounts sample_db),
     permissions := [\<lparr>pm_account = 0, pm_service = SvcSMS, pm_granted = True,
       pm_meta = Some \<lparr>m_channels = None, m_payAsYouGo = True, m_walletActions = False\<rparr>, pm_grantedBy = None\<rparr>]\<rparr>"

definition sample_send :: send_sms_dto where
  "sample_send = \<lparr>ss_senderName = None, ss_message = ''Hello'',
     ss_recipients = [''0712345678'', ''+255712345678'', ''nobody'', ''0612345678''], ss_scheduleAt = None\<rparr>"




end
