(* ===== verification/Api.thy ===== *)
theory Api
  imports Validation Access Sms Settlements
begin


text \<open>
  The HTTP layer: the exception filter and the response envelope (common/filters, common/interceptors)
  and, for every route that moves money or starts to, the whole way of a request: the guards of its
  controller, the validation of its body, the call of the service with the input the controller builds,
  in that order. What the libraries decide, the payment rails and the fresh random token are gathered in
  one record.
\<close>

section \<open>Errors\<close>

text \<open>The body of an exception as the filter reads it: a text, or an object with its \<open>code\<close>,
  \<open>message\<close> (one text, or the list class-validator leaves) and \<open>details\<close>.\<close>

datatype message = OneMessage string | Messages "string list"

datatype exception_body = TextBody string | ObjectBody "ecode option" "message option" "string list option"

datatype exception =
    HttpException nat exception_body string
  | ErrorObject string
  | OtherValue

record error_reply =
  er_status :: nat
  er_code :: ecode
  er_message :: string
  er_details :: "string list option"

definition defaultCodeForStatus :: "nat \<Rightarrow> ecode" where
  "defaultCodeForStatus status =
     (if status = 400 then VALIDATION_FAILED else if status = 401 then UNAUTHORIZED
      else if status = 403 then FORBIDDEN else if status = 404 then NOT_FOUND
      else if status = 409 then CONFLICT else if status = 429 then RATE_LIMITED else INTERNAL)"

definition unexpected :: error_reply where
  "unexpected = \<lparr>er_status = 500, er_code = INTERNAL, er_message = ''Unexpected server error'', er_details = None\<rparr>"

definition catchException :: "exception \<Rightarrow> error_reply" where
  "catchException ex =
     (case ex of
        HttpException status body msg \<Rightarrow>
          (case body of
             TextBody t \<Rightarrow> unexpected\<lparr>er_status := status, er_message := t\<rparr>
           | ObjectBody code m details \<Rightarrow>
               (case m of
                  Some (Messages ms) \<Rightarrow> \<lparr>er_status = status, er_code = VALIDATION_FAILED,
                     er_message = ''Request validation failed'', er_details = Some ms\<rparr>
                | Some (OneMessage t) \<Rightarrow> \<lparr>er_status = status,
                     er_code = (case code of Some c \<Rightarrow> c | None \<Rightarrow> defaultCodeForStatus status),
                     er_message = t, er_details = details\<rparr>
                | None \<Rightarrow> \<lparr>er_status = status,
                     er_code = (case code of Some c \<Rightarrow> c | None \<Rightarrow> defaultCodeForStatus status),
                     er_message = msg, er_details = details\<rparr>))
      | ErrorObject msg \<Rightarrow>
          if msg = ''INVALID_CLIENT_REFERENCE''
          then \<lparr>er_status = 400, er_code = INVALID_REFERENCE,
                er_message = ''Client reference must be 1-15 alphanumeric characters'', er_details = None\<rparr>
          else unexpected
      | OtherValue \<Rightarrow> unexpected)"

text \<open>The exception of a service error; the texts of the messages are left open.\<close>

definition exceptionOf :: "string \<Rightarrow> err \<Rightarrow> exception" where
  "exceptionOf msg err =
     (let http = (\<lambda>status c. HttpException status (ObjectBody (Some c) (Some (OneMessage msg)) None) msg) in
      case err of
        BadRequest c \<Rightarrow> http 400 c | Unauthorized c \<Rightarrow> http 401 c | Forbidden c \<Rightarrow> http 403 c
      | NotFound c \<Rightarrow> http 404 c | Conflict c \<Rightarrow> http 409 c | JsError m \<Rightarrow> ErrorObject m
      | UniqueViolation \<Rightarrow> ErrorObject ''P2002'' | ForeignKeyViolation \<Rightarrow> ErrorObject ''P2003''
      | RecordNotFound \<Rightarrow> ErrorObject ''P2025'' | DecimalError \<Rightarrow> ErrorObject ''DecimalError'')"

section \<open>The response envelope\<close>

definition hasKey :: "string \<Rightarrow> json \<Rightarrow> bool" where
  "hasKey k v \<longleftrightarrow> (case v of JObj kvs \<Rightarrow> k \<in> fst ` set kvs | _ \<Rightarrow> False)"

text \<open>\<open>{ ...v, traceId, timestamp }\<close>: a later key replaces an earlier one in its place.\<close>

fun setKey :: "string \<Rightarrow> json \<Rightarrow> (string \<times> json) list \<Rightarrow> (string \<times> json) list" where
  "setKey k v [] = [(k, v)]"
| "setKey k v ((l, w) # kvs) = (if l = k then (k, v) # kvs else (l, w) # setKey k v kvs)"

definition spread :: "json \<Rightarrow> (string \<times> json) list" where
  "spread v = (case v of JObj kvs \<Rightarrow> kvs | _ \<Rightarrow> [])"

definition stamped :: "json \<Rightarrow> json \<Rightarrow> (string \<times> json) list \<Rightarrow> json" where
  "stamped traceId timestamp kvs = JObj (setKey ''timestamp'' timestamp (setKey ''traceId'' traceId kvs))"

definition envelope :: "json \<Rightarrow> json \<Rightarrow> json" where
  "envelope payload meta = JObj [(''success'', JBool True), (''data'', payload), (''meta'', meta)]"

text \<open>\<open>meta\<close> of a service's answer is an object or missing.\<close>

definition transform :: "json \<Rightarrow> json \<Rightarrow> json \<Rightarrow> json" where
  "transform traceId timestamp answer =
     (if nullish answer then envelope JNull (stamped traceId timestamp [])
      else if hasKey ''data'' answer \<and> hasKey ''meta'' answer \<and>
          (hasKey ''pagination'' (field ''meta'' answer) \<or> hasKey ''pagination'' answer)
      then envelope (field ''data'' answer) (stamped traceId timestamp (spread (field ''meta'' answer)))
      else if hasKey ''items'' answer \<and> hasKey ''pagination'' answer
      then envelope (field ''items'' answer)
             (stamped traceId timestamp [(''pagination'', field ''pagination'' answer)])
      else envelope answer (stamped traceId timestamp []))"


section \<open>Inputs the controllers build\<close>

definition walletTypeOf :: "string \<Rightarrow> wallet_type option" where
  "walletTypeOf s =
     (if s = ''COLLECTION'' then Some WCOLLECTION else if s = ''DISBURSEMENT'' then Some WDISBURSEMENT else None)"

definition bodyMove ::
    "account_key \<Rightarrow> wallet_tx_type \<Rightarrow> actor_type \<Rightarrow> who option \<Rightarrow> json \<Rightarrow> wallet_type \<Rightarrow> move_input" where
  "bodyMove k txType aty actor body ty =
     \<lparr>mv_account = k, mv_type = ty, mv_txType = txType, mv_amount = bodyAmount body,
      mv_reference = bodyOption ''reference'' body, mv_actorType = aty, mv_actorId = actor,
      mv_ignoreFrozen = False\<rparr>"

text \<open>\<open>move\<close> with the wallet type as it stands in the path: an unknown one reaches Prisma.\<close>

definition moveAs :: "env \<Rightarrow> string \<Rightarrow> (wallet_type \<Rightarrow> move_input) \<Rightarrow> (db, wallet_tx_row) action" where
  "moveAs e ty mk =
     (case walletTypeOf ty of
        Some t \<Rightarrow> move e (mk t)
      | None \<Rightarrow>
          (case mv_amount (mk WDISBURSEMENT) of
             Malformed \<Rightarrow> raise DecimalError
           | NonFinite \<Rightarrow> raise (Forbidden VALIDATION_FAILED)
           | Fin v \<Rightarrow> if v = 0 then raise (Forbidden VALIDATION_FAILED)
                     else raise (JsError ''PrismaClientValidationError'')))"

definition bodyPush :: "json \<Rightarrow> push_dto" where
  "bodyPush body =
     \<lparr>pd_amount = bodyAmount body, pd_currency = bodyOption ''currency'' body,
      pd_phoneNumber = bodyText ''phoneNumber'' body,
      pd_fetchSenderDetails = (field ''fetchSenderDetails'' body = JBool True),
      pd_reference = bodyOption ''reference'' body\<rparr>"

definition bodyPayout :: "json \<Rightarrow> payout_dto" where
  "bodyPayout body =
     \<lparr>po_amount = bodyAmount body, po_reference = bodyOption ''reference'' body,
      po_phoneNumber = bodyOption ''phoneNumber'' body, po_accountNumber = bodyOption ''accountNumber'' body,
      po_accountName = bodyOption ''accountName'' body, po_bic = bodyOption ''bic'' body,
      po_transferType = bodyOption ''transferType'' body\<rparr>"

definition elements :: "json \<Rightarrow> json list" where
  "elements v = (case v of JArr xs \<Rightarrow> xs | _ \<Rightarrow> [])"

definition bodyItem :: "json \<Rightarrow> batch_item" where
  "bodyItem body =
     \<lparr>bi_channel = (if bodyText ''channel'' body = ''BANK'' then BANK else MOBILE_MONEY), bi_dto = bodyPayout body\<rparr>"

definition bodyBatch :: "json \<Rightarrow> batch_dto" where
  "bodyBatch body =
     \<lparr>bd_name = bodyText ''name'' body, bd_items = map bodyItem (elements (field ''items'' body))\<rparr>"

definition textOf :: "json \<Rightarrow> string" where
  "textOf v = (case v of JStr s \<Rightarrow> s | _ \<Rightarrow> [])"

definition bodySms :: "(string \<Rightarrow> int) \<Rightarrow> json \<Rightarrow> send_sms_dto" where
  "bodySms instant body =
     \<lparr>ss_senderName = bodyOption ''senderName'' body, ss_message = bodyText ''message'' body,
      ss_recipients = map textOf (elements (field ''recipients'' body)),
      ss_scheduleAt = (if truthy (bodyOption ''scheduleAt'' body)
                       then map_option instant (bodyOption ''scheduleAt'' body) else None)\<rparr>"

section \<open>Requests that move money\<close>

text \<open>The libraries, the rails, the reading of a date and of a row id, the next random token, the
  offset of the time zone of the sweep.\<close>

record world =
  aw_hashApiKey :: "string \<Rightarrow> string"
  aw_verifyJwt :: "string \<Rightarrow> jwt_payload option"
  aw_library :: library
  aw_collect :: collection_provider
  aw_pay :: payout_provider
  aw_sha :: "string \<Rightarrow> string"
  aw_token :: string
  aw_instant :: "string \<Rightarrow> int"
  aw_ident :: "string \<Rightarrow> ident"
  aw_sms :: sms_provider
  aw_delivery :: delivery_world
  aw_hmac :: hmac
  aw_decimal :: "string \<Rightarrow> decimal"
  aw_zone :: int
  aw_hashPassword :: "string \<Rightarrow> string"

datatype request =
    WalletDeposit string json | WalletWithdraw string json | WalletTransfer json
  | WalletWithdrawal json
  | UssdPush json | CollectionRefresh string | DepositPush json | DepositRefresh string
  | MobileMoneyPayout json | BankPayout json | PayoutLink json | PayoutBatch json
  | ConfirmPayoutLink string json
  | SmsMessage json
  | AdminDeposit account_key string json | AdminWithdraw account_key string json
  | AdminFreeze account_key string bool
  | AdminSweepNow account_key

fun routeOf :: "request \<Rightarrow> route" where
  "routeOf (WalletDeposit _ _) = keyed POST ''wallets/:type/deposit''"
| "routeOf (WalletWithdraw _ _) = keyed POST ''wallets/:type/withdraw''"
| "routeOf (WalletTransfer _) = keyed POST ''wallets/transfers''"
| "routeOf (WalletWithdrawal _) = keyed POST ''wallets/withdrawals''"
| "routeOf (UssdPush _) = needs SvcCOLLECTION (Some MOBILE_MONEY) POST ''collections/ussd-push''"
| "routeOf (CollectionRefresh _) = needs SvcCOLLECTION None POST ''collections/:reference/refresh''"
| "routeOf (DepositPush _) = needs SvcCOLLECTION (Some MOBILE_MONEY) POST ''wallets/deposits''"
| "routeOf (DepositRefresh _) = needs SvcCOLLECTION None POST ''wallets/deposits/:reference/refresh''"
| "routeOf (MobileMoneyPayout _) = needs SvcDISBURSEMENT (Some MOBILE_MONEY) POST ''disbursements/mobile-money''"
| "routeOf (BankPayout _) = needs SvcDISBURSEMENT (Some BANK) POST ''disbursements/bank''"
| "routeOf (PayoutLink _) = needs SvcDISBURSEMENT None POST ''disbursements/links''"
| "routeOf (PayoutBatch _) = needs SvcDISBURSEMENT None POST ''disbursements/batches''"
| "routeOf (ConfirmPayoutLink _ _) = public POST ''payout-links/:token/confirm''"
| "routeOf (SmsMessage _) = needs SvcSMS None POST ''sms/send''"
| "routeOf (AdminDeposit _ _ _) = adminOnly POST ''admin/accounts/:accountId/wallets/:type/deposit''"
| "routeOf (AdminWithdraw _ _ _) = adminOnly POST ''admin/accounts/:accountId/wallets/:type/withdraw''"
| "routeOf (AdminFreeze _ _ frozen) = adminOnly POST
     (if frozen then ''admin/accounts/:accountId/wallets/:type/freeze''
      else ''admin/accounts/:accountId/wallets/:type/activate'')"
| "routeOf (AdminSweepNow _) = adminOnly POST ''admin/accounts/:accountId/settlement/sweep-now''"

datatype reply =
    Movement wallet_tx_row | Transferred transfer_row | Payout payout_row | Collecting collection_row
  | Depositing deposit_row | Link link_view | Batch batch_row | LinkPaid "payout_row \<times> string option"
  | Message sms_row | Wallet wallet_row | Swept_now sweep_now_result

definition replying :: "('a \<Rightarrow> reply) \<Rightarrow> (db, 'a) action \<Rightarrow> (db, reply) action" where
  "replying f m = andThen m (\<lambda>x. ret (f x))"

definition validated :: "rule list \<Rightarrow> json \<Rightarrow> (db, reply) action \<Rightarrow> (db, reply) action" where
  "validated rules body m = thenDo (require (accepts rules body) (BadRequest VALIDATION_FAILED)) m"

text \<open>\<open>assertWalletActions\<close> looks at the type of the path: anything but COLLECTION is a DISBURSEMENT.\<close>

definition assertActions :: "request_account \<Rightarrow> string \<Rightarrow> (db, unit) action" where
  "assertActions a ty = liftE (assertWalletActions (ra_permissions a)
     (if ty = ''COLLECTION'' then WCOLLECTION else WDISBURSEMENT))"

section \<open>The methods of the controllers\<close>

text \<open>One definition per method: the validation of its body, then the call of the service with the input
  the method builds. WalletController.\<close>

definition keyOf :: "request_account \<Rightarrow> who option" where
  "keyOf a = Some (Row (ra_apiKeyId a))"

definition walletsDeposit :: "env \<Rightarrow> request_account \<Rightarrow> string \<Rightarrow> json \<Rightarrow> (db, reply) action" where
  "walletsDeposit e a ty body = validated walletAmountDto body
     (thenDo (assertActions a ty)
       (replying Movement (moveAs e ty (bodyMove (RowId (a_id (ra_account a))) DEPOSIT ActorAPI_KEY (keyOf a) body))))"

definition walletsWithdraw :: "env \<Rightarrow> request_account \<Rightarrow> string \<Rightarrow> json \<Rightarrow> (db, reply) action" where
  "walletsWithdraw e a ty body = validated walletAmountDto body
     (thenDo (assertActions a ty)
       (replying Movement (moveAs e ty (bodyMove (RowId (a_id (ra_account a))) WITHDRAWAL ActorAPI_KEY (keyOf a) body))))"

definition walletsTransfer :: "env \<Rightarrow> request_account \<Rightarrow> json \<Rightarrow> (db, reply) action" where
  "walletsTransfer e a body = validated walletTransferDto body
     (replying Transferred (transferCollectionToDisbursement e (RowId (a_id (ra_account a)))
        \<lparr>td_amount = bodyAmount body, td_reference = bodyOption ''reference'' body\<rparr> (keyOf a)))"

text \<open>WalletSettlementController.\<close>

definition withdrawToSettlement :: "world \<Rightarrow> env \<Rightarrow> request_account \<Rightarrow> json \<Rightarrow> (db, reply) action" where
  "withdrawToSettlement w e a body = validated walletWithdrawalDto body
     (replying Payout (createWithdrawal e (a_id (ra_account a))
        \<lparr>wd_amount = bodyAmount body, wd_reference = bodyOption ''reference'' body,
         wd_settlementAccountId = (if truthy (bodyOption ''settlementAccountId'' body)
           then map_option (aw_ident w) (bodyOption ''settlementAccountId'' body) else None)\<rparr>
        ActorAPI_KEY (keyOf a)))"

text \<open>CollectionsController and DepositsController.\<close>

definition collectionsInitiate :: "world \<Rightarrow> env \<Rightarrow> request_account \<Rightarrow> json \<Rightarrow> (db, reply) action" where
  "collectionsInitiate w e a body = validated ussdPushPreviewDto body
     (replying Collecting (initiateCollection e (aw_collect w) (a_id (ra_account a)) (bodyPush body)))"

definition collectionsRefresh :: "world \<Rightarrow> env \<Rightarrow> request_account \<Rightarrow> string \<Rightarrow> (db, reply) action" where
  "collectionsRefresh w e a ref =
     replying Collecting (refreshCollection e (aw_collect w) (a_id (ra_account a)) (toUpperCase ref))"

definition depositsInitiate :: "world \<Rightarrow> env \<Rightarrow> request_account \<Rightarrow> json \<Rightarrow> (db, reply) action" where
  "depositsInitiate w e a body = validated depositPreviewDto body
     (replying Depositing (initiateDeposit e (aw_collect w) (a_id (ra_account a)) (bodyPush body)))"

definition depositsRefresh :: "world \<Rightarrow> env \<Rightarrow> request_account \<Rightarrow> string \<Rightarrow> (db, reply) action" where
  "depositsRefresh w e a ref =
     replying Depositing (refreshDeposit e (aw_collect w) (a_id (ra_account a)) (toUpperCase ref))"

text \<open>DisbursementsController.\<close>

definition disburseMobileMoney :: "env \<Rightarrow> request_account \<Rightarrow> json \<Rightarrow> (db, reply) action" where
  "disburseMobileMoney e a body = validated mobileMoneyPayoutDto body
     (replying Payout (createPayout e (a_id (ra_account a)) MOBILE_MONEY (bodyPayout body)))"

definition disburseBank :: "env \<Rightarrow> request_account \<Rightarrow> json \<Rightarrow> (db, reply) action" where
  "disburseBank e a body = validated bankPayoutDto body
     (replying Payout (createPayout e (a_id (ra_account a)) BANK (bodyPayout body)))"

definition disburseLink :: "world \<Rightarrow> env \<Rightarrow> request_account \<Rightarrow> json \<Rightarrow> (db, reply) action" where
  "disburseLink w e a body = validated createPayoutLinkDto body
     (replying Link (createPayoutLink (aw_sha w) (aw_token w) e (a_id (ra_account a)) (bodyAmount body)
        (intOf (field ''expiresInMinutes'' body))))"

definition disburseBatch :: "env \<Rightarrow> request_account \<Rightarrow> json \<Rightarrow> (db, reply) action" where
  "disburseBatch e a body = validated createBatchDto body
     (replying Batch (createBatch e (a_id (ra_account a)) (bodyBatch body)))"

text \<open>SmsController and PayoutLinksController.\<close>

definition smsSend :: "world \<Rightarrow> env \<Rightarrow> request_account \<Rightarrow> json \<Rightarrow> (db, reply) action" where
  "smsSend w e a body = validated (sendSmsDto (aw_library w)) body
     (replying Message (sendSms e (a_id (ra_account a)) (bodySms (aw_instant w) body)))"

definition linkConfirm :: "world \<Rightarrow> env \<Rightarrow> string \<Rightarrow> json \<Rightarrow> (db, reply) action" where
  "linkConfirm w e token body = validated payoutLinkDetailsDto body
     (replying LinkPaid (confirmPayoutLink (aw_sha w) e (aw_pay w) token
        (bodyOption ''phoneNumber'' body) (bodyText ''payoutMethod'' body)))"

text \<open>AdminWalletController and AdminSettlementController.\<close>

definition adminDeposit :: "env \<Rightarrow> jwt_payload \<Rightarrow> account_key \<Rightarrow> string \<Rightarrow> json \<Rightarrow> (db, reply) action" where
  "adminDeposit e p k ty body = validated walletAmountDto body
     (replying Movement (moveAs e ty (bodyMove k DEPOSIT ActorADMIN (Some (Row (jp_sub p))) body)))"

definition adminWithdraw :: "env \<Rightarrow> jwt_payload \<Rightarrow> account_key \<Rightarrow> string \<Rightarrow> json \<Rightarrow> (db, reply) action" where
  "adminWithdraw e p k ty body = validated walletAmountDto body
     (replying Movement (moveAs e ty (bodyMove k WITHDRAWAL ActorADMIN (Some (Row (jp_sub p))) body)))"

definition adminFreeze :: "env \<Rightarrow> account_key \<Rightarrow> string \<Rightarrow> bool \<Rightarrow> (db, reply) action" where
  "adminFreeze e k ty frozen =
     (case walletTypeOf ty of
        None \<Rightarrow> raise (JsError ''PrismaClientValidationError'')
      | Some t \<Rightarrow> replying Wallet (setFrozen e k t frozen))"

definition adminSweepNow :: "env \<Rightarrow> account_key \<Rightarrow> (db, reply) action" where
  "adminSweepNow e k = replying Swept_now (sweepNow e k)"

lemmas methods = walletsDeposit_def walletsWithdraw_def walletsTransfer_def withdrawToSettlement_def
  collectionsInitiate_def collectionsRefresh_def depositsInitiate_def depositsRefresh_def
  disburseMobileMoney_def disburseBank_def disburseLink_def disburseBatch_def smsSend_def linkConfirm_def
  adminDeposit_def adminWithdraw_def adminFreeze_def adminSweepNow_def

section \<open>The way of a request\<close>

definition accountHandler :: "world \<Rightarrow> env \<Rightarrow> request_account \<Rightarrow> request \<Rightarrow> (db, reply) action" where
  "accountHandler w e a r =
     (case r of
        WalletDeposit ty body \<Rightarrow> walletsDeposit e a ty body
      | WalletWithdraw ty body \<Rightarrow> walletsWithdraw e a ty body
      | WalletTransfer body \<Rightarrow> walletsTransfer e a body
      | WalletWithdrawal body \<Rightarrow> withdrawToSettlement w e a body
      | UssdPush body \<Rightarrow> collectionsInitiate w e a body
      | CollectionRefresh ref \<Rightarrow> collectionsRefresh w e a ref
      | DepositPush body \<Rightarrow> depositsInitiate w e a body
      | DepositRefresh ref \<Rightarrow> depositsRefresh w e a ref
      | MobileMoneyPayout body \<Rightarrow> disburseMobileMoney e a body
      | BankPayout body \<Rightarrow> disburseBank e a body
      | PayoutLink body \<Rightarrow> disburseLink w e a body
      | PayoutBatch body \<Rightarrow> disburseBatch e a body
      | SmsMessage body \<Rightarrow> smsSend w e a body
      | _ \<Rightarrow> raise (Unauthorized UNAUTHORIZED))"

definition staffHandler :: "env \<Rightarrow> jwt_payload \<Rightarrow> request \<Rightarrow> (db, reply) action" where
  "staffHandler e p r =
     (case r of
        AdminDeposit k ty body \<Rightarrow> adminDeposit e p k ty body
      | AdminWithdraw k ty body \<Rightarrow> adminWithdraw e p k ty body
      | AdminFreeze k ty frozen \<Rightarrow> adminFreeze e k ty frozen
      | AdminSweepNow k \<Rightarrow> adminSweepNow e k
      | _ \<Rightarrow> raise (Unauthorized UNAUTHORIZED))"

definition publicHandler :: "world \<Rightarrow> env \<Rightarrow> request \<Rightarrow> (db, reply) action" where
  "publicHandler w e r =
     (case r of
        ConfirmPayoutLink token body \<Rightarrow> linkConfirm w e token body
      | _ \<Rightarrow> raise (Unauthorized UNAUTHORIZED))"

definition respond :: "world \<Rightarrow> env \<Rightarrow> headers \<Rightarrow> request \<Rightarrow> (db, reply) action" where
  "respond w e h r =
     andThen (query (authorize (aw_hashApiKey w) (aw_verifyJwt w) (routeOf r) h)) (\<lambda>passed.
     case passed of
       Inl err \<Rightarrow> raise err
     | Inr (AccountCaller a) \<Rightarrow> accountHandler w e a r
     | Inr (StaffCaller p) \<Rightarrow> staffHandler e p r
     | Inr Anonymous \<Rightarrow> publicHandler w e r)"

lemma routeOf_listed: "routeOf r \<in> set allRoutes"
  by (cases r) (simp_all add: allRoutes_def collectionRoutes_def depositRoutes_def disbursementRoutes_def
      payoutLinkRoutes_def smsRoutes_def walletRoutes_def adminWalletRoutes_def walletSettlementRoutes_def
      adminSettlementRoutes_def)

end
