(* ===== verification/Book.thy ===== *)
theory Book
  imports Wallets
begin

text \<open>
  What the wallet operations promise, without rows, references or ids: a book that maps an account
  and a wallet type to a balance and a frozen flag. Movements and freezes of wallets.service.ts refine
  the operations of the book, one by one and in any sequence.
\<close>

section \<open>Simulation of a sequence of commands\<close>

fun runAll :: "('c \<Rightarrow> 's \<Rightarrow> bool \<times> 's) \<Rightarrow> 'c list \<Rightarrow> 's \<Rightarrow> bool list \<times> 's" where
  "runAll step [] s = ([], s)"
| "runAll step (c # cs) s =
     (let (b, s1) = step c s; (bs, s2) = runAll step cs s1 in (b # bs, s2))"

text \<open>A step that agrees with its specification, answer and state, on the states of an invariant.\<close>

locale simulation =
  fixes step :: "'c \<Rightarrow> 's \<Rightarrow> bool \<times> 's" and spec :: "'c \<Rightarrow> 'a \<Rightarrow> bool \<times> 'a"
    and absf :: "'s \<Rightarrow> 'a" and inv :: "'s \<Rightarrow> bool" and ok :: "'c \<Rightarrow> bool"
  assumes simulates: "inv s \<Longrightarrow> ok c \<Longrightarrow> step c s = (b, s') \<Longrightarrow> inv s' \<and> spec c (absf s) = (b, absf s')"
begin

lemma runs_simulate:
  "inv s \<Longrightarrow> list_all ok cs \<Longrightarrow> runAll step cs s = (bs, s') \<Longrightarrow>
     inv s' \<and> runAll spec cs (absf s) = (bs, absf s')"
proof (induction cs arbitrary: s bs s')
  case (Cons c cs)
  obtain b s1 where 1: "step c s = (b, s1)" by fastforce
  obtain bs' s2 where 2: "runAll step cs s1 = (bs', s2)" by fastforce
  have "inv s1 \<and> spec c (absf s) = (b, absf s1)" using simulates [OF _ _ 1] Cons.prems(1,2) by simp
  moreover from this have "inv s2 \<and> runAll spec cs (absf s1) = (bs', absf s2)"
    using Cons.IH [OF _ _ 2] Cons.prems(2) by simp
  ultimately show ?case using Cons.prems(3) 1 2 by simp
qed simp

end

section \<open>The book\<close>

record pot =
  pot_balance :: rat
  pot_frozen :: bool

type_synonym book = "ident \<times> wallet_type \<Rightarrow> pot option"

text \<open>Adding a signed amount: refused without the wallet, on a frozen wallet unless the caller
  overrides, and when it would take the balance below zero.\<close>

definition bookAdd :: "ident \<times> wallet_type \<Rightarrow> rat \<Rightarrow> bool \<Rightarrow> book \<Rightarrow> bool \<times> book" where
  "bookAdd k v override b =
     (case b k of
        None \<Rightarrow> (False, b)
      | Some p \<Rightarrow>
          if pot_frozen p \<and> \<not> override then (False, b)
          else if v < 0 \<and> pot_balance p + v < 0 then (False, b)
          else (True, b(k \<mapsto> p\<lparr>pot_balance := pot_balance p + v\<rparr>)))"

definition bookFreeze :: "ident \<times> wallet_type \<Rightarrow> bool \<Rightarrow> book \<Rightarrow> bool \<times> book" where
  "bookFreeze k f b = (case b k of None \<Rightarrow> (False, b) | Some p \<Rightarrow> (True, b(k \<mapsto> p\<lparr>pot_frozen := f\<rparr>)))"

datatype wallet_cmd =
    CmdMove env move_input
  | CmdFreeze env account_key wallet_type bool

fun runCmd :: "wallet_cmd \<Rightarrow> db \<Rightarrow> bool \<times> db" where
  "runCmd (CmdMove e inp) d = (let (r, d') = move e inp d in (\<not> isl r, d'))"
| "runCmd (CmdFreeze e k ty f) d = (let (r, d') = setFrozen e k ty f d in (\<not> isl r, d'))"

text \<open>The account a key names: the resolved one, or a row id as it is.\<close>

definition ownerIn :: "account_row list \<Rightarrow> account_key \<Rightarrow> ident option" where
  "ownerIn accts k =
     (case resolveAccountId k (empty_db\<lparr>accounts := accts\<rparr>) of
        Some i \<Rightarrow> Some i
      | None \<Rightarrow> (case k of RowId i \<Rightarrow> Some i | PublicId _ \<Rightarrow> None))"

definition signedAmount :: "move_input \<Rightarrow> rat \<Rightarrow> rat" where
  "signedAmount inp a = (if isDebitMove (mv_txType inp) a then - \<bar>a\<bar> else \<bar>a\<bar>)"

fun bookCmd :: "account_row list \<Rightarrow> wallet_cmd \<Rightarrow> book \<Rightarrow> bool \<times> book" where
  "bookCmd accts (CmdMove e inp) b =
     (case (mv_amount inp, ownerIn accts (mv_account inp)) of
        (Fin a, Some i) \<Rightarrow> if a = 0 then (False, b)
           else bookAdd (i, mv_type inp) (signedAmount inp a) (mv_ignoreFrozen inp) b
      | _ \<Rightarrow> (False, b))"
| "bookCmd accts (CmdFreeze e k ty f) b =
     (case ownerIn accts k of None \<Rightarrow> (False, b) | Some i \<Rightarrow> bookFreeze (i, ty) f b)"

text \<open>The amounts of the API are in cents.\<close>

fun cmd_ok :: "wallet_cmd \<Rightarrow> bool" where
  "cmd_ok (CmdMove e inp) = (case mv_amount inp of Fin a \<Rightarrow> is_cents a | _ \<Rightarrow> True)"
| "cmd_ok (CmdFreeze e k ty f) = True"

definition bookOf :: "db \<Rightarrow> book" where
  "bookOf d = (\<lambda>(a, ty). map_option (\<lambda>w. \<lparr>pot_balance = w_balance w, pot_frozen = (w_status w = WalletFROZEN)\<rparr>)
     (findWallet a ty d))"

section \<open>The refinement\<close>

lemma walletByKey_owner:
  "walletByKey k ty d = (case ownerIn (accounts d) k of None \<Rightarrow> None | Some i \<Rightarrow> findWallet i ty d)"
  by (simp add: walletByKey_def ownerIn_def resolveAccountId_def findAccount_def
        split: account_key.split option.split)

lemma findWallet_other:
  assumes "wallets_keyed d" and "w \<in> set (wallets d)" and "findWallet a ty d = Some v"
    and "(a, ty) \<noteq> (w_account w, w_type w)"
  shows "w_id v \<noteq> w_id w"
  using findWallet_in [OF assms(3)] wallet_same_id [OF assms(1)] assms(2,4) by blast

text \<open>Replacing the row of one wallet changes one entry of the book.\<close>

lemma bookOf_update:
  assumes "wallets_keyed d" and "w \<in> set (wallets d)"
    and "wallets d' = updateWhere (\<lambda>r. w_id r = w_id w) f (wallets d)"
    and "\<And>r. w_account (f r) = w_account r \<and> w_type (f r) = w_type r"
  shows "bookOf d' = (bookOf d)((w_account w, w_type w) \<mapsto>
     \<lparr>pot_balance = w_balance (f w), pot_frozen = (w_status (f w) = WalletFROZEN)\<rparr>)"
proof (rule ext)
  fix k :: "ident \<times> wallet_type"
  obtain a ty where k: "k = (a, ty)" by fastforce
  have upd: "findWallet a ty d' = map_option (\<lambda>r. if w_id r = w_id w then f r else r) (findWallet a ty d)"
    using assms(3,4) by (simp add: findWallet_def find_updateWhere)
  show "bookOf d' k = ((bookOf d)((w_account w, w_type w) \<mapsto>
     \<lparr>pot_balance = w_balance (f w), pot_frozen = (w_status (f w) = WalletFROZEN)\<rparr>)) k"
  proof (cases "(a, ty) = (w_account w, w_type w)")
    case True
    then have "findWallet a ty d = Some w" using findWallet_mem [OF assms(1,2)] by simp
    then have "bookOf d' k = Some \<lparr>pot_balance = w_balance (f w), pot_frozen = (w_status (f w) = WalletFROZEN)\<rparr>"
      by (simp add: k bookOf_def upd)
    then show ?thesis using True by (simp add: k)
  next
    case False
    then show ?thesis
      using findWallet_other [OF assms(1,2) _ False]
      by (cases "findWallet a ty d") (auto simp: k bookOf_def upd)
  qed
qed

lemma bookOf_wallet:
  assumes "walletByKey k ty d = Some w" and "wallets_keyed d"
  shows "ownerIn (accounts d) k = Some (w_account w) \<and> w_type w = ty \<and> w \<in> set (wallets d) \<and>
    bookOf d (w_account w, ty) = Some \<lparr>pot_balance = w_balance w, pot_frozen = (w_status w = WalletFROZEN)\<rparr>"
proof -
  obtain i where i: "ownerIn (accounts d) k = Some i" and f: "findWallet i ty d = Some w"
    using assms(1) by (auto simp: walletByKey_owner split: option.splits)
  then show ?thesis using findWallet_in [OF f] by (auto simp: bookOf_def)
qed

lemma bookOf_no_wallet:
  "walletByKey k ty d = None \<Longrightarrow> ownerIn (accounts d) k = Some i \<Longrightarrow> bookOf d (i, ty) = None"
  by (simp add: walletByKey_owner bookOf_def)

lemma runCmd_move:
  assumes ok: "ledger_ok d" and cents: "cmd_ok (CmdMove e inp)" and "runCmd (CmdMove e inp) d = (b, d')"
  shows "bookCmd (accounts d) (CmdMove e inp) (bookOf d) = (b, bookOf d') \<and> accounts d' = accounts d"
proof (cases "mv_amount inp")
  case (Fin a)
  have keyed: "wallets_keyed d" using ok by (simp add: ledger_ok_def)
  note mv = assms(3) [unfolded runCmd.simps move_run [OF keyed]]
  show ?thesis
  proof (cases "walletByKey (mv_account inp) (mv_type inp) d")
    case None
    then show ?thesis
      using mv Fin bookOf_no_wallet [OF None]
      by (auto simp: moveSpec_def bookAdd_def split: option.splits if_splits)
  next
    case (Some w)
    note own = bookOf_wallet [OF Some keyed]
    show ?thesis
    proof (cases "moveSpec e inp d")
      case (Inl err)
      then show ?thesis
        using mv Fin Some own
        by (auto simp: moveSpec_def bookAdd_def signedAmount_def split: if_splits)
    next
      case (Inr r)
      then have spec: "moveSpec e inp d = Inr (w, a)" using Fin Some by (auto simp: moveSpec_def split: if_splits)
      let ?row = "moveRow e inp w a d"
      have d': "b" "d' = post ?row d" using mv by (simp_all add: spec)
      have "posts_to w ?row"
        using ok own cents Fin by (intro moveRow_posts spec) (auto simp: ledger_ok_def)
      then have after: "t_balanceAfter ?row = w_balance w + signedAmount inp a" "t_wallet ?row = w_id w"
        using cents Fin
        by (simp_all add: posts_to_def moveRow_def Let_def signedAmount_def round2_neg)
      have "bookOf d' = (bookOf d)((w_account w, w_type w) \<mapsto>
          \<lparr>pot_balance = w_balance w + signedAmount inp a, pot_frozen = (w_status w = WalletFROZEN)\<rparr>)"
        using bookOf_update [OF keyed, of w d' "\<lambda>r. r\<lparr>w_balance := t_balanceAfter ?row\<rparr>"] own after
        by (simp add: d'(2) post_def)
      moreover have "accounts d' = accounts d" by (simp add: d'(2) post_def)
      ultimately show ?thesis
        using moveSpec_Inr [OF spec] own Fin d'(1)
        by (auto simp: bookAdd_def signedAmount_def split: if_splits)
    qed
  qed
qed (use assms in \<open>auto simp: move_def run\<close>)

lemma runCmd_freeze:
  assumes ok: "ledger_ok d" and "runCmd (CmdFreeze e k ty f) d = (b, d')"
  shows "bookCmd (accounts d) (CmdFreeze e k ty f) (bookOf d) = (b, bookOf d') \<and> accounts d' = accounts d \<and>
    ledger_ok d'"
proof (cases "walletByKey k ty d")
  case None
  then show ?thesis
    using assms bookOf_no_wallet [OF None]
    by (auto simp: setFrozen_def getWallet_def run bookFreeze_def split: option.splits)
next
  case (Some w)
  have keyed: "wallets_keyed d" using ok by (simp add: ledger_ok_def)
  note own = bookOf_wallet [OF Some keyed]
  let ?f = "\<lambda>r. r\<lparr>w_status := if f then WalletFROZEN else WalletACTIVE\<rparr>"
  obtain an where b: "b" and d': "d' = d\<lparr>wallets := updateWhere (\<lambda>r. w_id r = w_id w) ?f (wallets d), analytics := an\<rparr>"
    using assms(2) by (auto simp: setFrozen_run [OF keyed Some])
  have "bookOf d' = (bookOf d)((w_account w, w_type w) \<mapsto>
      \<lparr>pot_balance = w_balance w, pot_frozen = f\<rparr>)"
    using bookOf_update [OF keyed, of w d' ?f] own by (simp add: d')
  then show ?thesis
    using own b ledger_ok_status [OF ok] by (simp add: bookFreeze_def d')
qed

interpretation book: simulation runCmd "bookCmd accts" bookOf "\<lambda>d. ledger_ok d \<and> accounts d = accts" cmd_ok
  for accts
proof
  fix d c b d'
  assume inv: "ledger_ok d \<and> accounts d = accts" and c: "cmd_ok c" and run: "runCmd c d = (b, d')"
  show "(ledger_ok d' \<and> accounts d' = accts) \<and> bookCmd accts c (bookOf d) = (b, bookOf d')"
  proof (cases c)
    case (CmdMove e inp)
    have "ledger_ok (snd (move e inp d))"
      using inv c by (intro ledger_ok_move) (auto simp: CmdMove)
    moreover have "d' = snd (move e inp d)" using run by (simp add: CmdMove split: prod.splits)
    ultimately show ?thesis using runCmd_move [of d e inp b d'] inv c run by (simp add: CmdMove)
  next
    case (CmdFreeze e k ty f)
    then show ?thesis using runCmd_freeze [of d e k ty f b d'] inv run by simp
  qed
qed

section \<open>Properties\<close>

text \<open>C1: any sequence of movements and freezes is answered, command by command, as the book answers
  it, and leaves the balances and flags of the book: accepted exactly when the wallet exists, is not
  frozen (or the freeze is overridden), the amount is not zero and a debit is covered; nothing else of
  the database, and no other wallet, matters or changes.\<close>

theorem wallets_refine_book:
  assumes "ledger_ok d" and "list_all cmd_ok cmds" and "runAll runCmd cmds d = (answers, d')"
  shows "runAll (bookCmd (accounts d)) cmds (bookOf d) = (answers, bookOf d') \<and> ledger_ok d'"
  using book.runs_simulate [of d "accounts d" cmds answers d'] assms by simp

theorem wallets_refine_book_witness:
  "\<exists>d'. runAll runCmd [CmdMove default_env (sample_move PAYOUT_DEBIT 40), CmdFreeze default_env (RowId 0) WCOLLECTION True,
       CmdMove default_env (sample_move DEPOSIT 5)] sample_db = ([True, True, False], d') \<and>
     bookOf d' (0, WCOLLECTION) = Some \<lparr>pot_balance = 60, pot_frozen = True\<rparr>"
proof -
  let ?cmds = "[CmdMove default_env (sample_move PAYOUT_DEBIT 40), CmdFreeze default_env (RowId 0) WCOLLECTION True,
       CmdMove default_env (sample_move DEPOSIT 5)]"
  obtain answers d' where r: "runAll runCmd ?cmds sample_db = (answers, d')" by fastforce
  have "list_all cmd_ok ?cmds" by (simp add: sample_move_def is_cents_def)
  from wallets_refine_book [OF sample_db_ok this r]
  have "runAll (bookCmd (accounts sample_db)) ?cmds (bookOf sample_db) = (answers, bookOf d')" by blast
  moreover have "fst (runAll (bookCmd (accounts sample_db)) ?cmds (bookOf sample_db)) = [True, True, False]"
    and "snd (runAll (bookCmd (accounts sample_db)) ?cmds (bookOf sample_db)) (0, WCOLLECTION)
      = Some \<lparr>pot_balance = 60, pot_frozen = True\<rparr>"
    by code_simp+
  ultimately show ?thesis using r by simp
qed

end
