(* ===== verification/Billing.thy ===== *)
theory Billing
  imports Sms
begin

text \<open>
  billing/billing.service.ts: plans, the plan of an account, manual bills, and the daily cron that
  issues the next subscription bill. Days are added at a fixed offset from UTC.
\<close>

section \<open>Plans\<close>

record create_plan_dto =
  cpd_name :: string
  cpd_description :: "string option"
  cpd_services :: "service_key list"
  cpd_recurringAmount :: decimal
  cpd_periodDays :: "nat option"

definition newPlan :: "env \<Rightarrow> create_plan_dto \<Rightarrow> rat \<Rightarrow> ident \<Rightarrow> plan_row" where
  "newPlan e dto amount i =
     \<lparr>pl_id = i, pl_name = trim (cpd_name dto), pl_description = cpd_description dto,
      pl_services = cpd_services dto, pl_recurringAmount = amount,
      pl_periodDays = (case cpd_periodDays dto of None \<Rightarrow> 30 | Some n \<Rightarrow> n),
      pl_isActive = True, pl_createdAt = now e\<rparr>"

definition createPlan :: "env \<Rightarrow> create_plan_dto \<Rightarrow> who \<Rightarrow> (db, plan_row) action" where
  "createPlan e dto admin =
     andThen (query (\<lambda>d. trim (cpd_name dto) \<in> pl_name ` set (plans d))) (\<lambda>clash.
     thenDo (require (\<not> clash) (Conflict VALIDATION_FAILED))
     (andThen (decimalColumn (cpd_recurringAmount dto)) (\<lambda>amount.
      andThen (query (\<lambda>d. newPlan e dto amount (next_id d))) (\<lambda>plan.
      thenDo (modify (\<lambda>d. d\<lparr>plans := plans d @ [plan], next_id := Suc (next_id d)\<rparr>))
      (thenDo (audit_record e admin None ''plan.created'' ''Plan'' (Some (pl_id plan)))
      (ret plan))))))"

definition listPlans :: "db \<Rightarrow> plan_row list" where
  "listPlans d = orderAsc pl_createdAt (filter pl_isActive (plans d))"

definition findPlan :: "ident \<Rightarrow> db \<Rightarrow> plan_row option" where
  "findPlan i d = List.find (\<lambda>p. pl_id p = i) (plans d)"

definition insertBill :: "(ident \<Rightarrow> bill_row) \<Rightarrow> (db, bill_row) action" where
  "insertBill mk = (\<lambda>d. (Inr (mk (next_id d)),
     d\<lparr>bills := bills d @ [mk (next_id d)], next_id := Suc (next_id d)\<rparr>))"

text \<open>\<open>date.setDate(date.getDate() + n)\<close>.\<close>

definition addDays :: "int \<Rightarrow> nat \<Rightarrow> int" where
  "addDays t n = t + int n * day_ms"

definition subscriptionBill :: "env \<Rightarrow> ident \<Rightarrow> string \<Rightarrow> rat \<Rightarrow> nat \<Rightarrow> int \<Rightarrow> who \<Rightarrow> ident \<Rightarrow> bill_row" where
  "subscriptionBill e acct name amount period dueAt issuer i =
     \<lparr>bl_id = i, bl_account = acct, bl_type = BillSUBSCRIPTION, bl_title = ''Subscription: '' @ name,
      bl_amount = amount, bl_currency = ''TZS'', bl_isRecurring = True, bl_periodDays = Some period,
      bl_dueDate = Some dueAt, bl_status = BillPENDING, bl_issuedBy = Some issuer, bl_paidAt = None,
      bl_createdAt = now e\<rparr>"

section \<open>The plan of an account\<close>

text \<open>\<open>accountPlan.upsert\<close> on the account: the update leaves id and status.\<close>

definition upsertAccountPlan :: "ident \<Rightarrow> plan_row \<Rightarrow> int \<Rightarrow> (db, account_plan_row) action" where
  "upsertAccountPlan acct plan nextDate = (\<lambda>d.
     case List.find (\<lambda>r. ap_account r = acct) (account_plans d) of
       Some r \<Rightarrow>
         (let r' = r\<lparr>ap_plan := pl_id plan, ap_recurringAmount := pl_recurringAmount plan,
                     ap_periodDays := pl_periodDays plan, ap_nextBillingDate := Some nextDate\<rparr>
          in (Inr r', d\<lparr>account_plans := updateWhere (\<lambda>x. ap_account x = acct) (\<lambda>_. r') (account_plans d)\<rparr>))
     | None \<Rightarrow>
         (let r' = \<lparr>ap_id = next_id d, ap_account = acct, ap_plan = pl_id plan,
                    ap_recurringAmount = pl_recurringAmount plan, ap_periodDays = pl_periodDays plan,
                    ap_nextBillingDate = Some nextDate, ap_status = BillPENDING\<rparr>
          in (Inr r', d\<lparr>account_plans := account_plans d @ [r'], next_id := Suc (next_id d)\<rparr>)))"

definition assignPlan :: "env \<Rightarrow> account_key \<Rightarrow> ident \<Rightarrow> who \<Rightarrow> (db, account_plan_row) action" where
  "assignPlan e k planId admin =
     andThen (fetch (NotFound NOT_FOUND)
       (\<lambda>d. case findPlan planId d of None \<Rightarrow> None | Some p \<Rightarrow> if pl_isActive p then Some p else None)) (\<lambda>plan.
     andThen (fetch (NotFound NOT_FOUND) (resolveAccountId k)) (\<lambda>acct.
     let nextDate = addDays (now e) (pl_periodDays plan) in
     andThen (upsertAccountPlan acct plan nextDate) (\<lambda>ap.
     andThen (updateAccountRow acct (\<lambda>r. r\<lparr>a_billingMode := ModeSUBSCRIPTION\<rparr>)) (\<lambda>_.
     andThen (insertBill (subscriptionBill e acct (pl_name plan) (pl_recurringAmount plan)
                (pl_periodDays plan) nextDate admin)) (\<lambda>_.
     thenDo (audit_record e admin (Some acct) ''account.plan_assigned'' ''AccountPlan'' (Some (ap_id ap)))
     (ret ap))))))"

section \<open>Bills\<close>

record create_bill_dto =
  cb_type :: bill_type
  cb_title :: string
  cb_amount :: decimal
  cb_isRecurring :: "bool option"
  cb_periodDays :: "nat option"
  cb_dueDate :: "int option"

definition manualBill :: "env \<Rightarrow> ident \<Rightarrow> create_bill_dto \<Rightarrow> rat \<Rightarrow> who \<Rightarrow> ident \<Rightarrow> bill_row" where
  "manualBill e acct dto amount admin i =
     \<lparr>bl_id = i, bl_account = acct, bl_type = cb_type dto, bl_title = cb_title dto, bl_amount = amount,
      bl_currency = ''TZS'', bl_isRecurring = (cb_isRecurring dto = Some True),
      bl_periodDays = (if cb_isRecurring dto = Some True
         then Some (case cb_periodDays dto of None \<Rightarrow> 30 | Some n \<Rightarrow> n) else None),
      bl_dueDate = cb_dueDate dto, bl_status = BillPENDING, bl_issuedBy = Some admin,
      bl_paidAt = None, bl_createdAt = now e\<rparr>"

definition createBill :: "env \<Rightarrow> account_key \<Rightarrow> create_bill_dto \<Rightarrow> who \<Rightarrow> (db, bill_row) action" where
  "createBill e k dto admin =
     andThen (fetch (NotFound NOT_FOUND) (resolveAccountId k)) (\<lambda>acct.
     thenDo (require (cb_type dto \<noteq> BillSUBSCRIPTION) (BadRequest VALIDATION_FAILED))
     (andThen (decimalColumn (cb_amount dto)) (\<lambda>amount.
      andThen (insertBill (manualBill e acct dto amount admin)) (\<lambda>bill.
      thenDo (audit_record e admin (Some acct) ''bill.created'' ''Bill'' (Some (bl_id bill)))
      (ret bill)))))"

definition paidBill :: "env \<Rightarrow> bill_row \<Rightarrow> bill_row" where
  "paidBill e b = b\<lparr>bl_status := BillPAID, bl_paidAt := Some (now e)\<rparr>"

definition markBillPaid :: "env \<Rightarrow> account_key \<Rightarrow> ident \<Rightarrow> who \<Rightarrow> (db, bill_row) action" where
  "markBillPaid e k billId admin =
     andThen (fetch (NotFound NOT_FOUND) (\<lambda>d. case resolveAccountId k d of None \<Rightarrow> None
        | Some acct \<Rightarrow> List.find (\<lambda>b. bl_id b = billId \<and> bl_account b = acct) (bills d))) (\<lambda>bill.
     thenDo (modify (\<lambda>d. d\<lparr>bills := updateWhere (\<lambda>b. bl_id b = billId) (paidBill e) (bills d)\<rparr>))
     (thenDo (audit_record e admin (Some (bl_account bill)) ''bill.paid'' ''Bill'' (Some billId))
     (ret (paidBill e bill))))"

definition listBills :: "account_key \<Rightarrow> nat \<Rightarrow> nat \<Rightarrow> bill_status option \<Rightarrow> db \<Rightarrow> bill_row list \<times> nat" where
  "listBills k skip n status d =
     (case resolveAccountId k d of
        None \<Rightarrow> ([], 0)
      | Some acct \<Rightarrow>
          (let rows = filter (\<lambda>b. bl_account b = acct \<and>
                        (case status of None \<Rightarrow> True | Some s \<Rightarrow> bl_status b = s)) (bills d)
           in (window skip n (orderDesc bl_createdAt rows), length rows)))"

section \<open>The recurring run\<close>

definition billable :: "env \<Rightarrow> account_plan_row \<Rightarrow> bool" where
  "billable e ap \<longleftrightarrow> (case ap_nextBillingDate ap of None \<Rightarrow> False | Some t \<Rightarrow> t \<le> now e)"

definition duePlans :: "env \<Rightarrow> db \<Rightarrow> account_plan_row list" where
  "duePlans e d = take 200 (filter (billable e) (account_plans d))"

definition billDate :: "env \<Rightarrow> account_plan_row \<Rightarrow> int" where
  "billDate e ap = (case ap_nextBillingDate ap of None \<Rightarrow> now e | Some t \<Rightarrow> t)"

definition advance :: "env \<Rightarrow> account_plan_row \<Rightarrow> account_plan_row \<Rightarrow> account_plan_row" where
  "advance e ap r = r\<lparr>ap_nextBillingDate := Some (addDays (billDate e ap) (ap_periodDays ap))\<rparr>"

definition billPlan :: "env \<Rightarrow> account_plan_row \<Rightarrow> (db, unit) action" where
  "billPlan e ap =
     andThen (fetch (JsError ''TypeError'') (findPlan (ap_plan ap))) (\<lambda>plan.
     andThen (insertBill (subscriptionBill e (ap_account ap) (pl_name plan) (ap_recurringAmount ap)
                (ap_periodDays ap) (billDate e ap) SystemActor)) (\<lambda>_.
     thenDo (modify (\<lambda>d. d\<lparr>account_plans :=
               updateWhere (\<lambda>r. ap_id r = ap_id ap) (advance e ap) (account_plans d)\<rparr>))
     (track e ''bill.issued'' (Some (RowId (ap_account ap))) (Some (ap_recurringAmount ap)))))"

definition runRecurringBilling :: "env \<Rightarrow> (db, nat) action" where
  "runRecurringBilling e =
     andThen (query (duePlans e)) (\<lambda>aps.
     thenDo (forEach (billPlan e) aps) (ret (length aps)))"

section \<open>What one run does\<close>

lemma andThen_insertBill [run]:
  "andThen (insertBill mk) k d =
     k (mk (next_id d)) (d\<lparr>bills := bills d @ [mk (next_id d)], next_id := Suc (next_id d)\<rparr>)"
  by (simp add: andThen_def insertBill_def)

definition billFor :: "env \<Rightarrow> db \<Rightarrow> account_plan_row \<Rightarrow> bill_row \<Rightarrow> bool" where
  "billFor e d ap b \<longleftrightarrow> bl_account b = ap_account ap \<and> bl_amount b = ap_recurringAmount ap \<and>
     bl_dueDate b = Some (billDate e ap) \<and> bl_type b = BillSUBSCRIPTION \<and> bl_status b = BillPENDING \<and>
     (\<exists>p. findPlan (ap_plan ap) d = Some p \<and> bl_title b = ''Subscription: '' @ pl_name p)"

definition advanceAll :: "env \<Rightarrow> account_plan_row list \<Rightarrow> account_plan_row list \<Rightarrow> account_plan_row list" where
  "advanceAll e aps rows = fold (\<lambda>ap. updateWhere (\<lambda>r. ap_id r = ap_id ap) (advance e ap)) aps rows"

lemma billAll:
  assumes "\<forall>ap \<in> set aps. findPlan (ap_plan ap) d \<noteq> None"
  shows "\<exists>d' bs. forEach (billPlan e) aps d = (Inr (), d') \<and> bills d' = bills d @ bs \<and>
    list_all2 (billFor e d) aps bs \<and> account_plans d' = advanceAll e aps (account_plans d) \<and>
    accounts d' = accounts d"
  using assms
proof (induction aps arbitrary: d)
  case Nil
  then show ?case by (simp add: ret_run advanceAll_def)
next
  case (Cons ap aps)
  then obtain plan where plan: "findPlan (ap_plan ap) d = Some plan" by auto
  define b where "b = subscriptionBill e (ap_account ap) (pl_name plan) (ap_recurringAmount ap)
     (ap_periodDays ap) (billDate e ap) SystemActor (next_id d)"
  obtain d1 where d1: "billPlan e ap d = (Inr (), d1)" "bills d1 = bills d @ [b]"
      "account_plans d1 = updateWhere (\<lambda>r. ap_id r = ap_id ap) (advance e ap) (account_plans d)"
      "accounts d1 = accounts d" "plans d1 = plans d"
    using plan by (simp add: billPlan_def run track_def b_def)
  have same: "findPlan i d1 = findPlan i d" for i by (simp add: findPlan_def d1)
  have "billFor e d1 x y = billFor e d x y" for x y by (simp add: billFor_def same)
  then obtain d' bs where "forEach (billPlan e) aps d1 = (Inr (), d')" "bills d' = bills d1 @ bs"
      "list_all2 (billFor e d) aps bs" "account_plans d' = advanceAll e aps (account_plans d1)"
      "accounts d' = accounts d1"
    using Cons.IH [of d1] Cons.prems same by (auto simp: list_all2_conv_all_nth)
  moreover have "billFor e d ap b" by (simp add: billFor_def b_def subscriptionBill_def plan)
  ultimately show ?case
    using d1 by (intro exI [of _ d'] exI [of _ "b # bs"]) (simp add: andThen_Inr advanceAll_def)
qed

lemma advanceAll_map:
  assumes "distinct (map ap_id rows)" and "set aps \<subseteq> set rows" and "distinct aps"
  shows "advanceAll e aps rows = map (\<lambda>r. if r \<in> set aps then advance e r r else r) rows"
  using assms
proof (induction aps arbitrary: rows)
  case Nil
  then show ?case by (simp add: advanceAll_def)
next
  case (Cons a aps)
  let ?rows = "updateWhere (\<lambda>r. ap_id r = ap_id a) (advance e a) rows"
  have id: "ap_id (advance e x r) = ap_id r" for x r by (simp add: advance_def)
  have eq: "x = y" if "x \<in> set rows" "y \<in> set rows" "ap_id x = ap_id y" for x y
    using that Cons.prems(1) by (auto simp: distinct_map inj_on_def)
  have other: "ap_id r \<noteq> ap_id a" if "r \<in> set aps" for r
    using eq [of r a] that Cons.prems by auto
  have "set aps \<subseteq> set ?rows"
    using Cons.prems(2) other by (auto simp: updateWhere_def image_iff)
  then have "advanceAll e aps ?rows = map (\<lambda>r. if r \<in> set aps then advance e r r else r) ?rows"
    using Cons.IH [of ?rows] Cons.prems(1,3) id by (simp add: map_updateWhere)
  also have "\<dots> = map (\<lambda>r. if r \<in> set (a # aps) then advance e r r else r) rows"
    unfolding updateWhere_def map_map
  proof (rule map_cong [OF refl])
    fix r
    assume r: "r \<in> set rows"
    have "advance e a r \<notin> set aps" if "ap_id r = ap_id a" using other [of "advance e a r"] that id by auto
    moreover have "r = a" if "ap_id r = ap_id a" using eq [OF r _ that] Cons.prems(2) by simp
    ultimately show "((\<lambda>r. if r \<in> set aps then advance e r r else r) \<circ>
        (\<lambda>r. if ap_id r = ap_id a then advance e a r else r)) r
      = (if r \<in> set (a # aps) then advance e r r else r)"
      by auto
  qed
  finally show ?case by (simp add: advanceAll_def)
qed

lemma duePlans_props:
  assumes "distinct (map ap_id (account_plans d))"
  shows "set (duePlans e d) \<subseteq> set (account_plans d) \<and> distinct (duePlans e d) \<and>
    (\<forall>ap \<in> set (duePlans e d). ap_nextBillingDate ap = Some (billDate e ap) \<and> billDate e ap \<le> now e)"
proof -
  have "distinct (account_plans d)" using assms by (rule distinct_map [THEN iffD1, THEN conjunct1])
  moreover have "set (duePlans e d) \<subseteq> set (filter (billable e) (account_plans d))"
    unfolding duePlans_def by (rule set_take_subset)
  ultimately show ?thesis
    by (auto simp: duePlans_def billable_def billDate_def split: option.splits)
qed

lemma recurring_run:
  assumes "distinct (map ap_id (account_plans d))"
    and "\<forall>ap \<in> set (account_plans d). findPlan (ap_plan ap) d \<noteq> None"
  shows "\<exists>d' bs. runRecurringBilling e d = (Inr (length (duePlans e d)), d') \<and>
    bills d' = bills d @ bs \<and> list_all2 (billFor e d) (duePlans e d) bs \<and>
    account_plans d' = map (\<lambda>ap. if ap \<in> set (duePlans e d) then advance e ap ap else ap) (account_plans d) \<and>
    accounts d' = accounts d"
proof -
  note due = duePlans_props [OF assms(1), of e]
  have "\<forall>ap \<in> set (duePlans e d). findPlan (ap_plan ap) d \<noteq> None" using assms(2) due by blast
  from billAll [OF this, of e] obtain d' bs where
    "forEach (billPlan e) (duePlans e d) d = (Inr (), d')" "bills d' = bills d @ bs"
    "list_all2 (billFor e d) (duePlans e d) bs"
    "account_plans d' = advanceAll e (duePlans e d) (account_plans d)" "accounts d' = accounts d"
    by blast
  then show ?thesis
    using advanceAll_map [OF assms(1)] due by (simp add: runRecurringBilling_def andThen_Inr ret_run)
qed

lemma upsertAccountPlan_run:
  "\<exists>ap d1. upsertAccountPlan acct plan nextDate d = (Inr ap, d1) \<and> ap_account ap = acct \<and>
     ap_plan ap = pl_id plan \<and> ap_recurringAmount ap = pl_recurringAmount plan \<and>
     ap_periodDays ap = pl_periodDays plan \<and> ap_nextBillingDate ap = Some nextDate \<and>
     ap \<in> set (account_plans d1) \<and> plans d1 = plans d \<and> bills d1 = bills d \<and> accounts d1 = accounts d"
proof (cases "List.find (\<lambda>r. ap_account r = acct) (account_plans d)")
  case (Some r)
  let ?r = "r\<lparr>ap_plan := pl_id plan, ap_recurringAmount := pl_recurringAmount plan,
              ap_periodDays := pl_periodDays plan, ap_nextBillingDate := Some nextDate\<rparr>"
  have "r \<in> set (account_plans d)" and "ap_account r = acct" using find_SomeD [OF Some] by blast+
  then have "?r \<in> set (updateWhere (\<lambda>x. ap_account x = acct) (\<lambda>_. ?r) (account_plans d))"
    by (auto simp: set_updateWhere)
  with Some \<open>ap_account r = acct\<close> show ?thesis by (simp add: upsertAccountPlan_def Let_def)
qed (simp add: upsertAccountPlan_def Let_def)

lemma assignPlan_Inr:
  assumes "assignPlan e k planId admin d = (Inr ap, d1)"
  shows "\<exists>plan acct b. findPlan planId d = Some plan \<and> pl_isActive plan \<and> resolveAccountId k d = Some acct \<and>
    ap_account ap = acct \<and> ap_plan ap = pl_id plan \<and> ap_recurringAmount ap = pl_recurringAmount plan \<and>
    ap_nextBillingDate ap = Some (addDays (now e) (pl_periodDays plan)) \<and>
    ap_periodDays ap = pl_periodDays plan \<and>
    ap \<in> set (account_plans d1) \<and> plans d1 = plans d \<and> bills d1 = bills d @ [b] \<and>
    bl_account b = acct \<and> bl_amount b = pl_recurringAmount plan \<and> bl_type b = BillSUBSCRIPTION \<and>
    bl_dueDate b = Some (addDays (now e) (pl_periodDays plan)) \<and>
    bl_title b = ''Subscription: '' @ pl_name plan"
proof -
  obtain plan acct where plan: "findPlan planId d = Some plan" "pl_isActive plan"
    and acct: "resolveAccountId k d = Some acct"
    and rest: "andThen (upsertAccountPlan acct plan (addDays (now e) (pl_periodDays plan))) (\<lambda>ap.
      andThen (updateAccountRow acct (\<lambda>r. r\<lparr>a_billingMode := ModeSUBSCRIPTION\<rparr>)) (\<lambda>_.
      andThen (insertBill (subscriptionBill e acct (pl_name plan) (pl_recurringAmount plan)
                (pl_periodDays plan) (addDays (now e) (pl_periodDays plan)) admin)) (\<lambda>_.
      thenDo (audit_record e admin (Some acct) ''account.plan_assigned'' ''AccountPlan'' (Some (ap_id ap)))
      (ret ap)))) d = (Inr ap, d1)"
    using assms unfolding assignPlan_def andThen_fetch Let_def
    by (auto split: option.splits if_splits)
  obtain ap' d0 where up: "upsertAccountPlan acct plan (addDays (now e) (pl_periodDays plan)) d = (Inr ap', d0)"
    and ap': "ap_account ap' = acct" "ap_plan ap' = pl_id plan" "ap_recurringAmount ap' = pl_recurringAmount plan"
      "ap_periodDays ap' = pl_periodDays plan"
      "ap_nextBillingDate ap' = Some (addDays (now e) (pl_periodDays plan))"
    and d0: "ap' \<in> set (account_plans d0)" "plans d0 = plans d" "bills d0 = bills d"
    using upsertAccountPlan_run by blast
  have seq: "andThen (upsertAccountPlan acct plan (addDays (now e) (pl_periodDays plan))) k d = k ap' d0" for k :: "account_plan_row \<Rightarrow> (db, account_plan_row) action"
    using up by (simp add: andThen_def)
  from rest have "ap = ap' \<and> plans d1 = plans d0 \<and> account_plans d1 = account_plans d0 \<and>
      bills d1 = bills d0 @ [subscriptionBill e acct (pl_name plan) (pl_recurringAmount plan)
                (pl_periodDays plan) (addDays (now e) (pl_periodDays plan)) admin (next_id d0)]"
    unfolding seq updateAccountRow_def andThen_assoc andThen_modify andThen_fetch andThen_insertBill
      andThen_audit ret_run
    by (auto simp: audit_record_def split: option.splits)
  with plan acct ap' d0 show ?thesis by (simp add: subscriptionBill_def)
qed

section \<open>Properties\<close>

text \<open>C38: the recurring run bills every due plan, the first two hundred, exactly once, for the
  recurring amount of the account and due on its billing date, and moves that date on by the period
  of the plan; a plan whose date is then in the future is not billed by another run. No other plan is
  touched, and no account is: an unpaid bill never suspends anyone.\<close>

theorem recurring_billing:
  assumes "distinct (map ap_id (account_plans d))"
    and "\<forall>ap \<in> set (account_plans d). findPlan (ap_plan ap) d \<noteq> None"
  shows "\<exists>d' bs. runRecurringBilling e d = (Inr (length (duePlans e d)), d') \<and> bills d' = bills d @ bs \<and>
    list_all2 (\<lambda>ap b. bl_account b = ap_account ap \<and> bl_amount b = ap_recurringAmount ap \<and>
      bl_dueDate b = ap_nextBillingDate ap \<and> bl_status b = BillPENDING) (duePlans e d) bs \<and>
    account_plans d' = map (\<lambda>ap. if ap \<in> set (duePlans e d) then advance e ap ap else ap) (account_plans d) \<and>
    (\<forall>ap \<in> set (duePlans e d). now e < addDays (billDate e ap) (ap_periodDays ap) \<longrightarrow> \<not> billable e (advance e ap ap)) \<and>
    accounts d' = accounts d"
proof -
  obtain d' bs where run: "runRecurringBilling e d = (Inr (length (duePlans e d)), d')" "bills d' = bills d @ bs"
    "list_all2 (billFor e d) (duePlans e d) bs"
    "account_plans d' = map (\<lambda>ap. if ap \<in> set (duePlans e d) then advance e ap ap else ap) (account_plans d)"
    "accounts d' = accounts d"
    using recurring_run [OF assms, of e] by blast
  have "list_all2 (\<lambda>ap b. bl_account b = ap_account ap \<and> bl_amount b = ap_recurringAmount ap \<and>
      bl_dueDate b = ap_nextBillingDate ap \<and> bl_status b = BillPENDING) (duePlans e d) bs"
    using run(3) duePlans_props [OF assms(1), of e]
    by (auto simp: billFor_def list_all2_conv_all_nth)
  with run show ?thesis by (intro exI [of _ d'] exI [of _ bs] conjI) (auto simp: advance_def billable_def)
qed

definition sample_plan_db :: db where
  "sample_plan_db = sample_db\<lparr>plans := [\<lparr>pl_id = 50, pl_name = ''Gold'', pl_description = None,
     pl_services = [SvcSMS], pl_recurringAmount = 5000, pl_periodDays = 30, pl_isActive = True, pl_createdAt = 0\<rparr>]\<rparr>"

definition sample_subscriber :: account_plan_row where
  "sample_subscriber = \<lparr>ap_id = 60, ap_account = 0, ap_plan = 50, ap_recurringAmount = 5000,
     ap_periodDays = 30, ap_nextBillingDate = Some 0, ap_status = BillPENDING\<rparr>"

theorem recurring_billing_witness:
  "\<exists>d' b. runRecurringBilling default_env (sample_plan_db\<lparr>account_plans := [sample_subscriber]\<rparr>) = (Inr 1, d') \<and>
     bills d' = [b] \<and> bl_amount b = 5000 \<and> bl_dueDate b = Some 0 \<and>
     account_plans d' = [sample_subscriber\<lparr>ap_nextBillingDate := Some (30 * 86400000)\<rparr>]"
proof -
  let ?d = "sample_plan_db\<lparr>account_plans := [sample_subscriber]\<rparr>"
  have plan: "\<forall>ap \<in> set (account_plans ?d). findPlan (ap_plan ap) ?d \<noteq> None"
    by (simp add: findPlan_def sample_plan_db_def sample_subscriber_def)
  have dues: "duePlans default_env ?d = [sample_subscriber]" and none: "bills ?d = []"
    by (simp_all add: duePlans_def billable_def sample_subscriber_def default_env_def sample_plan_db_def
          sample_db_def empty_db_def)
  have adv: "advance default_env sample_subscriber sample_subscriber
      = sample_subscriber\<lparr>ap_nextBillingDate := Some (30 * 86400000)\<rparr>"
    by (simp add: advance_def addDays_def billDate_def sample_subscriber_def day_ms_def)
  have fields: "ap_account sample_subscriber = 0" "ap_recurringAmount sample_subscriber = 5000"
    "ap_nextBillingDate sample_subscriber = Some 0"
    by (simp_all add: sample_subscriber_def)
  from recurring_billing [of ?d default_env, OF _ plan] obtain d' bs where
    "runRecurringBilling default_env ?d = (Inr 1, d')" "bills d' = bs"
    "list_all2 (\<lambda>ap b. bl_account b = ap_account ap \<and> bl_amount b = ap_recurringAmount ap \<and>
      bl_dueDate b = ap_nextBillingDate ap \<and> bl_status b = BillPENDING) [sample_subscriber] bs"
    "account_plans d' = [advance default_env sample_subscriber sample_subscriber]"
    unfolding dues none by auto
  then show ?thesis by (auto simp: adv list_all2_Cons1 fields)
qed

text \<open>Assigning a plan bills the first period at once, due at its end; the run at that date
  bills the account again, with the same title, the same amount and the same due date.\<close>

theorem first_period_billed_twice:
  assumes "assignPlan e k planId admin d = (Inr ap, d1)"
    and "distinct (map ap_id (account_plans d1))" and "length (account_plans d1) \<le> 200"
    and "\<forall>x \<in> set (account_plans d1). findPlan (ap_plan x) d1 \<noteq> None"
    and "addDays (now e) (ap_periodDays ap) \<le> now e'"
  shows "\<exists>d2 b b' bs. runRecurringBilling e' d1 = (Inr (length (duePlans e' d1)), d2) \<and>
    bills d1 = bills d @ [b] \<and> bills d2 = bills d1 @ bs \<and> b' \<in> set bs \<and>
    bl_account b' = ap_account ap \<and> bl_account b = ap_account ap \<and> bl_amount b' = bl_amount b \<and>
    bl_title b' = bl_title b \<and> bl_dueDate b' = bl_dueDate b"
proof -
  obtain plan b where plan: "findPlan planId d = Some plan" "ap_plan ap = pl_id plan" "plans d1 = plans d"
    and ap: "ap \<in> set (account_plans d1)" "ap_recurringAmount ap = pl_recurringAmount plan"
      "ap_nextBillingDate ap = Some (addDays (now e) (pl_periodDays plan))" "ap_periodDays ap = pl_periodDays plan"
    and b: "bills d1 = bills d @ [b]" "bl_account b = ap_account ap" "bl_amount b = pl_recurringAmount plan"
      "bl_dueDate b = Some (addDays (now e) (pl_periodDays plan))" "bl_title b = ''Subscription: '' @ pl_name plan"
    using assignPlan_Inr [OF assms(1)] by blast
  have "pl_id plan = planId" using plan(1) by (auto simp: findPlan_def dest: find_SomeD)
  then have found: "findPlan (ap_plan ap) d1 = Some plan" using plan by (simp add: findPlan_def)
  have date: "billDate e' ap = addDays (now e) (pl_periodDays plan)" by (simp add: billDate_def ap)
  have "length (filter (billable e') (account_plans d1)) \<le> 200"
    using assms(3) length_filter_le [of "billable e'" "account_plans d1"] by linarith
  then have in_due: "ap \<in> set (duePlans e' d1)" using ap assms(5) by (simp add: duePlans_def billable_def)
  obtain d2 bs where run: "runRecurringBilling e' d1 = (Inr (length (duePlans e' d1)), d2)"
    "bills d2 = bills d1 @ bs" "list_all2 (billFor e' d1) (duePlans e' d1) bs"
    using recurring_run [OF assms(2,4), of e'] by blast
  obtain b' where "b' \<in> set bs" "billFor e' d1 ap b'"
    using run(3) in_due by (metis in_set_conv_nth list_all2_conv_all_nth)
  with run b found ap date show ?thesis by (intro exI [of _ d2] exI [of _ b] exI [of _ b'] exI [of _ bs]) (simp add: billFor_def)
qed

theorem first_period_billed_twice_witness:
  "\<exists>d1 d2 b b'. assignPlan default_env (RowId 0) 50 SystemActor sample_plan_db = (Inr (projr (fst
        (assignPlan default_env (RowId 0) 50 SystemActor sample_plan_db))), d1) \<and>
     runRecurringBilling (default_env\<lparr>now := 30 * 86400000\<rparr>) d1 = (Inr 1, d2) \<and>
     b \<in> set (bills d2) \<and> b' \<in> set (bills d2) \<and> bl_dueDate b' = bl_dueDate b \<and> bl_amount b' = bl_amount b"
proof -
  let ?r = "assignPlan default_env (RowId 0) 50 SystemActor sample_plan_db"
  let ?e = "default_env\<lparr>now := 30 * 86400000\<rparr>"
  have "\<not> isl (fst ?r)" by code_simp
  then obtain ap d1 where r: "?r = (Inr ap, d1)" by (metis prod.collapse sum.collapse(2))
  have "length (account_plans (snd ?r)) = 1" and "findPlan 50 (snd ?r) \<noteq> None"
    and "map ap_plan (account_plans (snd ?r)) = [50]" and "ap_periodDays (projr (fst ?r)) = 30"
    and "length (duePlans ?e (snd ?r)) = 1"
    by code_simp+
  then have one: "length (account_plans d1) = 1" and plan: "\<forall>x \<in> set (account_plans d1). findPlan (ap_plan x) d1 \<noteq> None"
    and thirty: "ap_periodDays ap = 30" and n: "length (duePlans ?e d1) = 1"
    using r by auto
  have "distinct (map ap_id (account_plans d1))" using one by (cases "account_plans d1") auto
  moreover have "addDays (now default_env) (ap_periodDays ap) \<le> now ?e"
    by (simp add: thirty addDays_def day_ms_def default_env_def)
  ultimately show ?thesis
    using first_period_billed_twice [OF r, of ?e] one plan r n by fastforce
qed

end
