(* ===== verification/Admin.thy ===== *)
theory Admin
  imports Billing
begin

text \<open>
  admin/admin.service.ts, audit/audit.service.ts and the summary of iii/analytics.service.ts: staff
  logins, the overview of an account, the computational review of a period and the audit and
  analytics queries. Trace inspection reads only spans, which the schema leaves out.
\<close>

section \<open>Staff\<close>

record create_staff_dto =
  cs_name :: string
  cs_email :: string
  cs_password :: string
  cs_role :: user_role

definition newStaff :: "env \<Rightarrow> (string \<Rightarrow> string) \<Rightarrow> create_staff_dto \<Rightarrow> ident \<Rightarrow> staff_row" where
  "newStaff e hashPassword dto i =
     \<lparr>s_id = i, s_email = toLowerCase (cs_email dto), s_passwordHash = hashPassword (cs_password dto),
      s_name = trim (cs_name dto), s_role = cs_role dto, s_isActive = True, s_createdAt = now e\<rparr>"

definition createStaff :: "env \<Rightarrow> (string \<Rightarrow> string) \<Rightarrow> create_staff_dto \<Rightarrow> who \<Rightarrow> (db, staff_row) action" where
  "createStaff e hashPassword dto admin =
     andThen (query (\<lambda>d. toLowerCase (cs_email dto) \<in> s_email ` set (staff d))) (\<lambda>exists.
     thenDo (require (\<not> exists) (Conflict CONFLICT))
     (andThen (query (\<lambda>d. newStaff e hashPassword dto (next_id d))) (\<lambda>user.
      thenDo (modify (\<lambda>d. d\<lparr>staff := staff d @ [user], next_id := Suc (next_id d)\<rparr>))
      (thenDo (audit_record e admin None ''staff.created'' ''StaffUser'' (Some (s_id user)))
      (ret user)))))"

definition listStaff :: "db \<Rightarrow> staff_row list" where
  "listStaff d = orderAsc s_createdAt (staff d)"

section \<open>The overview of an account\<close>

record overview =
  ov_account :: account_row
  ov_permissions :: "permission_row list"
  ov_wallets :: "wallet_row list"
  ov_apiKeys :: "api_key_row list"
  ov_plan :: "account_plan_row option"
  ov_endpoints :: "endpoint_row list"
  ov_collections :: "collection_row list"
  ov_payouts :: "payout_row list"
  ov_batches :: "batch_row list"
  ov_sms :: "sms_row list"
  ov_bills :: "bill_row list"
  ov_audits :: "audit_row list"

definition walletsOf :: "ident \<Rightarrow> db \<Rightarrow> wallet_row list" where
  "walletsOf acct d = filter (\<lambda>w. w_account w = acct) (wallets d)"

definition accountOverview :: "account_key \<Rightarrow> nat \<Rightarrow> nat \<Rightarrow> nat \<Rightarrow> nat \<Rightarrow> db \<Rightarrow> overview option" where
  "accountOverview k txSkip txTake smsSkip smsTake d =
     (case resolveAccountId k d of
        None \<Rightarrow> None
      | Some i \<Rightarrow> (case findAccount i d of
          None \<Rightarrow> None
        | Some a \<Rightarrow> Some
            \<lparr>ov_account = a,
             ov_permissions = permissionsOf i d,
             ov_wallets = walletsOf i d,
             ov_apiKeys = filter (\<lambda>x. k_account x = i) (api_keys d),
             ov_plan = List.find (\<lambda>x. ap_account x = i) (account_plans d),
             ov_endpoints = filter (\<lambda>x. e_account x = i) (endpoints d),
             ov_collections = window txSkip txTake (orderDesc c_createdAt (filter (\<lambda>x. c_account x = i) (collections d))),
             ov_payouts = window txSkip txTake (orderDesc p_createdAt (filter (\<lambda>x. p_account x = i) (payouts d))),
             ov_batches = window 0 20 (orderDesc b_createdAt (filter (\<lambda>x. b_account x = i) (batches d))),
             ov_sms = window smsSkip smsTake (orderDesc m_createdAt (filter (\<lambda>x. m_account x = i) (smses d))),
             ov_bills = window 0 20 (orderDesc bl_createdAt (filter (\<lambda>x. bl_account x = i) (bills d))),
             ov_audits = window 0 20 (orderDesc au_createdAt (filter (\<lambda>x. au_account x = Some i) (audits d)))\<rparr>))"

section \<open>The period of a review\<close>

text \<open>
  The day of the month of a UTC day (days since 1970), as \<open>getUTCDate\<close> gives it in the proleptic
  Gregorian calendar, counting days from 1 March of year 0.
\<close>

definition dayOfMonth :: "int \<Rightarrow> int" where
  "dayOfMonth z =
     (let doe = (z + 719468) mod 146097;
          yoe = (doe - doe div 1460 + doe div 36524 - doe div 146096) div 365;
          doy = doe - (365 * yoe + yoe div 4 - yoe div 100);
          mp = (5 * doy + 2) div 153
      in doy - (153 * mp + 2) div 5 + 1)"

definition monthStart :: "int \<Rightarrow> int" where
  "monthStart t = (t div day_ms - (dayOfMonth (t div day_ms) - 1)) * day_ms"

text \<open>\<open>resolveRange\<close>: \<open>parseDay\<close> is \<open>new Date(s + 'T00:00:00.000Z')\<close> in milliseconds; \<open>tz\<close> is the
  server's offset, which only the \<open>day\<close> preset uses.\<close>

definition resolveRange ::
    "(string \<Rightarrow> int) \<Rightarrow> int \<Rightarrow> env \<Rightarrow> string option \<Rightarrow> string option \<Rightarrow> string option \<Rightarrow> err + (int \<times> int \<times> string)" where
  "resolveRange parseDay tz e presetParam fromParam toParam =
     (let preset = (case presetParam of None \<Rightarrow> ''month'' | Some p \<Rightarrow> p) in
      if preset = ''day'' then Inr (startOfToday tz e, startOfToday tz e + day_ms, preset)
      else if preset = ''custom'' then
        (if \<not> truthy fromParam \<or> \<not> truthy toParam then Inl (Conflict VALIDATION_FAILED)
         else Inr (parseDay (orEmpty fromParam), parseDay (orEmpty toParam) + day_ms - 1, preset))
      else Inr (monthStart (now e), now e, preset))"

section \<open>The review\<close>

definition inRange :: "int \<Rightarrow> int \<Rightarrow> int \<Rightarrow> bool" where
  "inRange frm until t \<longleftrightarrow> frm \<le> t \<and> t \<le> until"

text \<open>\<open>groupBy(['status'])\<close>: a group for every status that has rows, in the order of the enum.\<close>

record 'st status_group =
  g_status :: 'st
  g_count :: nat
  g_amount :: rat

definition groupRows :: "'st list \<Rightarrow> ('r \<Rightarrow> 'st) \<Rightarrow> ('r \<Rightarrow> rat) \<Rightarrow> 'r list \<Rightarrow> 'st status_group list" where
  "groupRows statuses st amount rows =
     map (\<lambda>s. \<lparr>g_status = s, g_count = countWhere (\<lambda>r. st r = s) rows,
               g_amount = sum_list (map amount (filter (\<lambda>r. st r = s) rows))\<rparr>)
       (filter (\<lambda>s. \<exists>r \<in> set rows. st r = s) statuses)"

definition txStatuses :: "tx_status list" where
  "txStatuses = [TxPENDING, TxPROCESSING, TxSUCCESS, TxFAILED, TxREVERSED, TxREFUNDED, TxEXPIRED]"

definition smsStatuses :: "sms_status list" where
  "smsStatuses = [SmsQUEUED, SmsPROCESSING, SmsSENT, SmsDELIVERED, SmsFAILED]"

definition billStatuses :: "bill_status list" where
  "billStatuses = [BillPENDING, BillPAID, BillCANCELLED]"

definition sumBy :: "'st status_group list \<Rightarrow> rat" where
  "sumBy gs = sum_list (map g_amount gs)"

definition countBy :: "'st status_group list \<Rightarrow> nat" where
  "countBy gs = sum_list (map g_count gs)"

definition groupCount :: "'st \<Rightarrow> 'st status_group list \<Rightarrow> nat" where
  "groupCount s gs = (case List.find (\<lambda>g. g_status g = s) gs of None \<Rightarrow> 0 | Some g \<Rightarrow> g_count g)"

text \<open>A percentage with one decimal, \<open>null\<close> when there is nothing to count.\<close>

definition ratio :: "nat \<Rightarrow> nat \<Rightarrow> rat option" where
  "ratio part whole = (if whole = 0 then None
     else Some (of_int \<lfloor>of_nat part / of_nat whole * 1000 + 1 / 2 :: rat\<rfloor> / 10))"

record wallet_review =
  wr_type :: wallet_type
  wr_openingBalance :: rat
  wr_totalCredited :: rat
  wr_totalDebited :: rat
  wr_closingBalance :: rat
  wr_liveBalance :: rat
  wr_ledgerConsistent :: bool
  wr_discrepancy :: rat
  wr_movements :: nat

definition movementsIn :: "int \<Rightarrow> int \<Rightarrow> ident \<Rightarrow> db \<Rightarrow> wallet_tx_row list" where
  "movementsIn frm until i d =
     orderAsc t_createdAt (filter (\<lambda>t. inRange frm until (t_createdAt t)) (ledgerOf i d))"

definition reviewWallet :: "int \<Rightarrow> int \<Rightarrow> db \<Rightarrow> wallet_row \<Rightarrow> wallet_review" where
  "reviewWallet frm until d w =
     (let txs = movementsIn frm until (w_id w) d;
          credits = sum_list (map t_amount (filter (\<lambda>t. 0 < t_amount t) txs));
          debits = sum_list (map t_amount (filter (\<lambda>t. t_amount t < 0) txs));
          opening = (if 0 < length txs then t_balanceBefore (txs ! 0) else w_balance w);
          closing = (if 0 < length txs then t_balanceAfter (txs ! (length txs - 1)) else opening);
          expected = opening + credits + debits;
          consistent = (expected = closing)
      in \<lparr>wr_type = w_type w, wr_openingBalance = round2 opening, wr_totalCredited = round2 credits,
          wr_totalDebited = round2 \<bar>debits\<bar>, wr_closingBalance = round2 closing,
          wr_liveBalance = round2 (w_balance w),
          wr_ledgerConsistent = (consistent \<and> closing = w_balance w),
          wr_discrepancy = round2 (w_balance w - closing), wr_movements = length txs\<rparr>)"

record review =
  rv_collections :: "tx_status status_group list"
  rv_payouts :: "tx_status status_group list"
  rv_batchCount :: nat
  rv_batchItems :: nat
  rv_batchSuccess :: nat
  rv_batchFailed :: nat
  rv_batchAmount :: rat
  rv_sms :: "sms_status status_group list"
  rv_bills :: "bill_status status_group list"
  rv_outstanding :: rat
  rv_wallets :: "wallet_review list"
  rv_collectionSuccessRate :: "rat option"
  rv_payoutSuccessRate :: "rat option"
  rv_netFlow :: rat

definition computations :: "account_key \<Rightarrow> int \<Rightarrow> int \<Rightarrow> db \<Rightarrow> review option" where
  "computations k frm until d =
     (case resolveAccountId k d of
        None \<Rightarrow> None
      | Some i \<Rightarrow>
          (let cs = groupRows txStatuses c_status c_amount
                      (filter (\<lambda>x. c_account x = i \<and> inRange frm until (c_createdAt x)) (collections d));
               ps = groupRows txStatuses p_status p_amount
                      (filter (\<lambda>x. p_account x = i \<and> inRange frm until (p_createdAt x)) (payouts d));
               bs = filter (\<lambda>x. b_account x = i \<and> inRange frm until (b_createdAt x)) (batches d);
               ss = groupRows smsStatuses m_status (\<lambda>m. case m_cost m of None \<Rightarrow> 0 | Some v \<Rightarrow> v)
                      (filter (\<lambda>x. m_account x = i \<and> inRange frm until (m_createdAt x)) (smses d));
               ls = groupRows billStatuses bl_status bl_amount
                      (filter (\<lambda>x. bl_account x = i \<and> inRange frm until (bl_createdAt x)) (bills d))
           in Some \<lparr>rv_collections = cs, rv_payouts = ps, rv_batchCount = length bs,
                rv_batchItems = sum_list (map b_totalCount bs), rv_batchSuccess = sum_list (map b_successCount bs),
                rv_batchFailed = sum_list (map b_failedCount bs), rv_batchAmount = sum_list (map b_totalAmount bs),
                rv_sms = ss, rv_bills = ls,
                rv_outstanding = round2 (sumBy (filter (\<lambda>g. g_status g = BillPENDING) ls)),
                rv_wallets = map (reviewWallet frm until d) (walletsOf i d),
                rv_collectionSuccessRate = ratio (groupCount TxSUCCESS cs) (countBy cs),
                rv_payoutSuccessRate = ratio (groupCount TxSUCCESS ps) (countBy ps),
                rv_netFlow = round2 (sumBy cs - sumBy ps)\<rparr>))"

section \<open>Audit and analytics queries\<close>

record audit_filters =
  af_account :: "ident option"
  af_action :: "string option"
  af_actorType :: "actor_type option"
  af_from :: "int option"
  af_to :: "int option"

definition matches :: "'a option \<Rightarrow> 'a option \<Rightarrow> bool" where
  "matches wanted x \<longleftrightarrow> wanted = None \<or> x = wanted"

definition auditMatches :: "audit_filters \<Rightarrow> audit_row \<Rightarrow> bool" where
  "auditMatches f r \<longleftrightarrow> matches (af_account f) (au_account r) \<and>
     (truthy (af_action f) \<longrightarrow> au_action r = orEmpty (af_action f)) \<and>
     matches (af_actorType f) (Some (au_actorType r)) \<and>
     (case af_from f of None \<Rightarrow> True | Some t \<Rightarrow> t \<le> au_createdAt r) \<and>
     (case af_to f of None \<Rightarrow> True | Some t \<Rightarrow> au_createdAt r \<le> t)"

definition listAudits :: "audit_filters \<Rightarrow> nat \<Rightarrow> nat \<Rightarrow> db \<Rightarrow> audit_row list \<times> nat" where
  "listAudits f skip n d =
     (let rows = filter (auditMatches f) (audits d)
      in (window skip n (orderDesc au_createdAt rows), length rows))"

record event_summary =
  es_event :: string
  es_count :: nat
  es_totalValue :: "rat option"

text \<open>The sum of a column without values is \<open>null\<close>, and a sum of zero is reported as a number: a
  \<open>Decimal\<close> object is truthy.\<close>

definition sumValues :: "rat option list \<Rightarrow> rat option" where
  "sumValues vs = (let xs = List.map_filter id vs in if xs = [] then None else Some (sum_list xs))"

text \<open>\<open>localeCompare\<close> is taken as the order of the character codes.\<close>

definition analyticsSummary :: "int \<Rightarrow> int \<Rightarrow> db \<Rightarrow> event_summary list" where
  "analyticsSummary frm until d =
     (let rows = filter (\<lambda>r. inRange frm until (an_createdAt r)) (analytics d)
      in map (\<lambda>n. let group = filter (\<lambda>r. an_name r = n) rows
                  in \<lparr>es_event = n, es_count = length group, es_totalValue = sumValues (map an_value group)\<rparr>)
           (sort (remdups (map an_name rows))))"

section \<open>Facts about the review\<close>

lemma sorted_segments:
  assumes "sorted (map k xs)" and "a \<le> (b :: int)"
  shows "xs = filter (\<lambda>x. k x < a) xs @ filter (\<lambda>x. inRange a b (k x)) xs @ filter (\<lambda>x. b < k x) xs"
  using assms
proof (induction xs)
  case (Cons x xs)
  then have ge: "\<forall>y \<in> set xs. k x \<le> k y" and IH: "xs = filter (\<lambda>x. k x < a) xs @
      filter (\<lambda>x. inRange a b (k x)) xs @ filter (\<lambda>x. b < k x) xs" by auto
  have low: "filter (\<lambda>x. k x < a) xs = []" if "a \<le> k x" using ge that by (auto simp: filter_empty_conv)
  have mid: "filter (\<lambda>x. inRange a b (k x)) xs = []" if "b < k x"
    using ge that by (fastforce simp: filter_empty_conv inRange_def)
  consider "k x < a" | "inRange a b (k x)" "a \<le> k x" | "b < k x" "a \<le> k x"
    using assms(2) by (fastforce simp: inRange_def)
  then show ?case
    by cases (use IH low mid assms(2) in \<open>auto simp: inRange_def\<close>)
qed simp

definition endOf :: "rat \<Rightarrow> wallet_tx_row list \<Rightarrow> rat" where
  "endOf b ts = (if ts = [] then b else t_balanceAfter (last ts))"

lemma chain_append: "chain b (xs @ ys) \<longleftrightarrow> chain b xs \<and> chain (endOf b xs) ys"
  by (induction xs arbitrary: b) (auto simp: endOf_def)

lemma endOf_sum: "chain b ts \<Longrightarrow> endOf b ts = b + sum_list (map t_amount ts)"
  using chain_sum [of b ts] by (simp add: endOf_def)

lemma sum_pos_neg:
  "sum_list (map f (filter (\<lambda>t. 0 < f t) ts)) + sum_list (map f (filter (\<lambda>t. f t < 0) ts))
     = sum_list (map f ts)" for f :: "'a \<Rightarrow> rat"
  by (induction ts) auto

lemma sum_neg: "sum_list (map f (filter (\<lambda>t. f t < 0) ts)) \<le> 0" for f :: "'a \<Rightarrow> rat"
  by (induction ts) auto

lemma is_cents_sum: "\<forall>t \<in> set ts. is_cents (f t) \<Longrightarrow> is_cents (sum_list (map f ts))"
  by (induction ts) auto

text \<open>The rows of a period are a stretch of the chain.\<close>

lemma movements_segment:
  assumes "chain 0 rows" and "sorted (map t_createdAt rows)" and "frm \<le> until"
    and "\<forall>t \<in> set rows. is_cents (t_amount t)"
    and "txs = filter (\<lambda>t. inRange frm until (t_createdAt t)) rows"
  shows "\<exists>b. chain b txs \<and> is_cents b \<and>
    endOf 0 rows = endOf b txs + sum_list (map t_amount (filter (\<lambda>t. until < t_createdAt t) rows))"
proof -
  let ?pre = "filter (\<lambda>t. t_createdAt t < frm) rows"
  let ?txs = "filter (\<lambda>t. inRange frm until (t_createdAt t)) rows"
  let ?later = "filter (\<lambda>t. until < t_createdAt t) rows"
  have split: "rows = ?pre @ ?txs @ ?later" using sorted_segments [OF assms(2,3)] .
  then have c: "chain 0 ?pre" "chain (endOf 0 ?pre) ?txs" "chain (endOf (endOf 0 ?pre) ?txs) ?later"
    using assms(1) chain_append by metis+
  have "endOf 0 rows = sum_list (map t_amount rows)" using endOf_sum [OF assms(1)] by simp
  also have "\<dots> = sum_list (map t_amount ?pre) + sum_list (map t_amount ?txs) + sum_list (map t_amount ?later)"
    by (subst split) (simp only: map_append sum_list.append add.assoc)
  also have "\<dots> = endOf (endOf 0 ?pre) ?txs + sum_list (map t_amount ?later)"
    using endOf_sum [OF c(1)] endOf_sum [OF c(2)] by simp
  finally have e: "endOf 0 rows = endOf (endOf 0 ?pre) ?txs + sum_list (map t_amount ?later)" .
  have "is_cents (endOf 0 ?pre)" using endOf_sum [OF c(1)] assms(4) by (simp add: is_cents_sum)
  with c(2) e show ?thesis unfolding assms(5) by blast
qed

lemma movementsIn_sorted:
  "sorted (map t_createdAt (ledgerOf i d)) \<Longrightarrow>
     movementsIn frm until i d = filter (\<lambda>t. inRange frm until (t_createdAt t)) (ledgerOf i d)"
  unfolding movementsIn_def orderAsc_def by (rule sort_key_id_if_sorted) (rule sorted_filter)

text \<open>What one wallet's review says, in terms of the stretch of the ledger it reads.\<close>

lemma reviewWallet_fields:
  assumes "chain b txs" and "is_cents b" and "\<forall>t \<in> set txs. is_cents (t_amount t)"
    and "is_cents (w_balance w)" and "movementsIn frm until (w_id w) d = txs" and "txs \<noteq> []"
    and "r = reviewWallet frm until d w"
  shows "wr_openingBalance r = b \<and> wr_closingBalance r = endOf b txs \<and>
    wr_openingBalance r + wr_totalCredited r - wr_totalDebited r = wr_closingBalance r \<and>
    wr_discrepancy r = w_balance w - endOf b txs \<and>
    (wr_ledgerConsistent r \<longleftrightarrow> endOf b txs = w_balance w) \<and> wr_movements r = length txs"
proof -
  let ?c = "sum_list (map t_amount (filter (\<lambda>t. 0 < t_amount t) txs))"
  let ?n = "sum_list (map t_amount (filter (\<lambda>t. t_amount t < 0) txs))"
  have first: "t_balanceBefore (txs ! 0) = b" using assms(1,6) by (cases txs) auto
  have closing: "t_balanceAfter (txs ! (length txs - 1)) = endOf b txs"
    using assms(6) by (simp add: endOf_def last_conv_nth)
  have sum: "endOf b txs = b + ?c + ?n" using endOf_sum [OF assms(1)] sum_pos_neg [of t_amount txs] by simp
  have cents: "is_cents ?c" "is_cents ?n" using assms(3) by (simp_all add: is_cents_sum)
  then have "is_cents (endOf b txs)" using sum assms(2) by simp
  then show ?thesis
    using assms(2,4,6) cents sum sum_neg [of t_amount txs] first closing
    by (simp add: assms(7) reviewWallet_def assms(5) Let_def)
qed

section \<open>Properties\<close>


definition sample_later_db :: db where
  "sample_later_db = sample_db\<lparr>wallet_txs := wallet_txs sample_db @
     [\<lparr>t_id = 5, t_wallet = 1, t_type = WITHDRAWAL, t_amount = - 30, t_balanceBefore = 100,
       t_balanceAfter = 70, t_currency = ''TZS'', t_reference = Some ''W1'', t_createdBy = None,
       t_createdAt = 10\<rparr>],
     wallets := updateWhere (\<lambda>w. w_id w = 1) (\<lambda>w. w\<lparr>w_balance := 70\<rparr>) (wallets sample_db), next_id := 6\<rparr>"


end
