(* ===== verification/System.thy ===== *)
theory System
  imports Api Book Admin
begin


text \<open>
  The platform as one state machine over the database: the requests of Api, the two provider webhooks,
  the workers of the job queue, the cron jobs and the administration. Every step, whatever its input
  and whether it succeeds or fails, keeps the ledgers, the fee schedules and the account tables
  well-formed.
\<close>

section \<open>The invariant\<close>

text \<open>The references by which providers name the rows.\<close>

definition refs :: "db \<Rightarrow> string list \<times> string list \<times> string list" where
  [simp]: "refs d = (map c_reference (collections d), map d_reference (deposits d), map p_reference (payouts d))"

definition refs_ok :: "db \<Rightarrow> bool" where
  "refs_ok d \<longleftrightarrow> (case refs d of (cs, ds, ps) \<Rightarrow> distinct cs \<and> distinct ds \<and> distinct ps)"

definition platform_ok :: "db \<Rightarrow> bool" where
  "platform_ok d \<longleftrightarrow> ledger_ok d \<and> fees_ok d \<and> account_wf d \<and> refs_ok d"

text \<open>The tables the invariant does not look at may change freely.\<close>

definition untouched :: "db \<Rightarrow> db \<Rightarrow> bool" where
  "untouched d d' \<longleftrightarrow> wallets d' = wallets d \<and> wallet_txs d' = wallet_txs d \<and> fee_configs d' = fee_configs d \<and>
     accounts d' = accounts d \<and> permissions d' = permissions d \<and> api_keys d' = api_keys d \<and>
     refs d' = refs d \<and> next_id d \<le> next_id d'"

lemma refs_ok_cong: "refs d' = refs d \<Longrightarrow> refs_ok d' = refs_ok d"
  by (simp add: refs_ok_def)

lemma untouched_ok:
  assumes "untouched d d'" and "platform_ok d"
  shows "platform_ok d'"
  using assms ledger_ok_cong [of d' d] account_wf_cong [of d' d] refs_ok_cong [of d' d]
  by (simp add: untouched_def platform_ok_def fees_ok_def del: refs_def)

lemma keeps_untouched: "(\<And>d. untouched d (snd (m d))) \<Longrightarrow> keeps platform_ok m"
  by (rule keepsI) (rule untouched_ok)

lemma keeps_modify_untouched: "(\<And>d. untouched d (g d)) \<Longrightarrow> keeps platform_ok (modify g)"
  by (rule keeps_untouched) simp

lemma keeps_parts:
  "keeps ledger_ok m \<Longrightarrow> keeps fees_ok m \<Longrightarrow> keeps account_wf m \<Longrightarrow> keeps refs_ok m \<Longrightarrow> keeps platform_ok m"
  by (simp add: keeps_def platform_ok_def)

lemma keeps_case_sum:
  "(\<And>x. keeps P (f x)) \<Longrightarrow> (\<And>y. keeps P (g y)) \<Longrightarrow> keeps P (case z of Inl x \<Rightarrow> f x | Inr y \<Rightarrow> g y)"
  by (simp split: sum.split)

lemma keeps_case_decimal:
  "(\<And>v. z = Fin v \<Longrightarrow> keeps P (f v)) \<Longrightarrow> keeps P m \<Longrightarrow> keeps P n \<Longrightarrow>
   keeps P (case z of Fin v \<Rightarrow> f v | NonFinite \<Rightarrow> m | Malformed \<Rightarrow> n)"
  by (cases z) simp_all

lemma keeps_case_bool: "keeps P m \<Longrightarrow> keeps P n \<Longrightarrow> keeps P (case b of True \<Rightarrow> m | False \<Rightarrow> n)"
  by (cases b) simp_all

lemmas keeps_more = keeps_rules keeps_case_sum keeps_case_bool keeps_modify_untouched

section \<open>Wallets\<close>

lemma wallets_complete_update:
  assumes "wallets_complete is ws" and f: "\<And>w. w_account (f w) = w_account w" "\<And>w. w_type (f w) = w_type w"
  shows "wallets_complete is (updateWhere p f ws)"
proof -
  have keys: "(\<lambda>w. (w_account w, w_type w)) ` set (updateWhere p f ws) = (\<lambda>w. (w_account w, w_type w)) ` set ws"
    and accts: "w_account ` set (updateWhere p f ws) = w_account ` set ws"
    using f by (simp_all add: image_updateWhere)
  have "\<exists>w \<in> set (updateWhere p f ws). w_account w = i \<and> w_type w = ty" if i: "i \<in> is" for i ty
  proof -
    obtain w where w: "w \<in> set ws" "w_account w = i" "w_type w = ty"
      using assms(1) i unfolding wallets_complete_def by blast
    then have "(i, ty) \<in> (\<lambda>w. (w_account w, w_type w)) ` set (updateWhere p f ws)"
      unfolding keys by (intro image_eqI [of _ _ w]) simp_all
    then show ?thesis by auto
  qed
  then show ?thesis using assms(1) accts by (simp add: wallets_complete_def)
qed

lemma account_wf_wallets:
  assumes "account_wf d" and "\<And>w. w_account (f w) = w_account w" "\<And>w. w_type (f w) = w_type w" and "next_id d \<le> n"
  shows "account_wf (d\<lparr>wallets := updateWhere p f (wallets d), wallet_txs := ts, next_id := n\<rparr>)"
    and "account_wf (d\<lparr>wallets := updateWhere p f (wallets d)\<rparr>)"
  using assms accounts_keyed_mono [OF _ assms(4), of "accounts d"] wallets_complete_update
  by (simp_all add: account_wf_def)

lemma account_wf_post: "account_wf d \<Longrightarrow> account_wf (post row d)"
  unfolding post_def by (rule account_wf_wallets) simp_all

lemma refs_post [simp]: "refs_ok (post row d) = refs_ok d"
  by (simp add: refs_ok_def post_def)

lemma fees_ok_post [simp]: "fees_ok (post row d) = fees_ok d"
  by (simp add: fees_ok_def post_def)

lemma keeps_move_cents:
  assumes "\<And>a. mv_amount inp = Fin a \<Longrightarrow> isDebitMove (mv_txType inp) a \<Longrightarrow> is_cents a"
  shows "keeps platform_ok (move e inp)"
proof (rule keepsI)
  fix d assume ok: "platform_ok d"
  then have l: "ledger_ok d" by (simp add: platform_ok_def)
  have "snd (move e inp d) = d \<or> (\<exists>row. snd (move e inp d) = post row d)"
    by (auto simp: move_run [OF ledger_keyed [OF l]] split: sum.split prod.split)
  then show "platform_ok (snd (move e inp d))"
    using ok ledger_ok_move [OF l assms] by (auto simp: platform_ok_def account_wf_post)
qed

lemma keeps_walletMove_cents: "is_cents v \<Longrightarrow> keeps platform_ok (walletMove e acct ty x v ref aty actor ig)"
  unfolding walletMove_def by (rule keeps_move_cents) auto

lemma keeps_walletMove_credit: "\<not> isDebitMove x v \<Longrightarrow> keeps platform_ok (walletMove e acct ty x v ref aty actor ig)"
  unfolding walletMove_def by (rule keeps_move_cents) auto

lemma keeps_holdMove: "keeps platform_ok (holdMove x e ref aty actor k (round2 v))"
  unfolding holdMove_def by (rule keeps_walletMove_cents) simp

lemma account_wf_fees: "account_wf (d\<lparr>fee_configs := fc\<rparr>) = account_wf d"
  by (simp add: account_wf_def)

lemma keeps_platform_getConfig: "keeps platform_ok (getConfig acct)"
  by (intro keeps_parts keeps_getConfig keeps_fees_ok_getConfig) (simp_all add: account_wf_fees refs_ok_def)

lemma keeps_platform_computeFee: "keeps platform_ok (computeFee kind acct v)"
  unfolding computeFee_def
  by (cases v) (auto intro!: keeps_rules keeps_platform_getConfig)



text \<open>The statements of a transfer, without the ledger.\<close>

definition tables_ok :: "db \<Rightarrow> bool" where
  "tables_ok d \<longleftrightarrow> fees_ok d \<and> account_wf d \<and> refs_ok d"

lemma tables_ok_wallets:
  "tables_ok d \<Longrightarrow> (\<And>w. w_account (f w) = w_account w) \<Longrightarrow> (\<And>w. w_type (f w) = w_type w) \<Longrightarrow>
     tables_ok (d\<lparr>wallets := updateWhere p f (wallets d)\<rparr>)"
  using account_wf_wallets(2) [OF _ _ _ order_refl, of d f p]
  by (simp add: tables_ok_def fees_ok_def refs_ok_def)

lemma tables_ok_frame:
  "fee_configs d' = fee_configs d \<Longrightarrow> accounts d' = accounts d \<Longrightarrow> wallets d' = wallets d \<Longrightarrow>
   permissions d' = permissions d \<Longrightarrow> api_keys d' = api_keys d \<Longrightarrow> refs d' = refs d \<Longrightarrow> next_id d \<le> next_id d' \<Longrightarrow>
   tables_ok d \<Longrightarrow> tables_ok d'"
  using account_wf_cong [of d' d] refs_ok_cong [of d' d] by (simp add: tables_ok_def fees_ok_def del: refs_def)

lemma keeps_transferTx: "keeps tables_ok (transferTx e acct s t v fee ref cref actor)"
proof -
  have debit: "keeps tables_ok (debitIfCovered i x)" for i x
    by (rule keepsI) (simp add: debitIfCovered_def tables_ok_wallets)
  have set: "keeps tables_ok (setWalletBalance i x)" for i x
    unfolding setWalletBalance_def by (rule keeps_modify) (simp add: tables_ok_wallets)
  have tx: "keeps tables_ok (createWalletTx e w ty x b a r ac)" for w ty x b a r ac
    by (rule keepsI, erule tables_ok_frame [rotated 7]) (simp_all add: createWalletTx_def Let_def)
  have row: "keeps tables_ok (createTransfer x)" for x
    by (rule keepsI, erule tables_ok_frame [rotated 7]) (simp_all add: createTransfer_def Let_def)
  show ?thesis unfolding transferTx_def
    by (intro keeps_rules debit set tx row)
qed

lemma keeps_tables_getConfig: "keeps tables_ok (getConfig acct)"
proof -
  have "keeps account_wf (getConfig acct)" by (rule keeps_getConfig) (simp add: account_wf_fees)
  moreover have "keeps refs_ok (getConfig acct)" by (rule keeps_getConfig) (simp add: refs_ok_def)
  ultimately show ?thesis using keeps_fees_ok_getConfig [of acct] by (simp add: keeps_def tables_ok_def)
qed

lemma keeps_tables_track: "keeps tables_ok (track e name acct x)"
  by (rule keepsI, erule tables_ok_frame [rotated 7]) (simp_all add: track_def)

lemma keeps_tables_transfer: "keeps tables_ok (transferCollectionToDisbursement e k dto actor)"
proof -
  have fee: "keeps tables_ok (computeTransferFee acct x)" for acct x
    unfolding computeTransferFee_def by (cases x) (auto intro!: keeps_rules keeps_tables_getConfig)
  show ?thesis unfolding transferCollectionToDisbursement_def getWallet_def
    by (intro keeps_rules keeps_case_decimal keeps_transferTx keeps_tables_track fee)
qed

lemma keeps_transfer:
  assumes "\<And>v. td_amount dto = Fin v \<Longrightarrow> is_cents v"
  shows "keeps platform_ok (transferCollectionToDisbursement e k dto actor)"
proof (rule keepsI)
  fix d assume ok: "platform_ok d"
  then have l: "ledger_ok d" and f: "fees_ok d" by (simp_all add: platform_ok_def)
  have keyed: "wallets_keyed d" using l by (rule ledger_keyed)
  obtain r d' where run: "transferCollectionToDisbursement e k dto actor d = (r, d')" by fastforce
  have "ledger_ok d'"
  proof (cases r)
    case (Inl err)
    then obtain fc where "d' = d\<lparr>fee_configs := fc\<rparr>" using transfer_Inl_frame keyed run by blast
    then show ?thesis using l by simp
  next
    case (Inr x)
    obtain acct s t v c fc an where
      spec: "transferSpec k dto d = Inr (acct, s, t, v)"
      and c: "getConfig acct d = (Inr c, d\<lparr>fee_configs := fc\<rparr>)"
      and cov: "v + feeAmount (transferFee c v) \<le> w_balance s"
      and d': "d' = (addTransfer x (transferPosted e s t v (feeAmount (transferFee c v))
                 (transferReference e) actor (d\<lparr>fee_configs := fc\<rparr>)))\<lparr>analytics := an\<rparr>"
      using transfer_Inr [OF keyed run [unfolded Inr]] by metis
    note sp = transferSpec_Inr [OF keyed spec]
    have fee: "0 \<le> feeAmount (transferFee c v)" "is_cents (feeAmount (transferFee c v))"
      using getConfig_result_ok [OF f c] sp(3)
      by (auto simp: transferFee_def fee_config_ok_def bps_ok_def intro: feeOf_nonneg)
    have "ledger_ok (transferPosted e s t v (feeAmount (transferFee c v)) (transferReference e) actor
        (d\<lparr>fee_configs := fc\<rparr>))"
      using l sp findWallet_in [OF sp(4)] findWallet_in [OF sp(5)] fee cov assms [OF sp(2)]
      by (intro transfer_legs(1)) simp_all
    then show ?thesis unfolding d' by (simp add: ledger_ok_addTransfer)
  qed
  moreover have "tables_ok d'"
    using keeps_runD [OF keeps_tables_transfer run] ok by (simp add: platform_ok_def tables_ok_def)
  ultimately show "platform_ok (snd (transferCollectionToDisbursement e k dto actor d))"
    using run by (simp add: platform_ok_def tables_ok_def)
qed

lemma keeps_platform_track: "keeps platform_ok (track e name acct x)"
  by (rule keeps_untouched) (simp add: track_def untouched_def)

lemma keeps_platform_audit: "keeps platform_ok (audit_record e actor acct action entity i)"
  by (rule keeps_untouched) (simp add: audit_record_def untouched_def)

lemma keeps_setFrozen: "keeps platform_ok (setFrozen e k ty b)"
proof -
  have "platform_ok (d\<lparr>wallets := updateWhere p (\<lambda>r. r\<lparr>w_status := s\<rparr>) (wallets d)\<rparr>)"
    if "platform_ok d" for d p s
    using that ledger_ok_status [of d p s] tables_ok_wallets [of d "\<lambda>r. r\<lparr>w_status := s\<rparr>" p]
    by (simp add: platform_ok_def tables_ok_def)
  then show ?thesis unfolding setFrozen_def getWallet_def
    by (intro keeps_rules keeps_platform_track keeps_modify)
qed


named_theorems keeps_platform "preservation of the invariant of the platform, one rule per operation"

lemmas [keeps_platform] = keeps_platform_getConfig keeps_platform_computeFee keeps_platform_track
  keeps_platform_audit keeps_setFrozen keeps_holdMove

section \<open>The status engine\<close>

lemma untouched_upd [simp]:
  "(\<And>r. c_reference (f r) = c_reference r) \<Longrightarrow> untouched d (updateCollection i f d)"
  "(\<And>r. d_reference (g r) = d_reference r) \<Longrightarrow> untouched d (updateDeposit i g d)"
  "(\<And>r. p_reference (h r) = p_reference r) \<Longrightarrow> untouched d (updatePayout i h d)"
  "untouched d (updateLink i l d)"
  by (simp_all add: untouched_def updateCollection_def updateDeposit_def updatePayout_def updateLink_def
      map_updateWhere)

lemma keeps_platform_dispatch [keeps_platform]: "keeps platform_ok (dispatch e event acct reference data)"
  by (rule keeps_dispatch, erule untouched_ok [rotated]) (simp add: untouched_def)

lemma keeps_toDecimal [keeps_platform]: "keeps P (toDecimal x)"
  unfolding toDecimal_def by (auto intro!: keeps_rules split: option.split decimal.split)

lemma keeps_credits [keeps_platform]:
  "keeps platform_ok (collectionCreditMove e c u fee)" "keeps platform_ok (depositCreditMove e r v)"
  "keeps platform_ok (refundPayout e p)"
  unfolding collectionCreditMove_def depositCreditMove_def refundPayout_def refundMove_def
  by (rule keeps_walletMove_credit, simp add: isDebitMove_def DEBIT_TYPES_def)+

lemma keeps_platform_collection [keeps_platform]: "keeps platform_ok (applyCollectionUpdate e ref rc)"
  unfolding applyCollectionUpdate_def collectionFee_def Let_def
  by (intro keeps_more keeps_platform untouched_upd) (simp add: collectionPatch_def)

lemma keeps_platform_deposit [keeps_platform]: "keeps platform_ok (applyDepositUpdate e ref rc)"
  unfolding applyDepositUpdate_def Let_def
  by (intro keeps_more keeps_platform untouched_upd) (simp add: depositPatch_def)

lemma keeps_platform_counters [keeps_platform]: "keeps platform_ok (updateBatchCounters e i)"
  unfolding updateBatchCounters_def
  by (intro keeps_more keeps_platform) (simp add: untouched_def)

lemma keeps_platform_payout [keeps_platform]: "keeps platform_ok (applyPayoutUpdate e ref rc)"
  unfolding applyPayoutUpdate_def payoutDispatch_def Let_def
  by (intro keeps_more keeps_platform untouched_upd) (simp add: payoutPatch_def)

lemma keeps_platform_clickpesa [keeps_platform]: "keeps platform_ok (clickpesaWebhook hm dec e body)"
  unfolding clickpesaWebhook_def applyWebhook_def ignored_def
  by (intro keeps_more keeps_platform)

lemma keeps_platform_beem [keeps_platform]: "keeps platform_ok (beemWebhook e body)"
  unfolding beemWebhook_def
  by (intro keeps_more keeps_platform) (simp_all add: untouched_def)

section \<open>Money in\<close>

lemma platform_ok_rows:
  assumes "platform_ok d" and "next_id d \<le> n"
  shows "c_reference c \<notin> c_reference ` set (collections d) \<Longrightarrow>
           platform_ok (d\<lparr>collections := collections d @ [c], next_id := n\<rparr>)"
    and "d_reference r \<notin> d_reference ` set (deposits d) \<Longrightarrow>
           platform_ok (d\<lparr>deposits := deposits d @ [r], next_id := n\<rparr>)"
    and "distinct (map p_reference ps) \<Longrightarrow> \<forall>p \<in> set ps. p_reference p \<notin> p_reference ` set (payouts d) \<Longrightarrow>
           platform_ok (d\<lparr>batches := bs, payouts := payouts d @ ps, next_id := n\<rparr>)"
proof -
  have other: "ledger_ok d'" "fees_ok d'" "account_wf d'"
    if "wallets d' = wallets d" "wallet_txs d' = wallet_txs d" "fee_configs d' = fee_configs d"
      "accounts d' = accounts d" "permissions d' = permissions d" "api_keys d' = api_keys d" "next_id d' = n" for d'
    using assms that ledger_ok_cong [of d' d] account_wf_cong [of d' d]
    by (simp_all add: platform_ok_def fees_ok_def)
  have refs: "refs_ok d" using assms(1) by (simp add: platform_ok_def)
  show "platform_ok (d\<lparr>collections := collections d @ [c], next_id := n\<rparr>)"
    if "c_reference c \<notin> c_reference ` set (collections d)"
    unfolding platform_ok_def by (intro conjI other) (use refs that in \<open>simp_all add: refs_ok_def\<close>)
  show "platform_ok (d\<lparr>deposits := deposits d @ [r], next_id := n\<rparr>)"
    if new: "d_reference r \<notin> d_reference ` set (deposits d)"
  proof -
    have "refs_ok (d\<lparr>deposits := deposits d @ [r], next_id := n\<rparr>)"
      using refs new by (simp add: refs_ok_def)
    moreover have "ledger_ok (d\<lparr>deposits := deposits d @ [r], next_id := n\<rparr>)"
      by (rule other(1)) simp_all
    moreover have "fees_ok (d\<lparr>deposits := deposits d @ [r], next_id := n\<rparr>)"
      by (rule other(2)) simp_all
    moreover have "account_wf (d\<lparr>deposits := deposits d @ [r], next_id := n\<rparr>)"
      by (rule other(3)) simp_all
    ultimately show ?thesis by (simp only: platform_ok_def)
  qed
  assume ps: "distinct (map p_reference ps)" "\<forall>p \<in> set ps. p_reference p \<notin> p_reference ` set (payouts d)"
  have new: "p_reference ` set (payouts d) \<inter> p_reference ` set ps = {}"
  proof -
    have "x \<notin> p_reference ` set (payouts d)" if "x \<in> p_reference ` set ps" for x
      using that ps(2) by (elim imageE) simp
    then show ?thesis by blast
  qed
  have "distinct (map p_reference (payouts d @ ps))"
    unfolding map_append distinct_append set_map
    using refs ps(1) new by (simp only: refs_ok_def refs_def prod.case simp_thms)
  then have "refs_ok (d\<lparr>batches := bs, payouts := payouts d @ ps, next_id := n\<rparr>)"
    using refs by (simp add: refs_ok_def del: map_append)
  then show "platform_ok (d\<lparr>batches := bs, payouts := payouts d @ ps, next_id := n\<rparr>)"
    unfolding platform_ok_def by (intro conjI other) simp_all
qed

lemma keeps_createRow [keeps_platform]:
  "keeps platform_ok (createCollection mc)" "keeps platform_ok (createDeposit md)"
  "keeps platform_ok (insertPayout mp)" "keeps platform_ok (enqueue e q payload delay)"
proof -
  show "keeps platform_ok (createCollection mc)"
    by (rule keepsI) (simp add: createCollection_def Let_def platform_ok_rows(1))
  show "keeps platform_ok (createDeposit md)"
    by (rule keepsI) (simp add: createDeposit_def Let_def platform_ok_rows(2))
  show "keeps platform_ok (insertPayout mp)"
  proof (rule keepsI)
    fix d assume "platform_ok d"
    then show "platform_ok (snd (insertPayout mp d))"
      using platform_ok_rows(3) [of d "Suc (next_id d)" "[mp (next_id d)]" "batches d"]
      by (simp add: insertPayout_def Let_def)
  qed
  show "keeps platform_ok (enqueue e q payload delay)"
    by (rule keeps_untouched) (simp add: enqueue_def Let_def untouched_def)
qed

lemma keeps_initiate [keeps_platform]:
  "keeps platform_ok (initiateCollection e rail acct dto)" "keeps platform_ok (initiateDeposit e rail acct dto)"
  unfolding initiateCollection_def initiateDeposit_def
  by (intro keeps_more keeps_platform untouched_upd; simp)+

lemma keeps_refresh [keeps_platform]:
  "keeps platform_ok (refreshCollection e rail acct ref)" "keeps platform_ok (refreshDeposit e rail acct ref)"
  unfolding refreshCollection_def refreshDeposit_def getCollection_def getDeposit_def
  by (intro keeps_more keeps_platform)+

lemma keeps_poll [keeps_platform]:
  "keeps platform_ok (pollPendingCollections e rail)" "keeps platform_ok (pollPendingDeposits e rail)"
  unfolding pollPendingCollections_def pollPendingDeposits_def pollCollection_def pollDeposit_def
  by (intro keeps_more keeps_platform)+

section \<open>Money out\<close>

lemma keeps_amounts [keeps_platform]: "keeps P (finiteAmount a)" "keeps P (positiveAmount a)" "keeps P (validPhone p)"
  unfolding positiveAmount_def finiteAmount_def validPhone_def
  by (auto intro!: keeps_rules split: decimal.split option.split)

lemma keeps_createPayout [keeps_platform]: "keeps platform_ok (createPayout e acct ch dto)"
  unfolding createPayout_def storePayout_def by (intro keeps_more keeps_platform)

lemma keeps_sumAmounts [keeps_platform]: "keeps P (sumAmounts its acc)"
  by (induction its arbitrary: acc) (auto intro!: keeps_rules keeps_amounts)

lemma keeps_batchTx [keeps_platform]: "keeps platform_ok (batchTx e acct code dto ref total_amount)"
  by (rule keepsI) (auto simp: batchTx_def Let_def intro: platform_ok_rows(3) split: sum.split)

lemma keeps_createBatch [keeps_platform]: "keeps platform_ok (createBatch e acct dto)"
  unfolding createBatch_def by (intro keeps_more keeps_platform)

lemma keeps_createPayoutLink [keeps_platform]: "keeps platform_ok (createPayoutLink sha tok e acct amt m)"
  unfolding createPayoutLink_def
  by (intro keeps_more keeps_platform keeps_untouched) (simp add: untouched_def Let_def)

lemma keeps_consumeLink [keeps_platform]: "keeps platform_ok (consumeLink e hash r)"
  unfolding consumeLink_def by (intro keeps_more untouched_upd)

lemma keeps_confirmPayoutLink [keeps_platform]: "keeps platform_ok (confirmPayoutLink sha e rail tok p m)"
  unfolding confirmPayoutLink_def resolvePayoutLinkRecipient_def findActivePayoutLink_def
  by (intro keeps_more keeps_platform untouched_upd)

lemma keeps_payoutJobs [keeps_platform]:
  "keeps platform_ok (processPayoutJob e rail i)" "keeps platform_ok (processBatchJob e rail ids)"
  "keeps platform_ok (pollPendingPayouts e rail)"
  unfolding processPayoutJob_def processBatchJob_def processBatchItem_def pollPendingPayouts_def pollPayout_def
    ignored_def Let_def
  by (intro keeps_more keeps_platform)+


section \<open>Settlements\<close>

lemma keeps_lookups [keeps_platform]:
  "keeps P (sourceCode acct)" "keeps P (getDefaultSettlementAccount acct)" "keeps P (chosenSettlement acct choice)"
  unfolding chosenSettlement_def getDefaultSettlementAccount_def sourceCode_def
  by (intro keeps_rules)+

lemma keeps_settle [keeps_platform]: "keeps platform_ok (settle e acct aty actor ref x mk ev v)"
  unfolding settle_def by (intro keeps_more keeps_platform)

lemma keeps_withdrawal [keeps_platform]:
  "keeps platform_ok (createWithdrawal e acct dto aty actor)" "keeps platform_ok (sweepNow e k)"
  unfolding createWithdrawal_def sweepNow_def runAutoSweepSubset_def
  by (intro keeps_more keeps_platform)+

lemma keeps_sweepLoop: "keeps platform_ok (sweepLoop e tz dry n as r)"
proof (induction as arbitrary: n r)
  case (Cons a as)
  have "keeps platform_ok (sweepCaught e tz dry n a)"
    unfolding sweepCaught_def sweepAccount_def by (intro keeps_more keeps_platform)
  then show ?case by (auto intro: keeps_andThen Cons)
qed (simp add: keeps_ret)

lemma keeps_autoSweep [keeps_platform]: "keeps platform_ok (runAutoSweep e tz dry)"
  unfolding runAutoSweep_def by (intro keeps_more keeps_sweepLoop)

lemma keeps_upsertSettlement [keeps_platform]: "keeps platform_ok (upsertSettlementAccount e k input dflt)"
  unfolding upsertSettlementAccount_def clearDefaults_def
  by (intro keeps_more keeps_untouched) (simp_all add: untouched_def Let_def)

lemma keeps_updateSettlement [keeps_platform]: "keeps platform_ok (updateSettlementAccount k i p)"
  unfolding updateSettlementAccount_def clearDefaults_def
  by (intro keeps_more) (simp_all add: untouched_def)

section \<open>SMS, billing, staff, endpoints\<close>

lemma keeps_sendSms [keeps_platform]: "keeps platform_ok (sendSms e acct dto)"
proof -
  have "keeps platform_ok (insertSms mk)" for mk
    by (rule keeps_untouched) (simp add: insertSms_def Let_def untouched_def)
  moreover have "keeps platform_ok (resolveSender e acct s)" for s
    unfolding resolveSender_def by (intro keeps_more)
  moreover have "keeps platform_ok (maybeIssuePaygBill e acct n ref)" for n ref
    unfolding maybeIssuePaygBill_def by (intro keeps_more) (simp add: untouched_def)
  ultimately show ?thesis unfolding sendSms_def by (intro keeps_more keeps_platform)
qed

lemma untouched_sms [simp]: "untouched d (updateSms p f d)" "untouched d (recoverStale e d)"
  by (simp_all add: updateSms_def recoverStale_def untouched_def)

lemma keeps_processSendJob [keeps_platform]: "keeps platform_ok (processSendJob e rail i)"
proof -
  have "keeps platform_ok (claimSms e j)" for j
    by (rule keeps_untouched) (simp add: claimSms_def Let_def)
  then show ?thesis unfolding processSendJob_def recordSend_def
    by (intro keeps_more keeps_platform untouched_sms)
qed

lemma keeps_syncReports [keeps_platform]: "keeps platform_ok (syncDeliveryReports e rail)"
proof -
  have "keeps platform_ok (pullReports e rail m rs acc)" for m rs acc
    by (induction rs arbitrary: acc) (auto intro!: keeps_more keeps_platform split: option.split)
  then show ?thesis unfolding syncDeliveryReports_def syncSms_def
    by (intro keeps_more keeps_platform untouched_sms)
qed

lemma keeps_insertBill [keeps_platform]: "keeps platform_ok (insertBill mk)"
  by (rule keeps_untouched) (simp add: insertBill_def untouched_def)

lemma keeps_decimal [keeps_platform]: "keeps P (decimalColumn a)"
  by (rule keeps_decimalColumn)

lemma keeps_accountRow:
  assumes "\<And>a. a_id (f a) = a_id a \<and> a_accountId (f a) = a_accountId a \<and> a_sourceCode (f a) = a_sourceCode a"
  shows "keeps platform_ok (updateAccountRow i f)"
proof -
  have "ledger_ok (d\<lparr>accounts := as\<rparr>) = ledger_ok d" for d as
    by (simp add: ledger_ok_def wallets_keyed_def wallet_ledger_ok_def ledgerOf_def)
  then have "keeps ledger_ok (updateAccountRow i f)" "keeps fees_ok (updateAccountRow i f)"
      "keeps refs_ok (updateAccountRow i f)"
    unfolding updateAccountRow_def by (intro keeps_rules keeps_modify; simp add: fees_ok_def refs_ok_def)+
  then show ?thesis using keeps_updateAccountRow [OF assms] by (blast intro: keeps_parts)
qed

lemma keeps_billing [keeps_platform]:
  "keeps platform_ok (createPlan e pdto admin)" "keeps platform_ok (assignPlan e k pid admin)"
  "keeps platform_ok (createBill e k bdto admin)" "keeps platform_ok (markBillPaid e k bid admin)"
  "keeps platform_ok (runRecurringBilling e)"
proof -
  have up: "keeps platform_ok (upsertAccountPlan acct plan t)" for acct plan t
    by (rule keeps_untouched) (simp add: upsertAccountPlan_def Let_def untouched_def split: option.split)
  show "keeps platform_ok (createPlan e pdto admin)" unfolding createPlan_def
    by (intro keeps_more keeps_platform) (simp add: untouched_def)
  show "keeps platform_ok (assignPlan e k pid admin)" unfolding assignPlan_def
    by (intro keeps_more keeps_platform up keeps_accountRow) simp
  show "keeps platform_ok (createBill e k bdto admin)" unfolding createBill_def
    by (intro keeps_more keeps_platform)
  show "keeps platform_ok (markBillPaid e k bid admin)" unfolding markBillPaid_def
    by (intro keeps_more keeps_platform) (simp add: untouched_def)
  show "keeps platform_ok (runRecurringBilling e)" unfolding runRecurringBilling_def billPlan_def
    by (intro keeps_more keeps_platform) (simp add: untouched_def)
qed

lemma keeps_createStaff [keeps_platform]: "keeps platform_ok (createStaff e h dto admin)"
  unfolding createStaff_def by (intro keeps_more keeps_platform) (simp add: untouched_def)

lemma keeps_endpoints [keeps_platform]:
  "keeps platform_ok (createEndpoint e secret acct url evs)" "keeps platform_ok (updateEndpoint acct i u es)"
  "keeps platform_ok (removeEndpoint acct i)"
  unfolding createEndpoint_def updateEndpoint_def removeEndpoint_def
  by (intro keeps_more keeps_untouched; simp add: untouched_def Let_def)+

lemma keeps_deliver [keeps_platform]: "keeps platform_ok (deliverJob e dw i)" "keeps platform_ok (sweepDueRetries e)"
proof -
  have "keeps platform_ok (updateDelivery j f)" for j f
    by (rule keeps_untouched) (simp add: updateDelivery_def untouched_def)
  then show "keeps platform_ok (deliverJob e dw i)" unfolding deliverJob_def
    by (intro keeps_more keeps_platform)
  show "keeps platform_ok (sweepDueRetries e)" unfolding sweepDueRetries_def
    by (intro keeps_more keeps_platform)
qed


section \<open>Accounts and fees\<close>

lemma bps_valid_clamped: "bps_valid (clampedPatch p)"
  by (auto simp: bps_valid_def patched_bps_def clampedPatch_def clampBps_def split: option.splits if_splits)

lemma keeps_fees_accountTx: "keeps fees_ok (accountTx e dto code pub st admin)"
proof -
  have frame: "keeps fees_ok m" if "\<And>d. fee_configs (snd (m d)) = fee_configs d" for m :: "(db, 'x) action"
    by (rule keepsI) (simp add: fees_ok_def that)
  have ins: "keeps fees_ok (insertAccount mk)" "keeps fees_ok (createWallets i)" "keeps fees_ok (createPermissions i admin)" for mk i
    by (rule frame, simp add: insertAccount_def createWallets_def createPermissions_def Let_def)+
  have store: "keeps fees_ok (modify (\<lambda>d. d\<lparr>settlements := f d, next_id := g d\<rparr>))" for f g
    by (rule frame) simp
  have fees: "keeps fees_ok (onboardingFees i p)" for i p
  proof -
    have "keeps fees_ok (createFeeConfig (applyFeePatch (clampedPatch p) ct dt (default_fee_config i)))" for ct dt
      by (rule keepsI) (auto simp: createFeeConfig_def fees_ok_def
          intro: applyFeePatch_ok default_fee_config_ok bps_valid_clamped)
    then show ?thesis unfolding onboardingFees_def by (intro keeps_rules keeps_toDecimal)
  qed
  show ?thesis unfolding accountTx_def by (intro keeps_rules ins store fees)
qed

lemma issueApiKey_frame:
  "wallets (snd (issueApiKey h b e k n admin d)) = wallets d \<and>
   wallet_txs (snd (issueApiKey h b e k n admin d)) = wallet_txs d \<and>
   fee_configs (snd (issueApiKey h b e k n admin d)) = fee_configs d \<and>
   refs (snd (issueApiKey h b e k n admin d)) = refs d \<and>
   next_id d \<le> next_id (snd (issueApiKey h b e k n admin d))"
  by (cases "resolveAccountId k d")
    (simp_all add: issueApiKey_def run Let_def audit_record_def andThen_def [of "\<lambda>d. if _ d then _ d else _ d"] ret_run)

lemma keeps_issueKey [keeps_platform]: "keeps platform_ok (issueApiKey h b e k n admin)"
proof (rule keepsI)
  fix d assume ok: "platform_ok d"
  have "ledger_ok (snd (issueApiKey h b e k n admin d))" "fees_ok (snd (issueApiKey h b e k n admin d))"
      "refs_ok (snd (issueApiKey h b e k n admin d))"
    using ok issueApiKey_frame [of h b e k n admin d] ledger_ok_cong [of "snd (issueApiKey h b e k n admin d)" d]
      refs_ok_cong [of "snd (issueApiKey h b e k n admin d)" d]
    by (simp_all add: platform_ok_def fees_ok_def del: refs_def)
  then show "platform_ok (snd (issueApiKey h b e k n admin d))"
    using keepsD [OF keeps_issueApiKey] ok by (simp add: platform_ok_def)
qed

lemma keeps_refs_account: "keeps refs_ok (createAccount h r e dto admin)"
proof -
  have frame: "keeps refs_ok m" if "\<And>d. refs (snd (m d)) = refs d" for m :: "(db, 'x) action"
    by (rule keepsI) (metis refs_ok_cong that)
  have ins: "keeps refs_ok (insertAccount mk)" "keeps refs_ok (createWallets i)" "keeps refs_ok (createPermissions i admin)"
    "keeps refs_ok (createFeeConfig c)" "keeps refs_ok (issueApiKey h b e k n admin)" for mk i c b k n
    using issueApiKey_frame [of h b e k n admin]
    by (intro frame, simp add: insertAccount_def createWallets_def createPermissions_def createFeeConfig_def Let_def)+
  have other: "keeps refs_ok (modify (\<lambda>d. d\<lparr>settlements := f d, next_id := g d\<rparr>))"
    "keeps refs_ok (uniqueSourceCode rnd)" "keeps refs_ok (audit_record e admin ac act en i)"
    "keeps refs_ok (track e nm ac' x)" for f g rnd ac act en i nm ac' x
    by (rule frame, simp add: uniqueSourceCode_def audit_record_def track_def liftE_def ret_def raise_def split: sum.split)+
  have fees: "keeps refs_ok (onboardingFees i p)" for i p
    unfolding onboardingFees_def by (intro keeps_rules keeps_toDecimal ins)
  show ?thesis unfolding createAccount_def accountTx_def
    by (intro keeps_rules ins other fees)
qed

lemma keeps_openAccount [keeps_platform]: "keeps platform_ok (createAccount h r e dto admin)"
proof (rule keepsI)
  fix d assume ok: "platform_ok d"
  let ?pub = "''ACC-'' @ createRandomId (ad_id r) 8"
  have wf: "account_wf (snd (createAccount h r e dto admin d))"
    by (rule keepsD [OF keeps_createAccount]) (use ok in \<open>simp add: platform_ok_def\<close>)
  have rest: "ledger_ok (snd (createAccount h r e dto admin d)) \<and> fees_ok (snd (createAccount h r e dto admin d))"
  proof (cases "\<exists>code st. uniqueSourceCodeLoop 25 (ad_code r) 0 d = Inr code \<and> onboardingChecks dto = Inr st")
    case False
    then show ?thesis using ok by (auto simp: createAccount_run platform_ok_def split: sum.splits)
  next
    case True
    then obtain code st where c: "uniqueSourceCodeLoop 25 (ad_code r) 0 d = Inr code"
      and st: "onboardingChecks dto = Inr st" by blast
    obtain q d1 where q: "transaction (accountTx e dto code ?pub st admin) d = (q, d1)" by fastforce
    have f1: "fees_ok d1"
      by (rule keeps_runD [OF keeps_transaction [OF keeps_fees_accountTx] q]) (use ok in \<open>simp add: platform_ok_def\<close>)
    have l1: "ledger_ok d1"
    proof (cases q)
      case (Inl err)
      then show ?thesis using transaction_Inl [OF q [unfolded Inl]] ok by (simp add: platform_ok_def)
    next
      case (Inr a)
      then have "accountTx e dto code ?pub st admin d = (Inr a, d1)" using q by (simp add: transaction_Inr)
      from accountTx_Inr [OF this] show ?thesis using opened_ledger [of d] ok by (auto simp: platform_ok_def)
    qed
    have keep: "ledger_ok d2 \<and> fees_ok d2 \<Longrightarrow>
        ledger_ok (snd (track e nm x None (snd (audit_record e admin ac act en i d2)))) \<and>
        fees_ok (snd (track e nm x None (snd (audit_record e admin ac act en i d2))))" for d2 nm x ac act en i
      by (simp add: track_def audit_record_def fees_ok_def)
    have key: "ledger_ok (snd (issueApiKey h (ad_key r) e k n admin d1)) \<and>
        fees_ok (snd (issueApiKey h (ad_key r) e k n admin d1))" for k n
      using l1 f1 issueApiKey_frame [of h "ad_key r" e k n admin d1]
        ledger_ok_cong [of "snd (issueApiKey h (ad_key r) e k n admin d1)" d1]
      by (simp add: fees_ok_def)
    show ?thesis
    proof (cases q)
      case (Inl err)
      then show ?thesis using c st q l1 f1 by (simp add: createAccount_run)
    next
      case (Inr a)
      obtain z d2 where z: "issueApiKey h (ad_key r) e (RowId (a_id a)) ''default'' admin d1 = (z, d2)" by fastforce
      then have "ledger_ok d2 \<and> fees_ok d2" using key [of "RowId (a_id a)" "''default''"] by simp
      then show ?thesis using c st q z Inr keep by (cases z) (simp_all add: createAccount_run)
    qed
  qed
  have "refs_ok (snd (createAccount h r e dto admin d))"
    by (rule keepsD [OF keeps_refs_account]) (use ok in \<open>simp add: platform_ok_def\<close>)
  then show "platform_ok (snd (createAccount h r e dto admin d))" using wf rest by (simp add: platform_ok_def)
qed

lemma keeps_profile [keeps_platform]:
  "keeps platform_ok (updateAccount e k patch admin)" "keeps platform_ok (suspendAccount e k reason admin)"
  "keeps platform_ok (activateAccount e k admin)" "keeps platform_ok (setAutoSweep k b)"
proof -
  show "keeps platform_ok (updateAccount e k patch admin)" unfolding updateAccount_def getEntity_def
    by (intro keeps_more keeps_platform keeps_accountRow) (simp add: updatedAccount_def)
  show "keeps platform_ok (suspendAccount e k reason admin)" unfolding suspendAccount_def getEntity_def
    by (intro keeps_more keeps_platform keeps_accountRow) simp
  show "keeps platform_ok (activateAccount e k admin)" unfolding activateAccount_def getEntity_def
    by (intro keeps_more keeps_platform keeps_accountRow) simp
  have "setAutoSweep k b = andThen (fetch (NotFound NOT_FOUND) (resolveAccountId k))
      (\<lambda>acct. updateAccountRow acct (\<lambda>a. a\<lparr>a_autoSweep := b\<rparr>))"
    by (simp add: setAutoSweep_def updateAccountRow_def)
  then show "keeps platform_ok (setAutoSweep k b)"
    by (simp only:) (intro keeps_more keeps_accountRow, simp)
qed

text \<open>The ledgers and the fee schedules, for the operations that change neither.\<close>

definition books_ok :: "db \<Rightarrow> bool" where
  "books_ok d \<longleftrightarrow> ledger_ok d \<and> fees_ok d \<and> refs_ok d"

lemma keeps_books: "(\<And>d. wallets (g d) = wallets d \<and> wallet_txs (g d) = wallet_txs d \<and>
    fee_configs (g d) = fee_configs d \<and> refs (g d) = refs d \<and> next_id d \<le> next_id (g d)) \<Longrightarrow>
    keeps books_ok (modify g)"
  by (rule keeps_modify) (metis books_ok_def fees_ok_def ledger_ok_cong refs_ok_cong)

lemma keeps_books_parts: "keeps books_ok m \<Longrightarrow> keeps account_wf m \<Longrightarrow> keeps platform_ok m"
  by (simp add: keeps_def books_ok_def platform_ok_def)

lemma keeps_keys [keeps_platform]:
  "keeps platform_ok (revokeApiKey e k i admin)" "keeps platform_ok (setPermissions e k items admin)"
proof -
  have aud: "keeps books_ok (audit_record e actor acct action entity j)" for actor acct action entity j
    unfolding audit_record_def by (rule keeps_books) simp
  have up: "keeps books_ok (upsertPermission acct admin it)" for acct it
    unfolding upsertPermission_def by (rule keeps_books) simp
  show "keeps platform_ok (revokeApiKey e k i admin)"
    by (rule keeps_books_parts [OF _ keeps_revokeApiKey], unfold revokeApiKey_def)
      (intro keeps_more aud keeps_books, simp)
  show "keeps platform_ok (setPermissions e k items admin)"
    by (rule keeps_books_parts [OF _ keeps_setPermissions], unfold setPermissions_def)
      (intro keeps_more aud up)
qed

lemma keeps_updateConfig [keeps_platform]: "keeps platform_ok (updateConfig acct p)"
proof (rule keepsI)
  fix d assume ok: "platform_ok d"
  have "snd (updateConfig acct p d) = snd (getConfig acct d) \<or>
      (bps_valid p \<and> (\<exists>ct dt. snd (updateConfig acct p d) = patchRow acct p ct dt (snd (getConfig acct d))))"
  proof (cases acct d rule: getConfig_cases)
    case (existing c)
    then show ?thesis by (auto simp: updateConfig_run [OF existing(2,1)] split: option.split)
  next
    case fresh
    obtain c d1 where "getConfig acct d = (Inr c, d1)" "findFeeConfig acct d1 = Some c"
      by (rule getConfig_found [OF fresh(2)]) (rule that)
    then show ?thesis by (auto simp: updateConfig_run split: option.split)
  next
    case missing
    then show ?thesis by (simp add: updateConfig_def andThen_def)
  qed
  moreover have "platform_ok (snd (getConfig acct d))" by (rule keepsD [OF keeps_platform_getConfig ok])
  ultimately show "platform_ok (snd (updateConfig acct p d))"
    by (auto simp: platform_ok_def fees_ok_patchRow account_wf_fees)
      (auto simp: patchRow_def account_wf_fees refs_ok_def)
qed


section \<open>The seed\<close>

record seed_vars =
  sd_email :: "string option"
  sd_password :: "string option"
  sd_name :: "string option"
  sd_sender :: "string option"

definition seedAdmin :: "env \<Rightarrow> (string \<Rightarrow> string) \<Rightarrow> seed_vars \<Rightarrow> (db, unit) action" where
  "seedAdmin e hashPassword v = modify (\<lambda>d.
     let email = toLowerCase (orElse (sd_email v) ''admin@zoostudios.internal'') in
     if email \<in> s_email ` set (staff d) then d
     else d\<lparr>staff := staff d @ [\<lparr>s_id = next_id d, s_email = email,
              s_passwordHash = hashPassword (orElse (sd_password v) ''ChangeMe!2025''),
              s_name = orElse (sd_name v) ''Platform Admin'', s_role = RoleADMIN, s_isActive = True,
              s_createdAt = now e\<rparr>], next_id := Suc (next_id d)\<rparr>)"

definition seedSender :: "seed_vars \<Rightarrow> (db, unit) action" where
  "seedSender v = modify (\<lambda>d.
     let name = toUpperCase (orElse (sd_sender v) ''ZOOINFO'') in
     if \<exists>s \<in> set (senders d). sn_account s = None \<and> sn_name s = name then d
     else d\<lparr>senders := senders d @ [\<lparr>sn_id = next_id d, sn_account = None, sn_name = name, sn_type = SenderSHARED,
              sn_isApproved = True\<rparr>],
            next_id := Suc (next_id d)\<rparr>)"

definition seedPlan :: "env \<Rightarrow> (db, unit) action" where
  "seedPlan e = modify (\<lambda>d.
     if ''Starter TZ'' \<in> pl_name ` set (plans d) then d
     else d\<lparr>plans := plans d @ [\<lparr>pl_id = next_id d, pl_name = ''Starter TZ'',
              pl_description = Some ''Entry plan: money collection + SMS (30 days)'',
              pl_services = [SvcCOLLECTION, SvcSMS], pl_recurringAmount = 75000, pl_periodDays = 30,
              pl_isActive = True, pl_createdAt = now e\<rparr>], next_id := Suc (next_id d)\<rparr>)"

definition seed :: "env \<Rightarrow> (string \<Rightarrow> string) \<Rightarrow> seed_vars \<Rightarrow> (db, unit) action" where
  "seed e hashPassword v = thenDo (seedAdmin e hashPassword v) (thenDo (seedSender v) (seedPlan e))"

lemma keeps_seed [keeps_platform]: "keeps platform_ok (seed e h v)"
  unfolding seed_def seedAdmin_def seedSender_def seedPlan_def
  by (intro keeps_more; simp add: untouched_def Let_def)

text \<open>A row that is there is left alone.\<close>

lemma seedAdmin_there:
  "toLowerCase (orElse (sd_email v) ''admin@zoostudios.internal'') \<in> s_email ` set (staff d) \<Longrightarrow>
     seedAdmin e h v d = (Inr (), d)"
  by (simp add: seedAdmin_def)

lemma seedSender_there:
  "\<exists>s \<in> set (senders d). sn_account s = None \<and> sn_name s = toUpperCase (orElse (sd_sender v) ''ZOOINFO'') \<Longrightarrow>
     seedSender v d = (Inr (), d)"
  by (simp add: seedSender_def)

lemma seedPlan_there: "''Starter TZ'' \<in> pl_name ` set (plans d) \<Longrightarrow> seedPlan e d = (Inr (), d)"
  by (simp add: seedPlan_def)

lemma seed_run: "seed e h v d = (Inr (), snd (seedPlan e (snd (seedSender v (snd (seedAdmin e h v d))))))"
  by (simp add: seed_def seedAdmin_def seedSender_def seedPlan_def andThen_def del: orElse_def)

lemma seed_rows:
  "toLowerCase (orElse (sd_email v) ''admin@zoostudios.internal'') \<in> s_email ` set (staff (snd (seed e h v d)))"
  "\<exists>s \<in> set (senders (snd (seed e h v d))).
     sn_account s = None \<and> sn_name s = toUpperCase (orElse (sd_sender v) ''ZOOINFO'')"
  "''Starter TZ'' \<in> pl_name ` set (plans (snd (seed e h v d)))"
proof -
  have s: "staff (snd (seedPlan e d)) = staff d" "senders (snd (seedPlan e d)) = senders d"
      "staff (snd (seedSender v d)) = staff d" for d
    by (simp_all add: seedPlan_def seedSender_def Let_def)
  show "toLowerCase (orElse (sd_email v) ''admin@zoostudios.internal'') \<in> s_email ` set (staff (snd (seed e h v d)))"
    unfolding seed_run snd_conv s by (simp add: seedAdmin_def Let_def)
  show "\<exists>s \<in> set (senders (snd (seed e h v d))).
     sn_account s = None \<and> sn_name s = toUpperCase (orElse (sd_sender v) ''ZOOINFO'')"
    unfolding seed_run snd_conv s by (simp add: seedSender_def Let_def)
  show "''Starter TZ'' \<in> pl_name ` set (plans (snd (seed e h v d)))"
    unfolding seed_run snd_conv by (simp add: seedPlan_def)
qed

lemma seed_twice: "snd (seed e' h' v (snd (seed e h v d))) = snd (seed e h v d)"
proof -
  let ?d = "snd (seed e h v d)"
  have "seedAdmin e' h' v ?d = (Inr (), ?d)" by (rule seedAdmin_there) (rule seed_rows)
  moreover have "seedSender v ?d = (Inr (), ?d)" by (rule seedSender_there) (rule seed_rows)
  moreover have "seedPlan e' ?d = (Inr (), ?d)" by (rule seedPlan_there) (rule seed_rows)
  ultimately show ?thesis by (simp only: seed_run [of e' h'] snd_conv)
qed

section \<open>Workers and cron jobs\<close>

text \<open>The handlers and cron jobs each module registers on start. A payload is stored as JSON under the
  queue it was enqueued for; a handler that finds another one fails on its fields. Some jobs
  swallow their errors.\<close>

type_synonym job_handler = "job_payload \<Rightarrow> (db, unit) action"
type_synonym cron_job = "string \<times> (db, unit) action"

definition swallowed :: "(db, 'a) action \<Rightarrow> (db, unit) action" where
  "swallowed m = attempt (thenDo m (ret ())) (\<lambda>_. ret ())"

definition webhookHandler :: "world \<Rightarrow> env \<Rightarrow> job_handler" where
  "webhookHandler w e p = (case p of WebhookDeliver i \<Rightarrow> deliverJob e (aw_delivery w) i | _ \<Rightarrow> raise (JsError ''TypeError''))"

definition webhookCron :: "env \<Rightarrow> cron_job" where
  "webhookCron e = (''webhook-retry-sweep'', sweepDueRetries e)"

definition smsHandler :: "world \<Rightarrow> env \<Rightarrow> job_handler" where
  "smsHandler w e p = (case p of SmsSend i \<Rightarrow> processSendJob e (aw_sms w) i | _ \<Rightarrow> raise (JsError ''TypeError''))"

definition smsCron :: "world \<Rightarrow> env \<Rightarrow> cron_job" where
  "smsCron w e = (''sms-delivery-sync'', swallowed (syncDeliveryReports e (aw_sms w)))"

definition payoutHandler :: "world \<Rightarrow> env \<Rightarrow> job_handler" where
  "payoutHandler w e p = (case p of PayoutProcess i \<Rightarrow> processPayoutJob e (aw_pay w) i | _ \<Rightarrow> raise (JsError ''TypeError''))"

definition batchHandler :: "world \<Rightarrow> env \<Rightarrow> job_handler" where
  "batchHandler w e p = (case p of BatchProcess _ ids \<Rightarrow> processBatchJob e (aw_pay w) ids | _ \<Rightarrow> raise (JsError ''TypeError''))"

definition payoutCron :: "world \<Rightarrow> env \<Rightarrow> cron_job" where
  "payoutCron w e = (''payout-status-poll'', swallowed (pollPendingPayouts e (aw_pay w)))"

definition collectionCron :: "world \<Rightarrow> env \<Rightarrow> cron_job" where
  "collectionCron w e = (''collection-status-poll'', swallowed (pollPendingCollections e (aw_collect w)))"

definition depositCron :: "world \<Rightarrow> env \<Rightarrow> cron_job" where
  "depositCron w e = (''deposit-status-poll'', thenDo (pollPendingDeposits e (aw_collect w)) (ret ()))"

definition sweepCron :: "world \<Rightarrow> env \<Rightarrow> cron_job" where
  "sweepCron w e = (''auto-sweep'', thenDo (runAutoSweep e (aw_zone w) False) (ret ()))"

definition billingCron :: "env \<Rightarrow> cron_job" where
  "billingCron e = (''recurring-billing'', swallowed (runRecurringBilling e))"

definition jobHandlers :: "world \<Rightarrow> env \<Rightarrow> string \<Rightarrow> job_handler option" where
  "jobHandlers w e = map_of
     [(''webhook.deliver'', webhookHandler w e), (''sms.send'', smsHandler w e),
      (''payout.process'', payoutHandler w e), (''batch.process'', batchHandler w e)]"

text \<open>\<open>fire\<close>: an error ends the run and is logged.\<close>

definition cronJobs :: "world \<Rightarrow> env \<Rightarrow> cron_job list" where
  "cronJobs w e = [collectionCron w e, depositCron w e, payoutCron w e, sweepCron w e, smsCron w e,
     billingCron e, webhookCron e]"

definition fireCron :: "world \<Rightarrow> env \<Rightarrow> string \<Rightarrow> (db, unit) action" where
  "fireCron w e name =
     (case map_of (cronJobs w e) name of None \<Rightarrow> ret () | Some job \<Rightarrow> attempt job (\<lambda>_. ret ()))"

lemma keeps_swallowed [keeps_platform]: "keeps P m \<Longrightarrow> keeps P (swallowed m)"
  unfolding swallowed_def by (intro keeps_rules)

lemma keeps_handlers:
  "keeps platform_ok (webhookHandler w e p)" "keeps platform_ok (smsHandler w e p)"
  "keeps platform_ok (payoutHandler w e p)" "keeps platform_ok (batchHandler w e p)"
  by (cases p; simp add: webhookHandler_def smsHandler_def payoutHandler_def batchHandler_def keeps_platform keeps_raise)+

lemma keeps_jobHandlers: "jobHandlers w e q = Some h \<Longrightarrow> keeps platform_ok (h p)"
  by (auto simp: jobHandlers_def intro!: keeps_handlers split: if_splits)

lemma keeps_pollJobs [keeps_platform]: "keeps platform_ok (pollJobs e worker (jobHandlers w e) n)"
proof (induction n)
  case (Suc n)
  have up: "keeps platform_ok (updateJob i f)" for i f
    by (rule keeps_untouched) (simp add: updateJob_def untouched_def)
  have cl: "keeps platform_ok (claim e worker)"
    by (rule keeps_untouched) (simp add: claim_def untouched_def split: option.split)
  have "keeps platform_ok (processJob e (jobHandlers w e) job)" for job
  proof -
    have "keeps platform_ok (case jobHandlers w e (j_queue job) of
        None \<Rightarrow> raise (JsError ''no handler registered'')
      | Some h \<Rightarrow> thenDo (h (j_payload job)) (finishOk e job))"
      unfolding finishOk_def
      by (cases "jobHandlers w e (j_queue job)")
        (simp_all add: keeps_raise keeps_andThen up keeps_jobHandlers)
    then show ?thesis unfolding processJob_def finishErr_def
      by (rule keeps_attempt) (intro keeps_rules up)
  qed
  then show ?case using Suc cl by (auto intro!: keeps_rules)
qed (simp add: keeps_ret)

lemma keeps_fireCron [keeps_platform]: "keeps platform_ok (fireCron w e name)"
proof -
  have "\<forall>job \<in> snd ` set (cronJobs w e). keeps platform_ok job"
    unfolding cronJobs_def collectionCron_def depositCron_def payoutCron_def sweepCron_def smsCron_def
      billingCron_def webhookCron_def
    by (auto intro!: keeps_platform keeps_more)
  then have "map_of (cronJobs w e) name = Some job \<Longrightarrow> keeps platform_ok job" for job
    by (force dest: map_of_SomeD)
  then show ?thesis unfolding fireCron_def by (auto intro!: keeps_rules split: option.split)
qed


section \<open>Administration\<close>

text \<open>What staff and account holders change outside the money routes.\<close>

datatype change =
    OpenAccount account_draws create_account_dto who
  | EditAccount account_key update_account_dto who
  | SuspendAccount account_key string who
  | ActivateAccount account_key who
  | IssueKey "nat \<Rightarrow> nat" account_key string who
  | RevokeKey account_key ident who
  | SetPermissions account_key "permission_item list" who
  | UpdateFees ident fee_patch
  | AddSettlement account_key settlement_input "bool option"
  | EditSettlement account_key ident settlement_patch
  | SetAutoSweep account_key bool
  | AddStaff create_staff_dto who
  | AddPlan create_plan_dto who
  | AssignPlan account_key ident who
  | AddBill account_key create_bill_dto who
  | PayBill account_key ident who
  | AddEndpoint string ident string "webhook_event list"
  | EditEndpoint ident ident "string option" "webhook_event list option"
  | DropEndpoint ident ident

definition done_with :: "(db, 'a) action \<Rightarrow> (db, unit) action" where
  "done_with m = thenDo m (ret ())"

definition administer :: "world \<Rightarrow> env \<Rightarrow> change \<Rightarrow> (db, unit) action" where
  "administer w e c =
     (case c of
        OpenAccount r dto admin \<Rightarrow> done_with (createAccount (aw_hashApiKey w) r e dto admin)
      | EditAccount k dto admin \<Rightarrow> done_with (updateAccount e k dto admin)
      | SuspendAccount k reason admin \<Rightarrow> done_with (suspendAccount e k reason admin)
      | ActivateAccount k admin \<Rightarrow> done_with (activateAccount e k admin)
      | IssueKey bytes k name admin \<Rightarrow> done_with (issueApiKey (aw_hashApiKey w) bytes e k name admin)
      | RevokeKey k i admin \<Rightarrow> done_with (revokeApiKey e k i admin)
      | SetPermissions k items admin \<Rightarrow> done_with (setPermissions e k items admin)
      | UpdateFees acct p \<Rightarrow> done_with (updateConfig acct p)
      | AddSettlement k input dflt \<Rightarrow> done_with (upsertSettlementAccount e k input dflt)
      | EditSettlement k i p \<Rightarrow> done_with (updateSettlementAccount k i p)
      | SetAutoSweep k b \<Rightarrow> done_with (setAutoSweep k b)
      | AddStaff dto admin \<Rightarrow> done_with (createStaff e (aw_hashPassword w) dto admin)
      | AddPlan dto admin \<Rightarrow> done_with (createPlan e dto admin)
      | AssignPlan k i admin \<Rightarrow> done_with (assignPlan e k i admin)
      | AddBill k dto admin \<Rightarrow> done_with (createBill e k dto admin)
      | PayBill k i admin \<Rightarrow> done_with (markBillPaid e k i admin)
      | AddEndpoint secret acct url evs \<Rightarrow> done_with (createEndpoint e secret acct url evs)
      | EditEndpoint acct i url evs \<Rightarrow> done_with (updateEndpoint acct i url evs)
      | DropEndpoint acct i \<Rightarrow> done_with (removeEndpoint acct i))"

lemma keeps_administer [keeps_platform]: "keeps platform_ok (administer w e c)"
  unfolding administer_def done_with_def
  by (cases c) (simp_all add: keeps_andThen keeps_ret keeps_platform)

section \<open>Requests\<close>

lemma accepts_must:
  "accepts rules body \<Longrightarrow> must ''amount'' [amount_rule] \<in> set rules \<Longrightarrow>
     \<exists>v. bodyAmount body = Fin v \<and> 0 \<le> v \<and> is_cents v"
  by (erule (1) accepts_amount) blast

lemma keeps_validated:
  "(accepts rules body \<Longrightarrow> keeps P m) \<Longrightarrow> keeps P (validated rules body m)"
  by (cases "accepts rules body") (simp_all add: validated_def keeps_def andThen_def require_def ret_def raise_def)

lemma keeps_replying: "keeps P m \<Longrightarrow> keeps P (replying f m)"
  unfolding replying_def by (intro keeps_rules)

lemma keeps_moveAs:
  assumes "\<exists>v. bodyAmount body = Fin v \<and> 0 \<le> v \<and> is_cents v"
  shows "keeps platform_ok (moveAs e ty (bodyMove k x aty actor body))"
proof -
  have "keeps platform_ok (move e (bodyMove k x aty actor body t))" for t
    using assms by (intro keeps_move_cents) (auto simp: bodyMove_def)
  then show ?thesis unfolding moveAs_def by (intro keeps_more keeps_case_decimal)
qed

lemma keeps_accountHandler [keeps_platform]: "keeps platform_ok (accountHandler w e a r)"
proof (cases r)
  case (WalletTransfer body)
  have "accepts walletTransferDto body \<Longrightarrow> bodyAmount body = Fin v \<Longrightarrow> is_cents v" for v
    using accepts_must [of walletTransferDto body] by (auto simp: walletTransferDto_def)
  then show ?thesis unfolding WalletTransfer accountHandler_def methods request.case
    by (intro keeps_validated keeps_replying keeps_transfer) simp
next
  case (WalletDeposit ty body)
  then show ?thesis
    by (auto simp: accountHandler_def methods assertActions_def walletAmountDto_def
        intro!: keeps_validated keeps_andThen keeps_liftE keeps_replying keeps_moveAs accepts_must)
next
  case (WalletWithdraw ty body)
  then show ?thesis
    by (auto simp: accountHandler_def methods assertActions_def walletAmountDto_def
        intro!: keeps_validated keeps_andThen keeps_liftE keeps_replying keeps_moveAs accepts_must)
qed (auto simp: accountHandler_def methods intro!: keeps_validated keeps_replying keeps_platform keeps_raise)

lemma keeps_staffHandler [keeps_platform]: "keeps platform_ok (staffHandler e p r)"
proof (cases r)
  case (AdminDeposit k ty body)
  then show ?thesis
    by (auto simp: staffHandler_def methods walletAmountDto_def
        intro!: keeps_validated keeps_replying keeps_moveAs accepts_must)
next
  case (AdminWithdraw k ty body)
  then show ?thesis
    by (auto simp: staffHandler_def methods walletAmountDto_def
        intro!: keeps_validated keeps_replying keeps_moveAs accepts_must)
next
  case (AdminFreeze k ty b)
  then show ?thesis
    by (auto simp: staffHandler_def methods intro!: keeps_case_option keeps_replying keeps_platform keeps_raise)
qed (auto simp: staffHandler_def methods intro!: keeps_replying keeps_platform keeps_raise)

lemma keeps_publicHandler [keeps_platform]: "keeps platform_ok (publicHandler w e r)"
  by (cases r) (auto simp: publicHandler_def methods intro!: keeps_validated keeps_replying keeps_platform keeps_raise)

lemma keeps_respond [keeps_platform]: "keeps platform_ok (respond w e h r)"
proof -
  have "keeps platform_ok (case c of AccountCaller a \<Rightarrow> accountHandler w e a r
      | StaffCaller p \<Rightarrow> staffHandler e p r | Anonymous \<Rightarrow> publicHandler w e r)" for c
    by (cases c) (simp_all add: keeps_platform)
  then show ?thesis unfolding respond_def by (intro keeps_rules keeps_case_sum)
qed


section \<open>Every reachable database\<close>

datatype event =
    Request headers request
  | ClickPesaEvent json
  | BeemEvent json
  | Work string nat
  | Tick string
  | Change change

definition react :: "world \<Rightarrow> env \<Rightarrow> event \<Rightarrow> (db, unit) action" where
  "react w e ev =
     (case ev of
        Request h r \<Rightarrow> done_with (respond w e h r)
      | ClickPesaEvent body \<Rightarrow> clickpesaWebhook (aw_hmac w) (aw_decimal w) e body
      | BeemEvent body \<Rightarrow> beemWebhook e body
      | Work worker slots \<Rightarrow> pollJobs e worker (jobHandlers w e) slots
      | Tick name \<Rightarrow> fireCron w e name
      | Change c \<Rightarrow> administer w e c)"

text \<open>From the seeded empty database, one event after the other; the clock, the random draws, the
  rails and the libraries may answer anything at each step.\<close>

inductive reachable :: "db \<Rightarrow> bool" where
  seeded: "reachable (snd (seed e h v empty_db))"
| reacted: "reachable d \<Longrightarrow> reachable (snd (react w e ev d))"

lemma keeps_react: "keeps platform_ok (react w e ev)"
  unfolding react_def done_with_def
  by (cases ev) (simp_all add: keeps_andThen keeps_ret keeps_platform)

lemma empty_platform_ok: "platform_ok empty_db"
  by (simp add: platform_ok_def empty_account_wf fees_ok_def refs_ok_def) (simp add: empty_db_def)

lemma reachable_ok: "reachable d \<Longrightarrow> platform_ok d"
  by (induction rule: reachable.induct)
    (blast intro: keepsD [OF keeps_seed empty_platform_ok] keepsD [OF keeps_react])+


section \<open>Properties\<close>

text \<open>A platform for the witnesses: every library accepts, the mock rails answer, and a staff token is
  always the seeded administrator's.\<close>

definition platform_world :: world where
  "platform_world = \<lparr>aw_hashApiKey = (\<lambda>s. s),
     aw_verifyJwt = (\<lambda>_. Some \<lparr>jp_sub = 0, jp_email = ''admin@zoostudios.internal'', jp_name = ''Admin'', jp_role = RoleADMIN\<rparr>),
     aw_library = \<lparr>or_email = (\<lambda>_. True), or_url = (\<lambda>_. True), or_date = (\<lambda>_. True)\<rparr>,
     aw_collect = mockCollectionProvider 0 quiet_mock, aw_pay = mockPayoutProvider 0 sample_mock,
     aw_sha = (\<lambda>s. s), aw_token = ''tok'', aw_instant = (\<lambda>_. 0), aw_ident = length,
     aw_sms = mockSmsProvider \<lparr>ms_failNext = False, ms_sendCounter = 0\<rparr>,
     aw_delivery = \<lparr>dw_hmac = (\<lambda>k m. k @ m), dw_json = (\<lambda>_. ''{}''), dw_post = (\<lambda>_. Inr 200)\<rparr>,
     aw_hmac = (\<lambda>_ s. s), aw_decimal = (\<lambda>_. Malformed), aw_zone = 0, aw_hashPassword = (\<lambda>s. s)\<rparr>"

definition platform_vars :: seed_vars where
  "platform_vars = \<lparr>sd_email = None, sd_password = None, sd_name = None, sd_sender = None\<rparr>"

definition seeded_db :: db where
  "seeded_db = snd (seed default_env (\<lambda>s. s) platform_vars empty_db)"

definition opened_db :: db where
  "opened_db = snd (react platform_world default_env
     (Change (OpenAccount \<lparr>ad_code = (\<lambda>_ _. 0), ad_id = (\<lambda>_. 0), ad_key = (\<lambda>_. 0)\<rparr>
        sample_account_dto SystemActor)) seeded_db)"

definition staff_headers :: headers where
  "staff_headers = \<lparr>h_apiKey = None, h_authorization = Some ''Bearer t''\<rparr>"

definition funded_db :: db where
  "funded_db = snd (react platform_world default_env
     (Request staff_headers (AdminDeposit (RowId 3) ''COLLECTION''
        (JObj [(''amount'', JStr ''1500.50''), (''reason'', JStr ''float'')]))) opened_db)"

lemma funded_balance: "balanceOf 3 WCOLLECTION funded_db = Some (3001 / 2)"
  by code_simp


text \<open>C2: in every state the platform can reach from its seeded empty database, by any requests with
  any bodies and credentials, any provider webhooks, worker rounds, cron runs and administration in
  any order, each wallet's balance is non-negative, in cents, and the sum of its ledger rows, whose
  balances form an unbroken chain; fee rates are percentages; every account has both wallets and a
  permission row for each service, and every API key belongs to an account.\<close>

theorem platform_ledgers:
  assumes "reachable d"
  shows "(\<forall>w \<in> set (wallets d). 0 \<le> w_balance w \<and> is_cents (w_balance w) \<and> chain 0 (ledgerOf (w_id w) d) \<and>
           sum_list (map t_amount (ledgerOf (w_id w) d)) = w_balance w) \<and>
         (\<forall>c \<in> set (fee_configs d). fee_config_ok c) \<and>
         (\<forall>a \<in> set (accounts d). (\<forall>ty. \<exists>w \<in> set (wallets d). w_account w = a_id a \<and> w_type w = ty) \<and>
           (\<forall>s. \<exists>p \<in> set (permissions d). pm_account p = a_id a \<and> pm_service p = s)) \<and>
         k_account ` set (api_keys d) \<subseteq> a_id ` set (accounts d)"
proof -
  have ok: "ledger_ok d" "fees_ok d" "account_wf d"
    using reachable_ok [OF assms] by (simp_all add: platform_ok_def)
  have "0 \<le> w_balance w \<and> is_cents (w_balance w) \<and> chain 0 (ledgerOf (w_id w) d) \<and>
      sum_list (map t_amount (ledgerOf (w_id w) d)) = w_balance w" if "w \<in> set (wallets d)" for w
    using ok(1) that ledger_sum [of d w] by (simp add: ledger_ok_def wallet_ledger_ok_def)
  then show ?thesis
    using ok(2,3)
    by (simp add: fees_ok_def account_wf_def wallets_complete_def permissions_complete_def keys_owned_def)
qed

theorem platform_ledgers_witness:
  "balanceOf 3 WCOLLECTION funded_db = Some (3001 / 2) \<and>
   (\<exists>w \<in> set (wallets funded_db). sum_list (map t_amount (ledgerOf (w_id w) funded_db)) = 3001 / 2)"
proof -
  have "reachable funded_db"
    unfolding funded_db_def opened_db_def seeded_db_def by (intro reachable.intros)
  note all = platform_ledgers [OF this, THEN conjunct1]
  obtain w where w: "findWallet 3 WCOLLECTION funded_db = Some w" "w_balance w = 3001 / 2"
    using funded_balance by (auto simp: balanceOf_def)
  have "sum_list (map t_amount (ledgerOf (w_id w) funded_db)) = 3001 / 2"
    using all findWallet_in [OF w(1)] w(2) by simp
  then show ?thesis using funded_balance findWallet_in [OF w(1)] by blast
qed

section \<open>Cron runs never overlap\<close>

text \<open>\<open>fire\<close> of iii/cron.service.ts with its \<open>running\<close> set: the runs that are under way, and the
  firings and completions in any order.\<close>

type_synonym cron_state = "string set \<times> string list"

inductive cron_step :: "cron_state \<Rightarrow> cron_state \<Rightarrow> bool" where
  started: "name \<notin> running \<Longrightarrow> cron_step (running, active) (insert name running, name # active)"
| overlapping: "name \<in> running \<Longrightarrow> cron_step (running, active) (running, active)"
| finished: "name \<in> set active \<Longrightarrow> cron_step (running, active) (running - {name}, remove1 name active)"

inductive_cases cron_step_cases: "cron_step (running, active) t"

definition cron_inv :: "cron_state \<Rightarrow> bool" where
  "cron_inv s \<longleftrightarrow> distinct (snd s) \<and> set (snd s) = fst s"

lemma cron_inv_step: "cron_step s t \<Longrightarrow> cron_inv s \<Longrightarrow> cron_inv t"
  by (induction rule: cron_step.induct) (auto simp: cron_inv_def set_remove1_eq)

text \<open>C17: a cron job that is still running is not started again: whenever it fires, at most one run of
  each job is under way, and a job that is not under way can start.\<close>

theorem cron_never_overlaps:
  assumes "cron_step\<^sup>*\<^sup>* ({}, []) (running, active)"
  shows "distinct active \<and> (\<forall>name. name \<notin> set active \<longrightarrow> cron_step (running, active) (insert name running, name # active))"
proof -
  have "cron_inv (running, active)"
    using assms by (rule rtranclp_induct) (simp add: cron_inv_def, blast intro: cron_inv_step)
  then show ?thesis by (auto simp: cron_inv_def intro: started)
qed

theorem cron_never_overlaps_witness:
  "distinct [''auto-sweep'', ''recurring-billing''] \<and>
   cron_step ({''auto-sweep'', ''recurring-billing''}, [''auto-sweep'', ''recurring-billing''])
     (insert ''sms-delivery-sync'' {''auto-sweep'', ''recurring-billing''},
      [''sms-delivery-sync'', ''auto-sweep'', ''recurring-billing''])"
proof -
  have "cron_step ({}, []) ({''recurring-billing''}, [''recurring-billing''])"
    by (rule started) simp
  moreover have "cron_step ({''recurring-billing''}, [''recurring-billing''])
      ({''auto-sweep'', ''recurring-billing''}, [''auto-sweep'', ''recurring-billing''])"
    by (rule started) simp
  ultimately have run: "cron_step\<^sup>*\<^sup>* ({}, []) ({''auto-sweep'', ''recurring-billing''}, [''auto-sweep'', ''recurring-billing''])"
    by (meson rtranclp.rtrancl_into_rtrancl rtranclp.rtrancl_refl)
  have "''sms-delivery-sync'' \<notin> set [''auto-sweep'', ''recurring-billing'']" by simp
  then show ?thesis using cron_never_overlaps [OF run] by blast
qed

end
