(* ===== verification/Isolation.thy ===== *)
theory Isolation
  imports System
begin


text \<open>
  One account's requests never touch another account's money: the money routes of Api, followed through
  their services, for a caller with an API key.
\<close>

section \<open>The balances of the other accounts\<close>

definition others_kept :: "ident \<Rightarrow> db \<Rightarrow> db \<Rightarrow> bool" where
  "others_kept acct d d' \<longleftrightarrow> (\<forall>b ty. b \<noteq> acct \<longrightarrow> balanceOf b ty d' = balanceOf b ty d)"

definition scoped :: "ident \<Rightarrow> db \<Rightarrow> db \<Rightarrow> bool" where
  "scoped acct d0 d \<longleftrightarrow> platform_ok d \<and> others_kept acct d0 d"

lemma others_quiet: "wallets d' = wallets d \<Longrightarrow> others_kept acct d d'"
  by (simp add: others_kept_def balanceOf_def findWallet_def)

lemma others_trans: "others_kept acct d0 d \<Longrightarrow> others_kept acct d d' \<Longrightarrow> others_kept acct d0 d'"
  by (simp add: others_kept_def)

lemma keeps_scoped:
  assumes "keeps platform_ok m" and "\<And>d. platform_ok d \<Longrightarrow> others_kept acct d (snd (m d))"
  shows "keeps (scoped acct d0) m"
  using assms others_trans by (fastforce simp: keeps_def scoped_def)

lemma keeps_quiet:
  "keeps platform_ok m \<Longrightarrow> (\<And>d. wallets (snd (m d)) = wallets d) \<Longrightarrow> keeps (scoped acct d0) m"
  by (rule keeps_scoped) (auto intro: others_quiet)

named_theorems scoped_rules "what keeps the other accounts' balances"

section \<open>Movements\<close>

lemma move_own:
  assumes "platform_ok d" and acct: "mv_account inp = RowId acct"
  shows "others_kept acct d (snd (move e inp d))"
proof -
  have keyed: "wallets_keyed d" using assms(1) by (simp add: platform_ok_def ledger_keyed)
  show ?thesis
  proof (cases "moveSpec e inp d")
    case (Inl err)
    then show ?thesis by (simp add: move_run [OF keyed] others_kept_def)
  next
    case (Inr r)
    then obtain w v where s: "moveSpec e inp d = Inr (w, v)" by (cases r) auto
    note sp = moveSpec_Inr [OF s]
    have "w_account w = acct"
      using sp(3) acct findWallet_in [of acct "mv_type inp" d w] by simp
    moreover have "t_wallet (moveRow e inp w v d) = w_id w" by (simp add: moveRow_def Let_def)
    ultimately show ?thesis
      using balanceOf_post [OF keyed sp(4)] by (simp add: move_run [OF keyed] s others_kept_def)
  qed
qed

lemma keeps_walletMove_own:
  "keeps platform_ok (walletMove e acct ty x v ref aty actor ig) \<Longrightarrow>
     keeps (scoped acct d0) (walletMove e acct ty x v ref aty actor ig)"
  by (rule keeps_scoped, assumption) (simp add: walletMove_def move_own)

lemma keeps_own [scoped_rules]:
  "keeps (scoped acct d0) (holdMove x e ref aty actor (acct, ty) (round2 v))"
  unfolding holdMove_def fst_conv snd_conv
  by (rule keeps_walletMove_own) (simp add: keeps_walletMove_cents)

lemma keeps_move_own:
  assumes "\<exists>v. bodyAmount body = Fin v \<and> 0 \<le> v \<and> is_cents v"
  shows "keeps (scoped acct d0) (moveAs e ty (bodyMove (RowId acct) x aty actor body))"
proof -
  have "keeps (scoped acct d0) (move e (bodyMove (RowId acct) x aty actor body t))" for t
  proof (rule keeps_scoped)
    show "keeps platform_ok (move e (bodyMove (RowId acct) x aty actor body t))"
      using assms by (intro keeps_move_cents) (auto simp: bodyMove_def)
  qed (rule move_own, simp_all add: bodyMove_def)
  then show ?thesis unfolding moveAs_def by (intro keeps_rules keeps_case_decimal)
qed

lemma transfer_own:
  assumes ok: "platform_ok d" and cents: "\<And>v. td_amount dto = Fin v \<Longrightarrow> is_cents v"
  shows "others_kept acct d (snd (transferCollectionToDisbursement e (RowId acct) dto actor d))"
proof -
  have l: "ledger_ok d" and f: "fees_ok d" using ok by (simp_all add: platform_ok_def)
  have keyed: "wallets_keyed d" using l by (rule ledger_keyed)
  obtain r d' where run: "transferCollectionToDisbursement e (RowId acct) dto actor d = (r, d')" by fastforce
  show ?thesis
  proof (cases r)
    case (Inl err)
    then obtain fc where "d' = d\<lparr>fee_configs := fc\<rparr>" using transfer_Inl_frame keyed run by blast
    then show ?thesis using run by (simp add: others_quiet)
  next
    case (Inr x)
    obtain a s t v c fc an where spec: "transferSpec (RowId acct) dto d = Inr (a, s, t, v)"
      and c: "getConfig a d = (Inr c, d\<lparr>fee_configs := fc\<rparr>)"
      and cov: "v + feeAmount (transferFee c v) \<le> w_balance s"
      and d': "d' = (addTransfer x (transferPosted e s t v (feeAmount (transferFee c v))
                 (transferReference e) actor (d\<lparr>fee_configs := fc\<rparr>)))\<lparr>analytics := an\<rparr>"
      using transfer_Inr [OF keyed run [unfolded Inr]] by metis
    note sp = transferSpec_Inr [OF keyed spec]
    have a: "a = acct" using sp(1) by (simp add: resolve_RowId split: if_splits)
    have fee: "0 \<le> feeAmount (transferFee c v)" "is_cents (feeAmount (transferFee c v))"
      using getConfig_result_ok [OF f c] sp(3)
      by (auto simp: transferFee_def fee_config_ok_def bps_ok_def intro: feeOf_nonneg)
    have "balanceOf b ty (transferPosted e s t v (feeAmount (transferFee c v)) (transferReference e) actor
        (d\<lparr>fee_configs := fc\<rparr>)) = balanceOf b ty d" if "b \<noteq> acct" for b ty
      using transfer_legs(2) [of "d\<lparr>fee_configs := fc\<rparr>" s t v "feeAmount (transferFee c v)" b ty e "transferReference e" actor]
        l sp findWallet_in [OF sp(4)] findWallet_in [OF sp(5)] fee cov cents [OF sp(2)] that a by simp
    then show ?thesis using run d' by (simp add: others_kept_def)
  qed
qed

lemma keeps_transfer_own:
  assumes "\<And>v. td_amount dto = Fin v \<Longrightarrow> is_cents v"
  shows "keeps (scoped acct d0) (transferCollectionToDisbursement e (RowId acct) dto actor)"
  by (rule keeps_scoped [OF keeps_transfer [OF assms] transfer_own [OF _ assms]])


section \<open>Everything else leaves the wallets alone\<close>

lemma keeps_scoped_untouched:
  "(\<And>d. untouched d (snd (m d))) \<Longrightarrow> keeps (scoped acct d0) m"
  by (rule keeps_quiet) (auto intro: keeps_untouched simp: untouched_def)

lemma keeps_scoped_modify: "(\<And>d. untouched d (g d)) \<Longrightarrow> keeps (scoped acct d0) (modify g)"
  by (rule keeps_scoped_untouched) simp

lemma keeps_scoped_fee [scoped_rules]: "keeps (scoped acct d0) (computeFee kind a v)"
proof (rule keeps_quiet)
  show "wallets (snd (computeFee kind a v d)) = wallets d" for d
    using getConfig_frame [of a d] by (auto simp: snd_computeFee)
qed (rule keeps_platform)

lemma keeps_scoped_rows [scoped_rules]:
  "keeps (scoped acct d0) (createCollection mc)" "keeps (scoped acct d0) (createDeposit md)"
  "keeps (scoped acct d0) (insertPayout mp)" "keeps (scoped acct d0) (enqueue e q payload delay)"
  "keeps (scoped acct d0) (batchTx e a code dto ref total_amount)"
  by (rule keeps_quiet, rule keeps_platform,
      simp add: createCollection_def createDeposit_def insertPayout_def enqueue_def batchTx_def Let_def
        split: sum.split)+

lemma keeps_scoped_events [scoped_rules]:
  "keeps (scoped acct d0) (track e name ak x)" "keeps (scoped acct d0) (dispatch e event a reference data)"
proof -
  show "keeps (scoped acct d0) (track e name ak x)"
    by (rule keeps_scoped_untouched) (simp add: track_def untouched_def)
  show "keeps (scoped acct d0) (dispatch e event a reference data)"
    by (rule keeps_quiet) (use eventsOnly_dispatch eventsOnly_tables in \<open>auto intro: keeps_platform\<close>)
qed

lemmas scoped_pure [scoped_rules] = keeps_amounts keeps_sumAmounts keeps_lookups keeps_decimalColumn keeps_toDecimal

lemmas scoped_all = keeps_rules keeps_case_sum keeps_case_bool scoped_rules

section \<open>The services\<close>

lemma scoped_payout: "keeps (scoped acct d0) (createPayout e acct ch dto)"
  unfolding createPayout_def storePayout_def by (intro scoped_all)

lemma scoped_batch: "keeps (scoped acct d0) (createBatch e acct dto)"
  unfolding createBatch_def by (intro scoped_all)

lemma scoped_link: "keeps (scoped acct d0) (createPayoutLink sha tok e acct amt m)"
  unfolding createPayoutLink_def
  by (intro scoped_all keeps_scoped_untouched) (simp add: untouched_def Let_def)

lemma scoped_withdrawal: "keeps (scoped acct d0) (createWithdrawal e acct dto aty actor)"
  unfolding createWithdrawal_def settle_def by (intro scoped_all)

lemma scoped_initiate:
  "keeps (scoped acct d0) (initiateCollection e rail acct dto)" "keeps (scoped acct d0) (initiateDeposit e rail acct dto)"
  unfolding initiateCollection_def initiateDeposit_def
  by (intro scoped_all keeps_scoped_modify untouched_upd; simp)+

lemma scoped_sms: "keeps (scoped acct d0) (sendSms e acct dto)"
proof -
  have "keeps (scoped acct d0) (insertSms mk)" for mk
    by (rule keeps_scoped_untouched) (simp add: insertSms_def Let_def untouched_def)
  moreover have "keeps (scoped acct d0) (resolveSender e acct s)" for s
    unfolding resolveSender_def by (intro keeps_more)
  moreover have "keeps (scoped acct d0) (maybeIssuePaygBill e acct n ref)" for n ref
    unfolding maybeIssuePaygBill_def by (intro scoped_all keeps_scoped_modify) (simp add: untouched_def)
  ultimately show ?thesis unfolding sendSms_def by (intro scoped_all)
qed

text \<open>A refresh credits the account of the row; references are unique, so it is the caller's row.\<close>

lemma keeps_credit_own:
  "c_account c = acct \<Longrightarrow> keeps (scoped acct d0) (collectionCreditMove e c u fee)"
  "d_account r = acct \<Longrightarrow> keeps (scoped acct d0) (depositCreditMove e r v)"
  unfolding collectionCreditMove_def depositCreditMove_def
  by (auto intro!: keeps_walletMove_own keeps_walletMove_credit simp: isDebitMove_def DEBIT_TYPES_def)

lemma scoped_applyCollection:
  assumes "scoped acct d0 d" and found: "findCollection ref d = Some c" and own: "c_account c = acct"
  shows "scoped acct d0 (snd (applyCollectionUpdate e ref rc d))"
  unfolding applyCollectionUpdate_def andThen_query found option.case Let_def collectionFee_def
  by (rule keepsD [where P = "scoped acct d0", OF _ assms(1)])
    (intro scoped_all keeps_credit_own keeps_scoped_modify untouched_upd; simp add: own collectionPatch_def)

lemma scoped_applyDeposit:
  assumes "scoped acct d0 d" and found: "findDeposit ref d = Some r" and own: "d_account r = acct"
  shows "scoped acct d0 (snd (applyDepositUpdate e ref rc d))"
  unfolding applyDepositUpdate_def andThen_query found option.case Let_def
  by (rule keepsD [where P = "scoped acct d0", OF _ assms(1)])
    (intro scoped_all keeps_credit_own keeps_scoped_modify untouched_upd; simp add: own depositPatch_def)


lemma collectionOf_found:
  assumes "platform_ok d" and of: "collectionOf acct ref d = Some c"
  shows "findCollection (c_reference c) d = Some c \<and> c_account c = acct"
proof -
  have "c \<in> set (collections d)" and own: "c_account c = acct"
    using of by (auto simp: collectionOf_def dest: find_SomeD)
  moreover have "distinct (map c_reference (collections d))"
    using assms(1) by (simp add: platform_ok_def refs_ok_def)
  ultimately show ?thesis
    unfolding findCollection_def by (auto simp: distinct_map dest: inj_onD intro!: find_unique)
qed

lemma depositOf_found:
  assumes "platform_ok d" and of: "depositOf acct ref d = Some r"
  shows "findDeposit (d_reference r) d = Some r \<and> d_account r = acct"
proof -
  have "r \<in> set (deposits d)" and own: "d_account r = acct"
    using of by (auto simp: depositOf_def dest: find_SomeD)
  moreover have "distinct (map d_reference (deposits d))"
    using assms(1) by (simp add: platform_ok_def refs_ok_def)
  ultimately show ?thesis
    unfolding findDeposit_def by (auto simp: distinct_map dest: inj_onD intro!: find_unique)
qed

lemma keeps_getOwn:
  "keeps P (getCollection acct ref)" "keeps P (getDeposit acct ref)"
  unfolding getCollection_def getDeposit_def by (intro keeps_rules)+

lemma keeps_after: "P (snd (m d)) \<Longrightarrow> (\<And>x. keeps P (f x)) \<Longrightarrow> P (snd (andThen m f d))"
  by (auto simp: andThen_def keeps_def split: prod.split sum.split)

lemma scoped_refreshCollection: "keeps (scoped acct d0) (refreshCollection e rail acct ref)"
proof (rule keepsI)
  fix d assume s: "scoped acct d0 d"
  show "scoped acct d0 (snd (refreshCollection e rail acct ref d))"
  proof (cases "collectionOf acct ref d")
    case None
    then show ?thesis using s
      by (simp add: refreshCollection_def getCollection_def fetch_def andThen_def)
  next
    case (Some c)
    then have own: "findCollection (c_reference c) d = Some c" "c_account c = acct"
      using collectionOf_found s by (auto simp: scoped_def)
    have get: "getCollection acct ref d = (Inr c, d)" using Some by (simp add: getCollection_def fetch_def)
    have "scoped acct d0 (snd (thenDo (applyCollectionUpdate e (c_reference c) rc) (getCollection acct ref) d))" for rc
      by (rule keeps_after [where P = "scoped acct d0"], rule scoped_applyCollection [OF s own], rule keeps_getOwn)
    then show ?thesis unfolding refreshCollection_def andThen_Inr [where m = "getCollection acct ref", OF get]
      using s by (auto simp: ret_def split: option.split)
  qed
qed

lemma scoped_refreshDeposit: "keeps (scoped acct d0) (refreshDeposit e rail acct ref)"
proof (rule keepsI)
  fix d assume s: "scoped acct d0 d"
  show "scoped acct d0 (snd (refreshDeposit e rail acct ref d))"
  proof (cases "depositOf acct ref d")
    case None
    then show ?thesis using s
      by (simp add: refreshDeposit_def getDeposit_def fetch_def andThen_def)
  next
    case (Some r)
    then have own: "findDeposit (d_reference r) d = Some r" "d_account r = acct"
      using depositOf_found s by (auto simp: scoped_def)
    have get: "getDeposit acct ref d = (Inr r, d)" using Some by (simp add: getDeposit_def fetch_def)
    have "scoped acct d0 (snd (thenDo (applyDepositUpdate e (d_reference r) rc) (getDeposit acct ref) d))" for rc
      by (rule keeps_after [where P = "scoped acct d0"], rule scoped_applyDeposit [OF s own], rule keeps_getOwn)
    then show ?thesis unfolding refreshDeposit_def andThen_Inr [where m = "getDeposit acct ref", OF get]
      using s by (auto simp: ret_def split: option.split)
  qed
qed

lemmas scoped_services = scoped_payout scoped_batch scoped_link scoped_withdrawal scoped_initiate
  scoped_sms scoped_refreshCollection scoped_refreshDeposit

section \<open>The handler of an account's request\<close>

lemma scoped_accountHandler: "keeps (scoped (a_id (ra_account a)) d0) (accountHandler w e a r)"
proof (cases r)
  case (WalletTransfer body)
  have "accepts walletTransferDto body \<Longrightarrow> bodyAmount body = Fin v \<Longrightarrow> is_cents v" for v
    using accepts_must [of walletTransferDto body] by (auto simp: walletTransferDto_def)
  then show ?thesis unfolding WalletTransfer accountHandler_def methods request.case
    by (intro keeps_validated keeps_replying keeps_transfer_own) simp
next
  case (WalletDeposit ty body)
  then show ?thesis
    by (auto simp: accountHandler_def methods assertActions_def walletAmountDto_def
        intro!: keeps_validated keeps_andThen keeps_liftE keeps_replying keeps_move_own accepts_must)
next
  case (WalletWithdraw ty body)
  then show ?thesis
    by (auto simp: accountHandler_def methods assertActions_def walletAmountDto_def
        intro!: keeps_validated keeps_andThen keeps_liftE keeps_replying keeps_move_own accepts_must)
qed (auto simp: accountHandler_def methods intro!: keeps_validated keeps_replying scoped_services keeps_raise)


section \<open>Properties\<close>

text \<open>C3: requests are isolated per account: on every database the platform can reach, a request the
  guards accept with an API key of account \<open>a\<close>, whatever its route, path and body, whether it
  succeeds or fails, leaves both wallet balances of every other account as they are; and a request
  the guards refuse changes nothing.\<close>

theorem account_isolation:
  assumes "reachable d"
  shows "(\<forall>a. authorize (aw_hashApiKey w) (aw_verifyJwt w) (routeOf r) h d = Inr (AccountCaller a) \<longrightarrow>
            (\<forall>b ty. b \<noteq> a_id (ra_account a) \<longrightarrow> balanceOf b ty (snd (respond w e h r d)) = balanceOf b ty d)) \<and>
         (\<forall>err. authorize (aw_hashApiKey w) (aw_verifyJwt w) (routeOf r) h d = Inl err \<longrightarrow>
            respond w e h r d = (Inl err, d))"
proof (intro conjI allI impI)
  fix a b ty
  assume passed: "authorize (aw_hashApiKey w) (aw_verifyJwt w) (routeOf r) h d = Inr (AccountCaller a)"
    and other: "b \<noteq> a_id (ra_account a)"
  have "scoped (a_id (ra_account a)) d d"
    using reachable_ok [OF assms] by (simp add: scoped_def others_kept_def)
  from keepsD [OF scoped_accountHandler this, of w e r]
  show "balanceOf b ty (snd (respond w e h r d)) = balanceOf b ty d"
    using other by (simp add: respond_def andThen_query passed scoped_def others_kept_def)
qed (simp add: respond_def andThen_query raise_def)

text \<open>A second shop on the platform of the funded one, allowed to move its own wallets, and its deposit.\<close>

definition shared_db :: db where
  "shared_db = snd (react platform_world default_env (Change (SetPermissions (RowId 8)
       [\<lparr>pi_service = SvcCOLLECTION, pi_granted = True,
         pi_meta = Some \<lparr>m_channels = None, m_payAsYouGo = False, m_walletActions = True\<rparr>\<rparr>] SystemActor))
     (snd (react platform_world default_env
       (Change (OpenAccount \<lparr>ad_code = (\<lambda>_ _. 1), ad_id = (\<lambda>_. 1), ad_key = (\<lambda>_. 1)\<rparr>
          sample_account_dto SystemActor)) funded_db)))"

definition second_key :: headers where
  "second_key = \<lparr>h_apiKey = Some (''zs_live_'' @ hexBytes (\<lambda>_. 1) 32), h_authorization = None\<rparr>"

definition second_topup :: request where
  "second_topup = WalletDeposit ''COLLECTION'' (JObj [(''amount'', JStr ''20''), (''reason'', JStr ''sale'')])"

lemma shared_runs:
  "balanceOf 3 WCOLLECTION shared_db = Some (3001 / 2) \<and>
   balanceOf 8 WCOLLECTION (snd (respond platform_world default_env second_key second_topup shared_db)) = Some 20 \<and>
   (case authorize (aw_hashApiKey platform_world) (aw_verifyJwt platform_world) (routeOf second_topup)
      second_key shared_db of Inr (AccountCaller a) \<Rightarrow> a_id (ra_account a) = 8 | _ \<Rightarrow> False)"
  by code_simp

theorem account_isolation_witness:
  "balanceOf 8 WCOLLECTION (snd (respond platform_world default_env second_key second_topup shared_db)) = Some 20 \<and>
   balanceOf 3 WCOLLECTION (snd (respond platform_world default_env second_key second_topup shared_db))
     = Some (3001 / 2)"
proof -
  have "reachable shared_db"
    unfolding shared_db_def funded_db_def opened_db_def seeded_db_def by (intro reachable.intros)
  moreover obtain a where "authorize (aw_hashApiKey platform_world) (aw_verifyJwt platform_world)
      (routeOf second_topup) second_key shared_db = Inr (AccountCaller a)" "a_id (ra_account a) = 8"
    using shared_runs by (auto split: sum.splits caller.splits)
  ultimately have "balanceOf 3 WCOLLECTION (snd (respond platform_world default_env second_key second_topup shared_db))
      = balanceOf 3 WCOLLECTION shared_db"
    using account_isolation [of shared_db platform_world second_topup second_key default_env] by simp
  then show ?thesis using shared_runs by simp
qed

end
