(* ===== verification/RailClients.thy ===== *)
theory RailClients
  imports Api
begin


text \<open>
  clickpesa/clickpesa.client.ts and beem/beem.client.ts: the HTTP clients of the two rails. A session
  keeps the cached access token, the calls sent and the events written to the trace. The network is a
  function of the calls sent so far, so it may answer anything at any time; a failure without an answer
  is a text. Times are the reading of the clock a request starts with. What a header is given is kept as
  the text it is sent with.
\<close>

section \<open>Sessions\<close>

record http_call =
  hc_method :: string
  hc_url :: string
  hc_headers :: "(string \<times> string) list"
  hc_data :: json
  hc_params :: "(string \<times> string) list"

record http_answer =
  ha_status :: nat
  ha_data :: json

type_synonym network = "http_call list \<Rightarrow> string + http_answer"

datatype trace_event =
    TracedRequest string string json
  | TracedResponse nat json
  | TracedError string

record rail_session =
  rl_token :: "(string \<times> int) option"
  rl_calls :: "http_call list"
  rl_trace :: "trace_event list"

record rail_config =
  rg_clientId :: string
  rg_apiKey :: string
  rg_beemApiKey :: string
  rg_beemSecretKey :: string

definition exchange :: "network \<Rightarrow> http_call \<Rightarrow> (rail_session, http_answer) action" where
  "exchange net c s =
     (let calls = rl_calls s @ [c]; s' = s\<lparr>rl_calls := calls\<rparr> in
      case net calls of Inl msg \<Rightarrow> (Inl (JsError msg), s') | Inr res \<Rightarrow> (Inr res, s'))"

definition traced :: "trace_event \<Rightarrow> (rail_session, unit) action" where
  "traced ev = modify (\<lambda>s. s\<lparr>rl_trace := rl_trace s @ [ev]\<rparr>)"

definition messageOf :: "string \<Rightarrow> err \<Rightarrow> string" where
  "messageOf fallback err = (case err of JsError msg \<Rightarrow> msg | _ \<Rightarrow> fallback)"

definition succeeded :: "http_answer \<Rightarrow> json provider_result" where
  "succeeded res = \<lparr>rs_ok = True, rs_httpStatus = Some (ha_status res), rs_data = Some (ha_data res), rs_error = None\<rparr>"

definition refused :: "http_answer \<Rightarrow> string \<Rightarrow> json provider_result" where
  "refused res msg = \<lparr>rs_ok = False, rs_httpStatus = Some (ha_status res), rs_data = None, rs_error = Some msg\<rparr>"

section \<open>ClickPesa\<close>

definition TOKEN_TTL_MS :: int where "TOKEN_TTL_MS = 55 * 60 * 1000"

definition credentialsReady :: "rail_config \<Rightarrow> bool" where
  "credentialsReady g \<longleftrightarrow> rg_clientId g \<noteq> [] \<and> rg_apiKey g \<noteq> []"

definition tokenCall :: "rail_config \<Rightarrow> http_call" where
  "tokenCall g = \<lparr>hc_method = ''post'', hc_url = ''/third-parties/generate-token'',
     hc_headers = [(''api-key'', rg_apiKey g), (''client-id'', rg_clientId g)], hc_data = JObj [], hc_params = []\<rparr>"

definition tokenError :: "http_answer \<Rightarrow> string" where
  "tokenError res = ''ClickPesa token generation failed ('' @ showNat (ha_status res) @ ''): '' @
     take 300 (stringify (ha_data res))"

definition obtainToken :: "network \<Rightarrow> rail_config \<Rightarrow> int \<Rightarrow> (rail_session, string) action" where
  "obtainToken net g t =
     (if \<not> credentialsReady g
      then raise (JsError ''ClickPesa credentials not configured (CLICKPESA_CLIENT_ID / CLICKPESA_API_KEY)'')
      else andThen (exchange net (tokenCall g)) (\<lambda>res.
        if ha_status res \<noteq> 200 \<or> falsy (field ''token'' (ha_data res)) then raise (JsError (tokenError res))
        else let v = jsString (field ''token'' (ha_data res)) in
          thenDo (modify (\<lambda>s. s\<lparr>rl_token := Some (v, t + TOKEN_TTL_MS)\<rparr>)) (ret v)))"

definition accessToken :: "network \<Rightarrow> rail_config \<Rightarrow> int \<Rightarrow> (rail_session, string) action" where
  "accessToken net g t =
     andThen (query rl_token) (\<lambda>tok.
       case tok of
         Some (v, expires) \<Rightarrow> if t < expires then ret v else obtainToken net g t
       | None \<Rightarrow> obtainToken net g t)"

definition SECRET_KEYS :: "string list" where
  "SECRET_KEYS = [''checksum'', ''api-key'', ''apiKey'', ''Authorization'']"

definition redactMember :: "string \<times> json \<Rightarrow> string \<times> json" where
  "redactMember kv = (if fst kv \<in> set SECRET_KEYS then (fst kv, JStr ''***redacted***'') else kv)"

definition redact :: "json \<Rightarrow> json" where
  "redact body =
     (case body of
        JObj kvs \<Rightarrow> JObj (map redactMember kvs)
      | JArr xs \<Rightarrow> JObj (zip (map showNat [0..<length xs]) xs)
      | v \<Rightarrow> v)"

text \<open>The advice of a 401, with its dash in UTF-8.\<close>

definition scopeAdvice :: string where
  "scopeAdvice = '' '' @ map char_of [226, 128, 148 :: nat] @ '' check the ClickPesa dashboard: API key scopes (Collections/Disbursements) must be enabled, Whitelisted IP must include this server's egress IP, and after changing checksum settings tokens must be regenerated''"

definition errorDetail :: "json \<Rightarrow> string" where
  "errorDetail body =
     (case body of
        JStr s \<Rightarrow> take 200 (trim s)
      | JObj _ \<Rightarrow> jsString (coalesce (field ''message'' body)
          (coalesce (field ''error'' body) (JStr (take 200 (stringify body)))))
      | JArr _ \<Rightarrow> take 200 (stringify body)
      | _ \<Rightarrow> [])"

definition providerError :: "nat \<Rightarrow> json \<Rightarrow> string" where
  "providerError status body =
     (let detail = errorDetail body;
          base = ''ClickPesa '' @ showNat status @ (if detail = [] then [] else '': '' @ detail)
      in if status = 401 then base @ scopeAdvice else base)"

definition resourceCall :: "string \<Rightarrow> string \<Rightarrow> json \<Rightarrow> string \<Rightarrow> http_call" where
  "resourceCall verb url body token =
     \<lparr>hc_method = verb, hc_url = url,
      hc_headers = (''Authorization'', token) # (if verb = ''post'' then [(''Content-Type'', ''application/json'')] else []),
      hc_data = body, hc_params = []\<rparr>"

definition answered :: "http_answer \<Rightarrow> json provider_result" where
  "answered res =
     (if 200 \<le> ha_status res \<and> ha_status res < 300 then succeeded res
      else refused res (providerError (ha_status res) (ha_data res)))"

definition clickpesaFailed :: "err \<Rightarrow> (rail_session, json provider_result) action" where
  "clickpesaFailed err = (let msg = messageOf ''ClickPesa request failed'' err in
     thenDo (traced (TracedError msg)) (ret (failResult msg)))"

function request_clickpesa ::
    "network \<Rightarrow> rail_config \<Rightarrow> int \<Rightarrow> string \<Rightarrow> string \<Rightarrow> json \<Rightarrow> bool \<Rightarrow> (rail_session, json provider_result) action"
where
  "request_clickpesa net g t verb url body retried =
     (if \<not> credentialsReady g then ret (failResult ''ClickPesa credentials not configured'')
      else thenDo (traced (TracedRequest verb url (redact body)))
        (attempt
          (andThen (accessToken net g t) (\<lambda>token.
           andThen (exchange net (resourceCall verb url body token)) (\<lambda>res.
             if ha_status res = 401 \<and> \<not> retried
             then thenDo (modify (\<lambda>s. s\<lparr>rl_token := None\<rparr>)) (request_clickpesa net g t verb url body True)
             else thenDo (traced (TracedResponse (ha_status res) (redact (ha_data res)))) (ret (answered res)))))
          clickpesaFailed))"
  by pat_completeness auto
termination
  by (relation "measure (\<lambda>(net, g, t, verb, url, body, retried). if retried then 0 else 1)") auto


section \<open>Signed payloads\<close>

definition sign :: "hmac \<Rightarrow> config \<Rightarrow> (string \<times> json) list \<Rightarrow> json" where
  "sign hm c payload =
     (if \<not> cfg_checksumEnabled c \<or> \<not> truthy (cfg_checksumKey c) then JObj payload
      else JObj (setKey ''checksum''
        (JStr (createPayloadChecksum hm (the (cfg_checksumKey c)) (JObj payload))) payload))"

text \<open>How JavaScript prints an amount in cents: no trailing zeros.\<close>

definition jsNumber :: "rat \<Rightarrow> string" where
  "jsNumber v =
     (let s = toFixed2 v; whole = takeWhile (\<lambda>c. c \<noteq> CHR ''.'') s; frac = drop (Suc (length whole)) s;
          digits = rev (dropWhile (\<lambda>c. c = CHR ''0'') (rev frac))
      in if digits = [] then whole else whole @ CHR ''.'' # digits)"

text \<open>\<open>encodeURIComponent\<close>, byte by byte.\<close>

definition uriSafe :: "char \<Rightarrow> bool" where
  "uriSafe c \<longleftrightarrow> isAlnum c \<or> (of_char c :: nat) \<in> {45, 95, 46, 33, 126, 42, 39, 40, 41}"

definition upperHex :: "nat \<Rightarrow> char" where
  "upperHex n = ''0123456789ABCDEF'' ! n"

definition encodeURIComponent :: "string \<Rightarrow> string" where
  "encodeURIComponent s = concat (map (\<lambda>c.
     if uriSafe c then [c] else [CHR ''%'', upperHex (of_char c div 16), upperHex (of_char c mod 16)]) s)"

record rail_env =
  ge_net :: network
  ge_rail :: rail_config
  ge_hmac :: hmac
  ge_config :: config
  ge_time :: int

definition clickpesa :: "rail_env \<Rightarrow> string \<Rightarrow> string \<Rightarrow> json \<Rightarrow> (rail_session, json provider_result) action" where
  "clickpesa n verb url body = request_clickpesa (ge_net n) (ge_rail n) (ge_time n) verb url body False"

definition signed :: "rail_env \<Rightarrow> (string \<times> json) list \<Rightarrow> json" where
  "signed n = sign (ge_hmac n) (ge_config n)"

definition previewUssdPush :: "rail_env \<Rightarrow> (string \<times> json) list \<Rightarrow> (rail_session, json provider_result) action" where
  "previewUssdPush n req =
     clickpesa n ''post'' ''/third-parties/payments/preview-ussd-push-request'' (signed n req)"

definition initiateUssdPush :: "rail_env \<Rightarrow> (string \<times> json) list \<Rightarrow> (rail_session, json provider_result) action" where
  "initiateUssdPush n req =
     clickpesa n ''post'' ''/third-parties/payments/initiate-ussd-push-request'' (signed n req)"

definition queryPayment :: "rail_env \<Rightarrow> string \<Rightarrow> (rail_session, json provider_result) action" where
  "queryPayment n ref =
     clickpesa n ''get'' (''/third-parties/payments/'' @ encodeURIComponent ref) JUndefined"

definition queryAllPayments :: "rail_env \<Rightarrow> nat \<Rightarrow> (rail_session, json provider_result) action" where
  "queryAllPayments n limit =
     clickpesa n ''get'' (''/third-parties/payments/all?orderBy=DESC&limit='' @ showNat limit) JUndefined"

definition mnoPayload :: "mno_request \<Rightarrow> (string \<times> json) list" where
  "mnoPayload q =
     [(''amount'', JNum (jsNumber (mq_amount q))), (''currency'', JStr (mq_currency q)),
      (''orderReference'', JStr (mq_orderReference q)), (''phoneNumber'', JStr (mq_phoneNumber q))]"

definition createMobileMoneyPayout :: "rail_env \<Rightarrow> mno_request \<Rightarrow> (rail_session, json provider_result) action" where
  "createMobileMoneyPayout n q =
     clickpesa n ''post'' ''/third-parties/payouts/create-mobile-money-payout'' (signed n (mnoPayload q))"

definition bankPayload :: "bank_request \<Rightarrow> (string \<times> json) list" where
  "bankPayload q =
     [(''amount'', JNum (jsNumber (bq_amount q))), (''accountNumber'', JStr (bq_accountNumber q)),
      (''accountName'', JStr (bq_accountName q)), (''orderReference'', JStr (bq_orderReference q)),
      (''bic'', JStr (bq_bic q)), (''accountCurrency'', JStr (bq_accountCurrency q)),
      (''currency'', JStr (bq_currency q))] @
     (if truthy (bq_transferType q) then [(''transferType'', JStr (the (bq_transferType q)))] else [])"

definition createBankPayout :: "rail_env \<Rightarrow> bank_request \<Rightarrow> (rail_session, json provider_result) action" where
  "createBankPayout n q =
     clickpesa n ''post'' ''/third-parties/payouts/create-bank-payout'' (signed n (bankPayload q))"

definition queryPayout :: "rail_env \<Rightarrow> string \<Rightarrow> (rail_session, json provider_result) action" where
  "queryPayout n ref =
     clickpesa n ''get'' (''/third-parties/payouts/'' @ encodeURIComponent ref) JUndefined"

definition previewMnoPayout :: "rail_env \<Rightarrow> (string \<times> json) list \<Rightarrow> (rail_session, json provider_result) action" where
  "previewMnoPayout n req =
     clickpesa n ''post'' ''/third-parties/payouts/preview-mobile-money-payout'' (signed n req)"

definition listBanks :: "rail_env \<Rightarrow> (rail_session, json provider_result) action" where
  "listBanks n = clickpesa n ''get'' ''/third-parties/banks'' JUndefined"

section \<open>Beem\<close>

fun base64Digits :: "nat list \<Rightarrow> nat list" where
  "base64Digits (a # b # c # xs) =
     a div 4 # (a mod 4 * 16 + b div 16) # (b mod 16 * 4 + c div 64) # c mod 64 # base64Digits xs"
| "base64Digits [a, b] = [a div 4, a mod 4 * 16 + b div 16, b mod 16 * 4, 64]"
| "base64Digits [a] = [a div 4, a mod 4 * 16, 64, 64]"
| "base64Digits [] = []"

definition base64 :: "string \<Rightarrow> string" where
  "base64 s = map (\<lambda>i. ''ABCDEFGHIJKLMNOPQRSTUVWXYZabcdefghijklmnopqrstuvwxyz0123456789+/='' ! i)
     (base64Digits (map of_char s))"

definition basicAuth :: "rail_config \<Rightarrow> string" where
  "basicAuth g = base64 (rg_beemApiKey g @ '':'' @ rg_beemSecretKey g)"

definition beemReady :: "rail_config \<Rightarrow> bool" where
  "beemReady g \<longleftrightarrow> rg_beemApiKey g \<noteq> [] \<and> rg_beemSecretKey g \<noteq> []"

definition beemCall :: "rail_config \<Rightarrow> string \<Rightarrow> string \<Rightarrow> json \<Rightarrow> (string \<times> string) list \<Rightarrow> http_call" where
  "beemCall g verb url body params =
     \<lparr>hc_method = verb, hc_url = url,
      hc_headers = [(''Authorization'', ''Basic '' @ basicAuth g), (''Content-Type'', ''application/json'')],
      hc_data = body, hc_params = params\<rparr>"

definition beemAnswered :: "http_answer \<Rightarrow> json provider_result" where
  "beemAnswered res =
     (if 200 \<le> ha_status res \<and> ha_status res < 300 then succeeded res
      else refused res (jsString (coalesce (field ''message'' (ha_data res))
        (JStr (''Beem returned '' @ showNat (ha_status res))))))"

definition request_beem ::
    "rail_env \<Rightarrow> string \<Rightarrow> string \<Rightarrow> json \<Rightarrow> (string \<times> string) list \<Rightarrow> (rail_session, json provider_result) action" where
  "request_beem n verb url body params =
     (if \<not> beemReady (ge_rail n)
      then ret (failResult ''Beem credentials not configured (BEEM_API_KEY / BEEM_SECRET_KEY)'')
      else thenDo (traced (TracedRequest verb url body))
        (attempt
          (andThen (exchange (ge_net n) (beemCall (ge_rail n) verb url body params)) (\<lambda>res.
           thenDo (traced (TracedResponse (ha_status res) (ha_data res))) (ret (beemAnswered res))))
          (\<lambda>err. let msg = messageOf ''Beem request failed'' err in
             thenDo (traced (TracedError msg)) (ret (failResult msg)))))"

text \<open>The time a message is scheduled for is sent as the text \<open>stamp\<close> makes of it.\<close>

definition beemPayload :: "(int \<Rightarrow> string) \<Rightarrow> sms_send_request \<Rightarrow> json" where
  "beemPayload stamp q = JObj (
     [(''source_addr'', JStr (sq_source_addr q)), (''message'', JStr (sq_message q)),
      (''encoding'', JNum (showNat (sq_encoding q)))] @
     (case sq_schedule_time q of None \<Rightarrow> [] | Some t \<Rightarrow> [(''schedule_time'', JStr (stamp t))]) @
     [(''recipients'', JArr (map (\<lambda>(i, dest).
        JObj [(''recipient_id'', JNum (showNat i)), (''dest_addr'', JStr dest)]) (sq_recipients q)))])"

definition beemSend :: "rail_env \<Rightarrow> (int \<Rightarrow> string) \<Rightarrow> sms_send_request \<Rightarrow> (rail_session, json provider_result) action" where
  "beemSend n stamp q = request_beem n ''post'' ''/v1/send'' (beemPayload stamp q) []"

definition beemSenderNames :: "rail_env \<Rightarrow> (rail_session, json provider_result) action" where
  "beemSenderNames n = request_beem n ''get'' ''/public/v1/sender-names'' JUndefined []"

definition beemDeliveryReport :: "rail_env \<Rightarrow> string \<Rightarrow> string \<Rightarrow> (rail_session, json provider_result) action" where
  "beemDeliveryReport n requestId dest = request_beem n ''get'' ''/public/v1/delivery-reports'' JUndefined
     [(''request_id'', requestId), (''dest_addr'', dest)]"

definition beemBalance :: "rail_env \<Rightarrow> (rail_session, json provider_result) action" where
  "beemBalance n = request_beem n ''get'' ''/public/v1/vendors/balance'' JUndefined []"

section \<open>Which rail\<close>

definition chosenRail :: "config \<Rightarrow> 'a \<Rightarrow> 'a \<Rightarrow> 'a" where
  "chosenRail c client mock = (if cfg_mockProviders c then mock else client)"


section \<open>Lemmas\<close>

declare request_clickpesa.simps [simp del]

lemma exchange_calls: "rl_calls (snd (exchange net c s)) = rl_calls s @ [c]"
  by (simp add: exchange_def Let_def split: sum.split)

lemma exchange_Inr: "net (rl_calls s @ [c]) = Inr res \<Longrightarrow> exchange net c s = (Inr res, s\<lparr>rl_calls := rl_calls s @ [c]\<rparr>)"
  by (simp add: exchange_def)

text \<open>What a request may add to the calls of a session.\<close>

definition callsWithin :: "rail_config \<Rightarrow> string \<Rightarrow> string \<Rightarrow> json \<Rightarrow> nat \<Rightarrow> http_call list \<Rightarrow> bool" where
  "callsWithin g verb url body k cs \<longleftrightarrow>
     length cs \<le> 2 * k \<and> length (filter (\<lambda>c. c \<noteq> tokenCall g) cs) \<le> k \<and>
     (\<forall>c \<in> set cs. c = tokenCall g \<or> (\<exists>token. c = resourceCall verb url body token))"

lemma callsWithin_append:
  "callsWithin g verb url body k cs \<Longrightarrow> callsWithin g verb url body m ds \<Longrightarrow> callsWithin g verb url body (k + m) (cs @ ds)"
  by (auto simp: callsWithin_def)

lemma accessToken_calls:
  "\<exists>cs. rl_calls (snd (accessToken net g t s)) = rl_calls s @ cs \<and> (cs = [] \<or> cs = [tokenCall g])"
proof -
  have "\<exists>cs. rl_calls (snd (obtainToken net g t s)) = rl_calls s @ cs \<and> (cs = [] \<or> cs = [tokenCall g])"
    using exchange_calls [of net "tokenCall g" s]
    by (auto simp: obtainToken_def andThen_def raise_def ret_def Let_def split: prod.split sum.split)
  then show ?thesis by (auto simp: accessToken_def ret_def split: option.split)
qed

text \<open>One round: a token if there is none, the call, and what to do with its answer.\<close>

lemma round_calls:
  assumes "\<And>res u. \<exists>cs. rl_calls (snd (k res u)) = rl_calls u @ cs \<and> callsWithin g verb url body m cs"
  shows "\<exists>cs. rl_calls (snd (andThen (accessToken net g t) (\<lambda>token.
      andThen (exchange net (resourceCall verb url body token)) k) s)) = rl_calls s @ cs \<and>
    callsWithin g verb url body (Suc m) cs"
proof -
  obtain cs where cs: "rl_calls (snd (accessToken net g t s)) = rl_calls s @ cs" "cs = [] \<or> cs = [tokenCall g]"
    using accessToken_calls by blast
  obtain r u where run: "accessToken net g t s = (r, u)" by fastforce
  show ?thesis
  proof (cases r)
    case (Inl err)
    then show ?thesis using cs run by (auto simp: andThen_def callsWithin_def)
  next
    case (Inr token)
    let ?c = "resourceCall verb url body token"
    obtain q v where ex: "exchange net ?c u = (q, v)" by fastforce
    have v: "rl_calls v = rl_calls u @ [?c]" using exchange_calls [of net ?c u] ex by simp
    have one: "callsWithin g verb url body 1 (cs @ [?c])" using cs(2) by (auto simp: callsWithin_def)
    show ?thesis
    proof (cases q)
      case (Inl err)
      have "callsWithin g verb url body (Suc m) (cs @ [?c])" using one by (auto simp: callsWithin_def)
      then show ?thesis using cs run Inr Inl ex v by (auto simp: andThen_def)
    next
      case (Inr res)
      obtain ds where "rl_calls (snd (k res v)) = rl_calls v @ ds" "callsWithin g verb url body m ds"
        using assms by blast
      then show ?thesis using cs run \<open>r = Inr token\<close> Inr ex v callsWithin_append [OF one]
        by (fastforce simp: andThen_def)
    qed
  qed
qed



text \<open>What a round does with the answer.\<close>

definition afterCall ::
    "network \<Rightarrow> rail_config \<Rightarrow> int \<Rightarrow> string \<Rightarrow> string \<Rightarrow> json \<Rightarrow> bool \<Rightarrow> http_answer \<Rightarrow> (rail_session, json provider_result) action"
where
  "afterCall net g t verb url body retried res =
     (if ha_status res = 401 \<and> \<not> retried
      then thenDo (modify (\<lambda>s. s\<lparr>rl_token := None\<rparr>)) (request_clickpesa net g t verb url body True)
      else thenDo (traced (TracedResponse (ha_status res) (redact (ha_data res)))) (ret (answered res)))"

definition round_clickpesa ::
    "network \<Rightarrow> rail_config \<Rightarrow> int \<Rightarrow> string \<Rightarrow> string \<Rightarrow> json \<Rightarrow> bool \<Rightarrow> (rail_session, json provider_result) action"
where
  "round_clickpesa net g t verb url body retried =
     andThen (accessToken net g t) (\<lambda>token.
       andThen (exchange net (resourceCall verb url body token)) (afterCall net g t verb url body retried))"

lemma request_clickpesa_ready:
  "credentialsReady g \<Longrightarrow> request_clickpesa net g t verb url body retried s =
     attempt (round_clickpesa net g t verb url body retried) clickpesaFailed
       (s\<lparr>rl_trace := rl_trace s @ [TracedRequest verb url (redact body)]\<rparr>)"
  by (subst request_clickpesa.simps) (simp add: traced_def round_clickpesa_def afterCall_def [abs_def])

lemma request_clickpesa_not_ready:
  "\<not> credentialsReady g \<Longrightarrow> request_clickpesa net g t verb url body retried =
     ret (failResult ''ClickPesa credentials not configured'')"
  by (subst request_clickpesa.simps) simp

lemma attempt_failed:
  "\<exists>res. fst (attempt m clickpesaFailed s) = Inr res"
  "rl_calls (snd (attempt m clickpesaFailed s)) = rl_calls (snd (m s))"
  by (auto simp: attempt_def clickpesaFailed_def traced_def ret_def Let_def split: prod.split sum.split)

lemma request_calls:
  "\<exists>cs. rl_calls (snd (request_clickpesa net g t verb url body retried s)) = rl_calls s @ cs \<and>
     callsWithin g verb url body (if retried then 1 else 2) cs"
proof (cases "credentialsReady g")
  case False
  then show ?thesis by (simp add: request_clickpesa_not_ready ret_def callsWithin_def)
next
  case True
  have quiet: "callsWithin g verb url body k []" for k by (simp add: callsWithin_def)
  have once: "\<exists>cs. rl_calls (snd (request_clickpesa net g t verb url body True u)) = rl_calls u @ cs \<and>
      callsWithin g verb url body 1 cs" for u
    unfolding request_clickpesa_ready [OF True] attempt_failed round_clickpesa_def
    using round_calls [where m = 0 and k = "afterCall net g t verb url body True" and net = net and g = g and t = t
        and verb = verb and url = url and body = body
        and s = "u\<lparr>rl_trace := rl_trace u @ [TracedRequest verb url (redact body)]\<rparr>"] quiet
    by (simp add: afterCall_def traced_def ret_def)
  show ?thesis
  proof (cases retried)
    case False
    have "\<exists>cs. rl_calls (snd (afterCall net g t verb url body False res u)) = rl_calls u @ cs \<and>
        callsWithin g verb url body 1 cs" for res u
      using once [of "u\<lparr>rl_token := None\<rparr>"] quiet by (simp add: afterCall_def traced_def ret_def)
    from round_calls [where m = 1 and k = "afterCall net g t verb url body False", OF this, of net t
        "s\<lparr>rl_trace := rl_trace s @ [TracedRequest verb url (redact body)]\<rparr>"]
    show ?thesis using False
      by (simp add: request_clickpesa_ready [OF True] attempt_failed round_clickpesa_def numeral_2_eq_2)
  qed (use once in simp)
qed


section \<open>The token\<close>

lemma accessToken_cached:
  "rl_token s = Some (v, expires) \<Longrightarrow> t < expires \<Longrightarrow> accessToken net g t s = (Inr v, s)"
  by (simp add: accessToken_def ret_def)

definition tokenAnswer :: "string + http_answer \<Rightarrow> string option" where
  "tokenAnswer a =
     (case a of
        Inl _ \<Rightarrow> None
      | Inr res \<Rightarrow>
          if ha_status res \<noteq> 200 \<or> falsy (field ''token'' (ha_data res)) then None
          else Some (jsString (field ''token'' (ha_data res))))"

lemma accessToken_fresh:
  assumes "credentialsReady g" and "\<forall>v expires. rl_token s = Some (v, expires) \<longrightarrow> expires \<le> t"
    and "tokenAnswer (net (rl_calls s @ [tokenCall g])) = Some v"
  shows "accessToken net g t s =
     (Inr v, s\<lparr>rl_calls := rl_calls s @ [tokenCall g], rl_token := Some (v, t + TOKEN_TTL_MS)\<rparr>)"
proof -
  obtain res where res: "net (rl_calls s @ [tokenCall g]) = Inr res"
    and ok: "ha_status res = 200" "\<not> falsy (field ''token'' (ha_data res))" "v = jsString (field ''token'' (ha_data res))"
    using assms(3) by (auto simp: tokenAnswer_def split: sum.splits if_splits)
  have "obtainToken net g t s = (Inr v, s\<lparr>rl_calls := rl_calls s @ [tokenCall g], rl_token := Some (v, t + TOKEN_TTL_MS)\<rparr>)"
    using assms(1) ok by (simp add: obtainToken_def andThen_def exchange_Inr [where net = net, OF res] Let_def ret_def)
  then show ?thesis using assms(2) by (auto simp: accessToken_def split: option.split)
qed

lemma round_answered:
  assumes "accessToken net g t s = (Inr token, u)"
    and "net (rl_calls u @ [resourceCall verb url body token]) = Inr res"
  shows "round_clickpesa net g t verb url body retried s =
     afterCall net g t verb url body retried res (u\<lparr>rl_calls := rl_calls u @ [resourceCall verb url body token]\<rparr>)"
  using assms by (simp add: round_clickpesa_def andThen_def exchange_Inr)

lemma request_settled:
  assumes "credentialsReady g" and "accessToken net g t (s\<lparr>rl_trace := rl_trace s @ [TracedRequest verb url (redact body)]\<rparr>) = (Inr token, u)"
    and "net (rl_calls u @ [resourceCall verb url body token]) = Inr res" and "retried \<or> ha_status res \<noteq> 401"
  shows "request_clickpesa net g t verb url body retried s = (Inr (answered res),
     u\<lparr>rl_calls := rl_calls u @ [resourceCall verb url body token],
       rl_trace := rl_trace u @ [TracedResponse (ha_status res) (redact (ha_data res))]\<rparr>)"
proof -
  have "\<not> (ha_status res = 401 \<and> \<not> retried)" using assms(4) by blast
  then show ?thesis
    by (simp only: request_clickpesa_ready [OF assms(1)] attempt_def round_answered [OF assms(2,3)] afterCall_def if_False)
      (simp add: traced_def ret_def)
qed

section \<open>Properties\<close>


text \<open>C20: the token of a ClickPesa session. While the cached token is valid a request sends one call,
  with that token as the whole authorization header, and returns what the answer says. When that call
  is answered with 401 the token is dropped, a new one is obtained and kept for 55 minutes, the call
  is repeated with it, and the second answer is returned as it is, also when it is a 401.\<close>

theorem clickpesa_token_refresh:
  assumes ready: "credentialsReady (ge_rail n)"
    and live: "rl_token s = Some (old, expires)" "ge_time n < expires"
    and first: "ge_net n (rl_calls s @ [c1]) = Inr a1" "c1 = resourceCall verb url body old"
    and fresh: "tokenAnswer (ge_net n (rl_calls s @ [c1, tokenCall (ge_rail n)])) = Some new"
    and second: "ge_net n (rl_calls s @ [c1, tokenCall (ge_rail n), c2]) = Inr a2" "c2 = resourceCall verb url body new"
    and run: "clickpesa n verb url body s = (r, s')"
  shows "hd (hc_headers c1) = (''Authorization'', old) \<and>
    (if ha_status a1 \<noteq> 401
     then r = Inr (answered a1) \<and> rl_calls s' = rl_calls s @ [c1] \<and> rl_token s' = rl_token s
     else r = Inr (answered a2) \<and> rl_calls s' = rl_calls s @ [c1, tokenCall (ge_rail n), c2] \<and>
          rl_token s' = Some (new, ge_time n + 55 * 60 * 1000))"
proof -
  let ?g = "ge_rail n" and ?net = "ge_net n" and ?t = "ge_time n"
  let ?s = "s\<lparr>rl_trace := rl_trace s @ [TracedRequest verb url (redact body)]\<rparr>"
  have tok: "accessToken ?net ?g ?t ?s = (Inr old, ?s)" using live by (simp add: accessToken_cached)
  have call1: "?net (rl_calls ?s @ [resourceCall verb url body old]) = Inr a1" using first by simp
  have hd: "hd (hc_headers c1) = (''Authorization'', old)" using first(2) by (simp add: resourceCall_def)
  show ?thesis
  proof (cases "ha_status a1 = 401")
    case False
    then show ?thesis
      using request_settled [OF ready tok call1, of False] run hd first(2) by (auto simp: clickpesa_def)
  next
    case True
    let ?u = "?s\<lparr>rl_calls := rl_calls s @ [c1], rl_token := None\<rparr>"
    let ?v = "?u\<lparr>rl_trace := rl_trace ?u @ [TracedRequest verb url (redact body)]\<rparr>"
    have tok2: "accessToken ?net ?g ?t ?v = (Inr new,
        ?v\<lparr>rl_calls := rl_calls ?v @ [tokenCall ?g], rl_token := Some (new, ?t + TOKEN_TTL_MS)\<rparr>)"
      using fresh by (intro accessToken_fresh [OF ready]) simp_all
    have call2: "?net (rl_calls (?v\<lparr>rl_calls := rl_calls ?v @ [tokenCall ?g],
        rl_token := Some (new, ?t + TOKEN_TTL_MS)\<rparr>) @ [resourceCall verb url body new]) = Inr a2"
      using second by simp
    have again: "afterCall ?net ?g ?t verb url body False a1 (?s\<lparr>rl_calls := rl_calls s @ [c1]\<rparr>) =
        request_clickpesa ?net ?g ?t verb url body True ?u"
      using True by (simp add: afterCall_def)
    obtain x where x: "request_clickpesa ?net ?g ?t verb url body True ?u = (Inr (answered a2), x)"
      "rl_calls x = rl_calls s @ [c1, tokenCall ?g, c2]" "rl_token x = Some (new, ?t + TOKEN_TTL_MS)"
      using request_settled [OF ready tok2 call2, of True] second(2) by simp
    have "clickpesa n verb url body s =
        (case request_clickpesa ?net ?g ?t verb url body True ?u of (Inl err, z) \<Rightarrow> clickpesaFailed err z | (Inr y, z) \<Rightarrow> (Inr y, z))"
      using again first(2)
      by (simp add: clickpesa_def request_clickpesa_ready [OF ready, of _ _ _ _ _ False] attempt_def
          round_answered [OF tok call1])
    then have "clickpesa n verb url body s = (Inr (answered a2), x)" unfolding x(1) by simp
    then show ?thesis using True run hd x(2,3) by (simp add: TOKEN_TTL_MS_def)
  qed
qed


text \<open>A network that refuses the first call, then hands out a token and accepts.\<close>

definition sample_net :: network where
  "sample_net calls = Inr (if length calls = 1 then \<lparr>ha_status = 401, ha_data = JStr ''Unauthorized''\<rparr>
     else if length calls = 2 then \<lparr>ha_status = 200, ha_data = JObj [(''token'', JStr ''new'')]\<rparr>
     else \<lparr>ha_status = 200, ha_data = JArr []\<rparr>)"

definition sample_rail :: rail_env where
  "sample_rail = \<lparr>ge_net = sample_net,
     ge_rail = \<lparr>rg_clientId = ''id'', rg_apiKey = ''key'', rg_beemApiKey = [], rg_beemSecretKey = []\<rparr>,
     ge_hmac = (\<lambda>k m. k @ m), ge_config = default_config\<lparr>cfg_checksumKey := Some ''k''\<rparr>, ge_time = 1000\<rparr>"

definition sample_session :: rail_session where
  "sample_session = \<lparr>rl_token = Some (''old'', 2000), rl_calls = [], rl_trace = []\<rparr>"

theorem clickpesa_token_refresh_witness:
  "\<exists>s'. queryPayment sample_rail ''REF1'' sample_session =
      (Inr \<lparr>rs_ok = True, rs_httpStatus = Some 200, rs_data = Some (JArr []), rs_error = None\<rparr>, s') \<and>
    map hc_url (rl_calls s') = [''/third-parties/payments/REF1'', ''/third-parties/generate-token'',
      ''/third-parties/payments/REF1''] \<and> rl_token s' = Some (''new'', 3301000)"
proof -
  let ?url = "''/third-parties/payments/'' @ encodeURIComponent ''REF1''"
  have url: "encodeURIComponent ''REF1'' = ''REF1''" by code_simp
  obtain r s' where run: "clickpesa sample_rail ''get'' ?url JUndefined sample_session = (r, s')" by fastforce
  have facts: "credentialsReady (ge_rail sample_rail)" "rl_token sample_session = Some (''old'', 2000)"
    "ge_time sample_rail < 2000"
    "tokenAnswer (ge_net sample_rail (rl_calls sample_session @
       [resourceCall ''get'' ?url JUndefined ''old'', tokenCall (ge_rail sample_rail)])) = Some ''new''"
    by (simp_all add: sample_rail_def sample_session_def credentialsReady_def sample_net_def tokenAnswer_def
        field_def member_def falsy_def nullish_def)
  from clickpesa_token_refresh [OF facts(1-3) _ refl facts(4) _ refl run,
      of "\<lparr>ha_status = 401, ha_data = JStr ''Unauthorized''\<rparr>" "\<lparr>ha_status = 200, ha_data = JArr []\<rparr>"]
  show ?thesis using run
    by (simp add: queryPayment_def url sample_rail_def sample_session_def sample_net_def answered_def succeeded_def
        resourceCall_def tokenCall_def)
qed

section \<open>What the provider receives\<close>

text \<open>The members a payload leaves undefined are not sent: \<open>JSON.stringify\<close>, as the HTTP library does.\<close>

fun onWire :: "json \<Rightarrow> json" where
  "onWire (JObj kvs) = JObj (map (\<lambda>(k, v). (k, onWire v)) (filter (\<lambda>(k, v). v \<noteq> JUndefined) kvs))"
| "onWire (JArr xs) = JArr (map (\<lambda>v. if v = JUndefined then JNull else onWire v) xs)"
| "onWire v = v"

definition scalar :: "json \<Rightarrow> bool" where
  "scalar v \<longleftrightarrow> (case v of JObj _ \<Rightarrow> False | JArr _ \<Rightarrow> False | _ \<Rightarrow> True)"

lemma scalar_simps: "scalar v \<Longrightarrow> onWire v = v" "scalar v \<Longrightarrow> canonicalize v = (if v = JUndefined then JNull else v)"
  by (cases v; simp add: scalar_def)+

definition given :: "(string \<times> json) list \<Rightarrow> (string \<times> json) list" where
  "given kvs = filter (\<lambda>kv. snd kv \<noteq> JUndefined) kvs"

lemma onWire_flat: "(\<forall>v \<in> snd ` set kvs. scalar v) \<Longrightarrow> onWire (JObj kvs) = JObj (given kvs)"
  by (induction kvs) (auto simp: given_def scalar_simps)

lemma setKey_new: "k \<notin> fst ` set kvs \<Longrightarrow> setKey k v kvs = kvs @ [(k, v)]"
  by (induction kvs) auto

text \<open>The length of the text an object is signed as.\<close>

lemma length_commaSep: "length (commaSep xs) = sum_list (map length xs) + (length xs - 1)"
  by (cases xs) (simp_all add: commaSep_def length_concat comp_def sum_list_Suc)

definition memberText :: "string \<times> json \<Rightarrow> string" where
  "memberText kv = quoteString (fst kv) @ CHR '':'' # stringify (canonicalize (snd kv))"

lemma mset_enumerated: "mset (enumerated kvs) = mset kvs"
  by (simp add: enumerated_def)

lemma signed_length:
  "length (stringify (canonicalize (JObj kvs))) =
     (let ms = filter (\<lambda>kv. \<not> isChecksumKey (fst kv)) kvs in
      2 + sum_list (map (length \<circ> memberText) ms) + (length ms - 1))"
proof -
  let ?ms = "filter (\<lambda>kv. \<not> isChecksumKey (fst kv)) kvs"
  let ?cs = "enumerated (filter (\<lambda>kv. \<not> isChecksumKey (fst kv)) (sort_key fst (map (\<lambda>(k, v). (k, canonicalize v)) kvs)))"
  let ?text = "\<lambda>(k, v). quoteString k @ CHR '':'' # stringify v"
  have m: "mset ?cs = mset (map (\<lambda>(k, v). (k, canonicalize v)) ?ms)"
    by (simp add: mset_enumerated filter_sort filter_map comp_def split_beta)
  have "mset (map (length \<circ> ?text) ?cs) = mset (map (length \<circ> memberText) ?ms)"
    using arg_cong [OF m, of "image_mset (length \<circ> ?text)"]
    by (simp add: memberText_def comp_def split_beta multiset.map_comp)
  then have sum: "sum_list (map (length \<circ> ?text) ?cs) = sum_list (map (length \<circ> memberText) ?ms)"
    by (metis sum_mset_sum_list)
  have "length ?cs = length ?ms" using m by (metis length_map size_mset)
  then show ?thesis using sum by (simp add: length_commaSep Let_def comp_def)
qed


lemma sum_list_filter_less:
  "x \<in> set xs \<Longrightarrow> \<not> P x \<Longrightarrow> 0 < f x \<Longrightarrow> sum_list (map f (filter P xs)) < (sum_list (map f xs) :: nat)"
proof (induction xs)
  case (Cons y ys)
  have "sum_list (map f (filter P ys)) \<le> sum_list (map f ys)" by (induction ys) auto
  then show ?case using Cons by auto
qed simp

lemma undefined_changes_text:
  assumes "\<not> isChecksumKey k" and "(k, JUndefined) \<in> set kvs"
  shows "stringify (canonicalize (JObj kvs)) \<noteq> stringify (canonicalize (JObj (given kvs)))"
proof -
  let ?ms = "filter (\<lambda>kv. \<not> isChecksumKey (fst kv)) kvs"
  have eq: "filter (\<lambda>kv. \<not> isChecksumKey (fst kv)) (given kvs) = filter (\<lambda>kv. snd kv \<noteq> JUndefined) ?ms"
    by (simp add: given_def conj_commute)
  moreover have "sum_list (map (length \<circ> memberText) (filter (\<lambda>kv. snd kv \<noteq> JUndefined) ?ms)) < sum_list (map (length \<circ> memberText) ?ms)"
    using assms by (intro sum_list_filter_less [of "(k, JUndefined)"]) (simp_all add: memberText_def)
  moreover have "length (filter (\<lambda>kv. snd kv \<noteq> JUndefined) ?ms) \<le> length ?ms"
    by (rule length_filter_le)
  ultimately have "length (stringify (canonicalize (JObj (given kvs)))) < length (stringify (canonicalize (JObj kvs)))"
    unfolding signed_length Let_def eq by linarith
  then show ?thesis by auto
qed



definition sample_preview :: "json \<Rightarrow> (string \<times> json) list" where
  "sample_preview details = [(''amount'', JStr ''1500''), (''currency'', JStr ''TZS''),
     (''orderReference'', JStr ''ABCDE1''), (''phoneNumber'', JStr ''255712345678''),
     (''fetchSenderDetails'', details)]"



section \<open>What is traced\<close>

definition hidden :: "json \<Rightarrow> bool" where
  "hidden body \<longleftrightarrow> (\<forall>k \<in> set SECRET_KEYS. field k body = JUndefined \<or> field k body = JStr ''***redacted***'')"

definition secretFree :: "trace_event \<Rightarrow> bool" where
  "secretFree ev = (case ev of TracedRequest _ _ body \<Rightarrow> hidden body | TracedResponse _ body \<Rightarrow> hidden body | TracedError _ \<Rightarrow> True)"

lemma member_redact: "k \<in> set SECRET_KEYS \<Longrightarrow> member k (map redactMember kvs) \<in> {JUndefined, JStr ''***redacted***''}"
  by (induction kvs) (auto simp: member_def redactMember_def split: option.splits)

lemma showNat_not_secret: "k \<in> set SECRET_KEYS \<Longrightarrow> k \<noteq> showNat n"
  using showNat_digits [of n] by (auto simp: SECRET_KEYS_def isDigit_def)

lemma member_indices:
  assumes "k \<in> set SECRET_KEYS"
  shows "member k (zip (map showNat [0..<length xs]) xs) = JUndefined"
proof -
  have "k \<notin> fst ` set (zip (map showNat [0..<length xs]) xs)"
  proof
    assume "k \<in> fst ` set (zip (map showNat [0..<length xs]) xs)"
    then obtain v where "(k, v) \<in> set (zip (map showNat [0..<length xs]) xs)" by auto
    then have "k \<in> set (map showNat [0..<length xs])" by (rule set_zip_leftD)
    then obtain n where "k = showNat n" by auto
    then show False using showNat_not_secret [OF assms] by blast
  qed
  then show ?thesis by (simp add: member_def map_of_eq_None_iff [THEN iffD2])
qed

lemma hidden_redact: "hidden (redact body)"
  using member_redact member_indices by (cases body) (auto simp: hidden_def redact_def field_def)

lemma keeps_secretFree:
  "keeps (\<lambda>s. list_all secretFree (rl_trace s)) (request_clickpesa net g t verb url body retried)"
proof -
  let ?P = "\<lambda>s :: rail_session. list_all secretFree (rl_trace s)"
  have ev: "keeps ?P (traced ev)" if "secretFree ev" for ev
    using that by (simp add: traced_def keeps_def)
  have ex: "keeps ?P (exchange net c)" for c
    by (rule keepsI) (simp add: exchange_def Let_def split: sum.split)
  have failed: "keeps ?P (clickpesaFailed err)" for err
    unfolding clickpesaFailed_def Let_def by (intro keeps_rules ev) (simp add: secretFree_def)
  have tok: "keeps ?P (accessToken net g t)"
    unfolding accessToken_def obtainToken_def Let_def by (intro keeps_rules keeps_modify ex) (auto split: option.split intro!: keeps_rules keeps_modify ex)
  have once: "keeps ?P (request_clickpesa net g t verb url body True)"
    by (subst request_clickpesa.simps)
      (intro keeps_rules ev ex tok failed; simp add: secretFree_def hidden_redact)
  show ?thesis
    by (cases retried; subst request_clickpesa.simps)
      (intro keeps_rules ev ex tok failed once keeps_modify; simp add: secretFree_def hidden_redact)+
qed


text \<open>No secret reaches the trace: whatever the rail answers, the payloads and answers a ClickPesa
  request records carry no checksum, API key or authorization of their own, only the mark that
  replaces them.\<close>

theorem clickpesa_trace_redacted:
  assumes "list_all secretFree (rl_trace s)" and "clickpesa n verb url body s = (r, s')"
  shows "list_all secretFree (rl_trace s')"
  using keeps_runD [OF keeps_secretFree assms(2) [unfolded clickpesa_def] assms(1)] .

theorem clickpesa_trace_redacted_witness:
  "list_all secretFree (rl_trace (snd (previewUssdPush sample_rail (sample_preview (JBool True)) sample_session)))"
proof -
  obtain r s' where run: "clickpesa sample_rail ''post'' ''/third-parties/payments/preview-ussd-push-request''
      (signed sample_rail (sample_preview (JBool True))) sample_session = (r, s')" by fastforce
  have "list_all secretFree (rl_trace sample_session)" by (simp add: sample_session_def)
  from clickpesa_trace_redacted [OF this run] run show ?thesis by (simp add: previewUssdPush_def)
qed

section \<open>Amounts on the wire\<close>

lemma amountValue_parts:
  assumes "list_all isDigit w" and "list_all isDigit f" and "f \<noteq> []"
  shows "amountValue w = of_int (digitsValue w)"
    and "amountValue (w @ CHR ''.'' # f) = of_int (digitsValue w) + of_int (digitsValue f) / 10 ^ length f"
proof -
  have all: "\<forall>c \<in> set w. isDigit c" using assms(1) by (simp add: list_all_iff)
  then have whole: "takeWhile isDigit w = w" "dropWhile isDigit w = []" by simp_all
  show "amountValue w = of_int (digitsValue w)"
    unfolding amountValue_def Let_def whole by (simp add: digitsValue_def)
  have "\<not> isDigit CHR ''.''" by (simp add: isDigit_def)
  then have "takeWhile isDigit (w @ CHR ''.'' # f) = w" "dropWhile isDigit (w @ CHR ''.'' # f) = CHR ''.'' # f"
    using all by (simp_all add: takeWhile_append2 dropWhile_append2)
  then show "amountValue (w @ CHR ''.'' # f) = of_int (digitsValue w) + of_int (digitsValue f) / 10 ^ length f"
    by (simp add: amountValue_def)
qed

text \<open>The number a payout is sent with has the value of the payout.\<close>

lemma jsNumber_value:
  assumes "0 \<le> v" and "is_cents v"
  shows "amountValue (jsNumber v) = v"
proof -
  obtain c where v: "v = of_nat c / 100" and
    shown: "toFixed2 v = showNat (c div 100) @ CHR ''.'' # char_of (48 + c mod 100 div 10) # [char_of (48 + c mod 100 mod 10)]"
    using assms by (rule toFixed2_parts)
  define w where "w = showNat (c div 100)"
  define a b where "a = c mod 100 div 10" and "b = c mod 100 mod 10"
  let ?a = "char_of (48 + a) :: char" and ?b = "char_of (48 + b) :: char"
  have w: "list_all isDigit w" "digitsValue w = int (c div 100)"
    using showNat_digits [of "c div 100"] by (simp_all add: w_def)
  have lt: "a < 10" "b < 10" by (simp_all add: a_def b_def)
  note da = digit_char [OF lt(1)] and db = digit_char [OF lt(2)]
  have nought: "char_of (48 :: nat) = CHR ''0''" by (simp add: char_of_def bit_0)
  have "digitOf CHR ''0'' = 0" by (simp add: digitOf_def)
  then have zero: "?a = CHR ''0'' \<longleftrightarrow> a = 0" "?b = CHR ''0'' \<longleftrightarrow> b = 0"
    using da db nought \<open>digitOf CHR ''0'' = 0\<close> by (metis add_0_right)+
  have dot: "\<forall>d \<in> set w. d \<noteq> CHR ''.''" using w(1) by (auto simp: list_all_iff isDigit_def)
  have js: "jsNumber v = (if b \<noteq> 0 then w @ CHR ''.'' # [?a, ?b] else if a \<noteq> 0 then w @ CHR ''.'' # [?a] else w)"
  proof -
    have shape: "toFixed2 v = w @ CHR ''.'' # [?a, ?b]" unfolding shown w_def a_def b_def by (rule refl)
    have whole: "takeWhile (\<lambda>d. d \<noteq> CHR ''.'') (w @ CHR ''.'' # [?a, ?b]) = w"
      using dot by (simp add: takeWhile_append2)
    show ?thesis unfolding jsNumber_def Let_def shape whole by (simp add: zero nought)
  qed
  have c: "(of_nat c :: rat) = of_nat (c div 100) * 100 + of_nat a * 10 + of_nat b"
  proof -
    have "c = c div 100 * 100 + a * 10 + b" by (simp add: a_def b_def)
    from arg_cong [OF this, of "of_nat :: nat \<Rightarrow> rat"] show ?thesis
      by (simp only: of_nat_add of_nat_mult of_nat_numeral)
  qed
  have vals: "digitsValue [?a, ?b] = int (10 * a + b)" "digitsValue [?a] = int a"
    using da db by (simp_all add: digitsValue_def)
  have two: "amountValue (w @ CHR ''.'' # [?a, ?b]) = of_nat (c div 100) + (of_nat a * 10 + of_nat b) / 100"
    using amountValue_parts(2) [OF w(1), of "[?a, ?b]"] da db unfolding w(2) vals by simp
  have one: "amountValue (w @ CHR ''.'' # [?a]) = of_nat (c div 100) + of_nat a / 10"
    using amountValue_parts(2) [OF w(1), of "[?a]"] da unfolding w(2) vals by simp
  have none: "amountValue w = of_nat (c div 100)"
    using amountValue_parts(1) [OF w(1), of "[?a]"] da unfolding w(2) by simp
  show ?thesis unfolding js using two one none by (simp add: v c add_divide_distrib)
qed

end
