(* ===== verification/Races.thy ===== *)
theory Races
  imports System
begin


text \<open>
  Wallet movements at the level of their statements. Elsewhere in this development a request is one
  step; here the transactions of wallets/wallets.service.ts run interleaved, as the database runs them
  when a transaction asks for no isolation level: PostgreSQL's READ COMMITTED, where each statement sees
  what has been committed before it and the transaction's own writes, and an update waits for the other
  transactions that have written its row. Wallets may be frozen and activated at any time. The last
  section interleaves two deliveries of the same provider report.
\<close>

section \<open>Statements of a transaction\<close>

datatype stmt =
    ReadWallet ident bool
  | RequireCovered rat
  | DebitWhere ident rat
  | CreditBy ident rat
  | StoreRead ident rat
  | WriteRow ident rat

text \<open>The transaction of \<open>move\<close>: read the wallet and refuse a frozen one (unless \<open>ignoreFrozen\<close>), check
  the floor, update relatively, write the ledger row from what was read.\<close>

definition debitProgram :: "bool \<Rightarrow> ident \<Rightarrow> rat \<Rightarrow> stmt list" where
  "debitProgram ignoreFrozen w delta = [ReadWallet w ignoreFrozen, RequireCovered delta, DebitWhere w delta, WriteRow w (- delta)]"

definition creditProgram :: "bool \<Rightarrow> ident \<Rightarrow> rat \<Rightarrow> stmt list" where
  "creditProgram ignoreFrozen w delta = [ReadWallet w ignoreFrozen, CreditBy w delta, WriteRow w delta]"

text \<open>The transaction of a transfer: the second leg stores the sum of what it read and the amount.\<close>

definition transferProgram :: "ident \<Rightarrow> ident \<Rightarrow> rat \<Rightarrow> rat \<Rightarrow> stmt list" where
  "transferProgram source target totalDebit amount =
     [ReadWallet source False, RequireCovered totalDebit, DebitWhere source totalDebit, WriteRow source (- totalDebit),
      ReadWallet target False, StoreRead target amount, WriteRow target amount]"

section \<open>Interleavings\<close>

datatype outcome = Running | Committed | RolledBack

record ledger_entry =
  le_wallet :: ident
  le_amount :: rat
  le_before :: rat
  le_after :: rat

record process =
  pr_todo :: "stmt list"
  pr_read :: rat
  pr_writes :: "ident \<rightharpoonup> rat"
  pr_rows :: "ledger_entry list"
  pr_outcome :: outcome

record conf =
  cf_balance :: "ident \<Rightarrow> rat"
  cf_frozen :: "ident \<Rightarrow> bool"
  cf_rows :: "ledger_entry list"
  cf_procs :: "process list"

definition begun :: "stmt list \<Rightarrow> process" where
  "begun program = \<lparr>pr_todo = program, pr_read = 0, pr_writes = Map.empty, pr_rows = [], pr_outcome = Running\<rparr>"

definition started :: "(ident \<Rightarrow> rat) \<Rightarrow> (ident \<Rightarrow> bool) \<Rightarrow> stmt list list \<Rightarrow> conf" where
  "started b f programs = \<lparr>cf_balance = b, cf_frozen = f, cf_rows = [], cf_procs = map begun programs\<rparr>"

definition seen :: "conf \<Rightarrow> process \<Rightarrow> ident \<Rightarrow> rat" where
  "seen c p w = (case pr_writes p w of Some v \<Rightarrow> v | None \<Rightarrow> cf_balance c w)"

definition heldByOther :: "conf \<Rightarrow> nat \<Rightarrow> ident \<Rightarrow> bool" where
  "heldByOther c i w \<longleftrightarrow> list_ex (\<lambda>j. j \<noteq> i \<and> pr_writes (cf_procs c ! j) w \<noteq> None) [0..<length (cf_procs c)]"

definition rolledBack :: "process \<Rightarrow> process" where
  "rolledBack p = p\<lparr>pr_todo := [], pr_writes := Map.empty, pr_rows := [], pr_outcome := RolledBack\<rparr>"

definition wrote :: "process \<Rightarrow> ident \<Rightarrow> rat \<Rightarrow> process" where
  "wrote p w v = p\<lparr>pr_todo := tl (pr_todo p), pr_writes := (pr_writes p)(w \<mapsto> v)\<rparr>"

definition setProc :: "nat \<Rightarrow> process \<Rightarrow> conf \<Rightarrow> conf" where
  "setProc i p c = c\<lparr>cf_procs := (cf_procs c)[i := p]\<rparr>"

definition committed :: "nat \<Rightarrow> process \<Rightarrow> conf \<Rightarrow> conf" where
  "committed i p c = c\<lparr>cf_balance := seen c p, cf_rows := cf_rows c @ pr_rows p,
     cf_procs := (cf_procs c)[i := p\<lparr>pr_writes := Map.empty, pr_rows := [], pr_outcome := Committed\<rparr>]\<rparr>"

text \<open>The next statement of process \<open>i\<close>; none when it waits for a row or has ended.\<close>

definition nextStep :: "nat \<Rightarrow> conf \<Rightarrow> conf option" where
  "nextStep i c =
     (if i < length (cf_procs c) \<and> pr_outcome (cf_procs c ! i) = Running then
        (let p = cf_procs c ! i in
         case pr_todo p of
           [] \<Rightarrow> Some (committed i p c)
         | ReadWallet w ignoreFrozen # ss \<Rightarrow>
             Some (setProc i (if cf_frozen c w \<and> \<not> ignoreFrozen then rolledBack p
               else p\<lparr>pr_todo := ss, pr_read := seen c p w\<rparr>) c)
         | RequireCovered x # ss \<Rightarrow>
             Some (setProc i (if pr_read p - x < 0 then rolledBack p else p\<lparr>pr_todo := ss\<rparr>) c)
         | DebitWhere w x # ss \<Rightarrow>
             if heldByOther c i w then None
             else Some (setProc i (if x \<le> seen c p w then wrote p w (seen c p w - x) else rolledBack p) c)
         | CreditBy w x # ss \<Rightarrow>
             if heldByOther c i w then None else Some (setProc i (wrote p w (seen c p w + x)) c)
         | StoreRead w x # ss \<Rightarrow>
             if heldByOther c i w then None else Some (setProc i (wrote p w (pr_read p + x)) c)
         | WriteRow w x # ss \<Rightarrow>
             Some (setProc i (p\<lparr>pr_todo := ss, pr_rows := pr_rows p @
               [\<lparr>le_wallet = w, le_amount = x, le_before = pr_read p, le_after = pr_read p + x\<rparr>]\<rparr>) c))
      else None)"

inductive interleaves :: "conf \<Rightarrow> conf \<Rightarrow> bool" for c where
  start: "interleaves c c"
| step: "interleaves c u \<Longrightarrow> nextStep i u = Some v \<Longrightarrow> interleaves c v"
| freeze: "interleaves c u \<Longrightarrow> interleaves c (u\<lparr>cf_frozen := f\<rparr>)"

text \<open>A schedule names the process of each step; a process that waits loses its turn.\<close>

fun runSchedule :: "nat list \<Rightarrow> conf \<Rightarrow> conf" where
  "runSchedule [] c = c"
| "runSchedule (i # is) c = runSchedule is (case nextStep i c of None \<Rightarrow> c | Some u \<Rightarrow> u)"

lemma runSchedule_interleaves: "interleaves c u \<Longrightarrow> interleaves c (runSchedule is u)"
  by (induction "is" arbitrary: u) (auto intro: step split: option.split)

definition rowsOf :: "ident \<Rightarrow> ledger_entry list \<Rightarrow> rat" where
  "rowsOf w rows = sum_list (map le_amount (filter (\<lambda>r. le_wallet r = w) rows))"

lemma rowsOf_simps [simp]:
  "rowsOf w [] = 0" "rowsOf w (rs @ ss) = rowsOf w rs + rowsOf w ss"
  "rowsOf w [r] = (if le_wallet r = w then le_amount r else 0)"
  by (simp_all add: rowsOf_def)

text \<open>What a step that is not a commit makes of its process.\<close>

inductive moves_on :: "conf \<Rightarrow> nat \<Rightarrow> process \<Rightarrow> process \<Rightarrow> bool" for c i p where
  rolls: "moves_on c i p (rolledBack p)"
| reads: "pr_todo p = ReadWallet w g # ss \<Longrightarrow> moves_on c i p (p\<lparr>pr_todo := ss, pr_read := seen c p w\<rparr>)"
| covered: "pr_todo p = RequireCovered x # ss \<Longrightarrow> moves_on c i p (p\<lparr>pr_todo := ss\<rparr>)"
| debits: "pr_todo p = DebitWhere w x # ss \<Longrightarrow> \<not> heldByOther c i w \<Longrightarrow> x \<le> seen c p w \<Longrightarrow>
     moves_on c i p (wrote p w (seen c p w - x))"
| credits: "pr_todo p = CreditBy w x # ss \<Longrightarrow> \<not> heldByOther c i w \<Longrightarrow>
     moves_on c i p (wrote p w (seen c p w + x))"
| stores: "pr_todo p = StoreRead w x # ss \<Longrightarrow> \<not> heldByOther c i w \<Longrightarrow>
     moves_on c i p (wrote p w (pr_read p + x))"
| rows: "pr_todo p = WriteRow w x # ss \<Longrightarrow> moves_on c i p (p\<lparr>pr_todo := ss, pr_rows := pr_rows p @
     [\<lparr>le_wallet = w, le_amount = x, le_before = pr_read p, le_after = pr_read p + x\<rparr>]\<rparr>)"

lemma nextStep_cases:
  assumes "nextStep i c = Some d"
  obtains (commit) "i < length (cf_procs c)" "pr_todo (cf_procs c ! i) = []" "d = committed i (cf_procs c ! i) c"
  | (moved) q where "i < length (cf_procs c)" "moves_on c i (cf_procs c ! i) q" "d = setProc i q c"
proof -
  let ?p = "cf_procs c ! i"
  have i: "i < length (cf_procs c)" and run: "pr_outcome ?p = Running"
    using assms by (auto simp: nextStep_def split: if_splits)
  note go = assms [unfolded nextStep_def Let_def, simplified i run, simplified]
  show thesis
  proof (cases "pr_todo ?p")
    case Nil
    then show thesis using go by (intro commit [OF i]) simp_all
  next
    case (Cons st ss)
    show thesis
    proof (cases st)
      case (ReadWallet w g)
      then show thesis
        using go Cons moved [OF i moves_on.rolls] moved [OF i moves_on.reads [where w = w and g = g and ss = ss]]
        by (auto split: if_splits)
    next
      case (RequireCovered x)
      then show thesis
        using go Cons moved [OF i moves_on.rolls] moved [OF i moves_on.covered [where x = x and ss = ss]] by (auto split: if_splits)
    next
      case (DebitWhere w x)
      then show thesis
        using go Cons moved [OF i moves_on.rolls] moved [OF i moves_on.debits [where w = w and x = x and ss = ss]] by (auto split: if_splits)
    next
      case (CreditBy w x)
      then show thesis using go Cons by (intro moved [OF i moves_on.credits]) (auto split: if_splits)
    next
      case (StoreRead w x)
      then show thesis using go Cons by (intro moved [OF i moves_on.stores]) (auto split: if_splits)
    next
      case (WriteRow w x)
      then show thesis using go Cons by (intro moved [OF i moves_on.rows]) auto
    qed
  qed
qed

section \<open>Operations\<close>

datatype operation = Debit bool ident rat | Credit bool ident rat | Transfer ident ident rat rat

fun programOf :: "operation \<Rightarrow> stmt list" where
  "programOf (Debit g w x) = debitProgram g w x"
| "programOf (Credit g w x) = creditProgram g w x"
| "programOf (Transfer s t x y) = transferProgram s t x y"

fun amounts_ok :: "operation \<Rightarrow> bool" where
  "amounts_ok (Debit g w x) \<longleftrightarrow> 0 \<le> x"
| "amounts_ok (Credit g w x) \<longleftrightarrow> 0 \<le> x"
| "amounts_ok (Transfer s t x y) \<longleftrightarrow> 0 \<le> x \<and> 0 \<le> y"

definition isMove :: "operation \<Rightarrow> bool" where
  "isMove p \<longleftrightarrow> (case p of Transfer _ _ _ _ \<Rightarrow> False | _ \<Rightarrow> True)"

section \<open>Balances stay non-negative\<close>

fun adds :: "stmt \<Rightarrow> bool" where
  "adds (CreditBy w x) \<longleftrightarrow> 0 \<le> x"
| "adds (StoreRead w x) \<longleftrightarrow> 0 \<le> x"
| "adds _ \<longleftrightarrow> True"

definition proc_safe :: "process \<Rightarrow> bool" where
  "proc_safe p \<longleftrightarrow> 0 \<le> pr_read p \<and> (\<forall>w v. pr_writes p w = Some v \<longrightarrow> 0 \<le> v) \<and> list_all adds (pr_todo p)"

definition conf_safe :: "conf \<Rightarrow> bool" where
  "conf_safe c \<longleftrightarrow> (\<forall>w. 0 \<le> cf_balance c w) \<and> list_all proc_safe (cf_procs c)"

lemma seen_safe: "conf_safe c \<Longrightarrow> p \<in> set (cf_procs c) \<Longrightarrow> 0 \<le> seen c p w"
  by (auto simp: conf_safe_def seen_def list_all_iff proc_safe_def split: option.split)

lemma conf_safe_setProc: "conf_safe c \<Longrightarrow> proc_safe q \<Longrightarrow> conf_safe (setProc i q c)"
  using set_update_subset_insert [of "cf_procs c" i q]
  by (auto simp: conf_safe_def setProc_def list_all_iff)

lemma proc_safe_moves:
  assumes "moves_on c i p q" and "proc_safe p" and "\<And>w. 0 \<le> seen c p w"
  shows "proc_safe q"
  using assms(1,2) assms(3)
  by (induction rule: moves_on.induct) (auto simp: proc_safe_def rolledBack_def wrote_def)

lemma conf_safe_step:
  assumes safe: "conf_safe c" and "nextStep i c = Some d"
  shows "conf_safe d"
  using assms(2)
proof (cases rule: nextStep_cases)
  case commit
  let ?p = "cf_procs c ! i"
  have "?p \<in> set (cf_procs c)" using commit(1) by simp
  note now = seen_safe [OF safe this]
  have "proc_safe ?p" using safe commit(1) by (simp add: conf_safe_def list_all_length)
  then have "proc_safe (?p\<lparr>pr_writes := Map.empty, pr_rows := [], pr_outcome := Committed\<rparr>)"
    by (simp add: proc_safe_def)
  then show ?thesis
    using safe now by (simp add: commit conf_safe_def committed_def list_all_length nth_list_update)
next
  case (moved q)
  have "cf_procs c ! i \<in> set (cf_procs c)" using moved(1) by simp
  moreover have "proc_safe (cf_procs c ! i)" using safe moved(1) by (simp add: conf_safe_def list_all_length)
  ultimately show ?thesis
    using proc_safe_moves [OF moved(2)] seen_safe [OF safe] conf_safe_setProc [OF safe] moved(3) by blast
qed

lemma conf_safe_frozen: "conf_safe (c\<lparr>cf_frozen := f\<rparr>) = conf_safe c"
  by (simp add: conf_safe_def)

lemma conf_safe_interleaves: "interleaves c d \<Longrightarrow> conf_safe c \<Longrightarrow> conf_safe d"
  by (induction rule: interleaves.induct) (auto intro: conf_safe_step simp: conf_safe_frozen)

lemma conf_safe_started:
  "(\<forall>w. 0 \<le> b w) \<Longrightarrow> list_all amounts_ok ops \<Longrightarrow> conf_safe (started b f (map programOf ops))"
proof -
  have "amounts_ok p \<Longrightarrow> list_all adds (programOf p)" for p
    by (cases p) (simp_all add: debitProgram_def creditProgram_def transferProgram_def)
  then show "(\<forall>w. 0 \<le> b w) \<Longrightarrow> list_all amounts_ok ops \<Longrightarrow> conf_safe (started b f (map programOf ops))"
    by (auto simp: conf_safe_def started_def list_all_iff proc_safe_def begun_def)
qed


section \<open>Relative updates add up\<close>

fun pending :: "ident \<Rightarrow> stmt \<Rightarrow> rat" where
  "pending w (WriteRow v x) = (if v = w then x else 0)"
| "pending w (CreditBy v x) = (if v = w then - x else 0)"
| "pending w (DebitWhere v x) = (if v = w then x else 0)"
| "pending w _ = 0"

text \<open>What a transaction's own view of a balance differs by from the committed one.\<close>

definition owed :: "process \<Rightarrow> ident \<Rightarrow> rat" where
  "owed p w = rowsOf w (pr_rows p) + sum_list (map (pending w) (pr_todo p))"

fun relative :: "stmt \<Rightarrow> bool" where
  "relative (StoreRead w x) \<longleftrightarrow> False"
| "relative _ \<longleftrightarrow> True"

definition proc_books :: "conf \<Rightarrow> process \<Rightarrow> bool" where
  "proc_books c p \<longleftrightarrow> list_all relative (pr_todo p) \<and> (\<forall>w. seen c p w = cf_balance c w + owed p w)"

definition exclusive :: "process list \<Rightarrow> bool" where
  "exclusive ps \<longleftrightarrow> (\<forall>i < length ps. \<forall>j < length ps. i \<noteq> j \<longrightarrow> dom (pr_writes (ps ! i)) \<inter> dom (pr_writes (ps ! j)) = {})"

definition conf_books :: "(ident \<Rightarrow> rat) \<Rightarrow> conf \<Rightarrow> bool" where
  "conf_books b c \<longleftrightarrow> (\<forall>w. cf_balance c w = b w + rowsOf w (cf_rows c)) \<and>
     (\<forall>p \<in> set (cf_procs c). pr_outcome p = Running \<longrightarrow> proc_books c p) \<and> exclusive (cf_procs c)"

lemma seen_setProc [simp]: "seen (setProc i q c) p = seen c p"
  by (rule ext) (simp add: seen_def setProc_def split: option.split)

lemma proc_books_setProc [simp]: "proc_books (setProc i q c) p = proc_books c p"
  by (simp add: proc_books_def) (simp add: setProc_def)

lemma exclusive_update:
  assumes "exclusive ps" and "i < length ps"
    and "\<And>w j. pr_writes q w \<noteq> None \<Longrightarrow> j < length ps \<Longrightarrow> j \<noteq> i \<Longrightarrow> pr_writes (ps ! j) w = None"
  shows "exclusive (ps[i := q])"
proof -
  have "dom (pr_writes q) \<inter> dom (pr_writes (ps ! j)) = {}" if "j < length ps" "j \<noteq> i" for j
    using assms(3) [OF _ that] by auto
  then show ?thesis using assms(1,2) by (auto simp: exclusive_def nth_list_update Int_commute)
qed

lemma held_free: "\<not> heldByOther c i w \<Longrightarrow> j < length (cf_procs c) \<Longrightarrow> j \<noteq> i \<Longrightarrow> pr_writes (cf_procs c ! j) w = None"
  by (auto simp: heldByOther_def list_ex_iff)

lemma exclusive_other:
  "exclusive ps \<Longrightarrow> i < length ps \<Longrightarrow> j < length ps \<Longrightarrow> j \<noteq> i \<Longrightarrow> pr_writes (ps ! i) w \<noteq> None \<Longrightarrow> pr_writes (ps ! j) w = None"
  unfolding exclusive_def by blast

lemma moves_exclusive:
  assumes "moves_on c i p q" and "p = cf_procs c ! i" and "i < length (cf_procs c)" and ex: "exclusive (cf_procs c)"
  shows "exclusive ((cf_procs c)[i := q])"
proof (rule exclusive_update [OF ex assms(3)])
  fix w j
  assume q: "pr_writes q w \<noteq> None" and j: "j < length (cf_procs c)" "j \<noteq> i"
  have own: "pr_writes p w \<noteq> None \<Longrightarrow> pr_writes (cf_procs c ! j) w = None"
    using exclusive_other [OF ex assms(3) j] assms(2) by simp
  show "pr_writes (cf_procs c ! j) w = None"
    using assms(1) q own held_free [OF _ j]
    by cases (auto simp: rolledBack_def wrote_def split: if_splits)
qed

lemma seen_wrote: "seen c (wrote p w v) u = (if u = w then v else seen c p u)"
  by (simp add: seen_def wrote_def)

lemma moves_books:
  assumes "moves_on c i p q" and "proc_books c p" and "pr_outcome q = Running"
  shows "proc_books c q"
  using assms
proof cases
  case (debits w x ss)
  then show ?thesis using assms(2) by (auto simp: proc_books_def seen_wrote) (auto simp: owed_def wrote_def)
next
  case (credits w x ss)
  then show ?thesis using assms(2) by (auto simp: proc_books_def seen_wrote) (auto simp: owed_def wrote_def)
qed (auto simp: proc_books_def rolledBack_def owed_def seen_def)

lemma conf_books_step:
  assumes books: "conf_books b c" and "nextStep i c = Some d"
  shows "conf_books b d"
  using assms(2)
proof (cases rule: nextStep_cases)
  case commit
  let ?p = "cf_procs c ! i"
  have bal: "cf_balance c w = b w + rowsOf w (cf_rows c)" for w using books by (simp add: conf_books_def)
  have ex: "exclusive (cf_procs c)" using books by (simp add: conf_books_def)
  have "pr_outcome ?p = Running" using assms(2) by (simp add: nextStep_def split: if_splits)
  then have now: "seen c ?p w = cf_balance c w + rowsOf w (pr_rows ?p)" for w
    using books commit(1,2) by (simp add: conf_books_def proc_books_def owed_def)
  have other: "seen d q w = cf_balance d w + owed q w"
    if q: "q = cf_procs c ! j" "j < length (cf_procs c)" "j \<noteq> i" "pr_outcome q = Running" for q j w
  proof -
    have view: "seen c q w = cf_balance c w + owed q w"
      using books q by (simp add: conf_books_def proc_books_def)
    have new: "cf_balance d w = seen c ?p w" by (simp add: commit(3) committed_def)
    show ?thesis
    proof (cases "pr_writes ?p w")
      case None
      then have "cf_balance d w = cf_balance c w" using new by (simp add: seen_def)
      then show ?thesis using view by (simp add: seen_def split: option.splits)
    next
      case (Some v)
      then have "pr_writes q w = None" using exclusive_other [OF ex commit(1) q(2,3), of w] q(1) by simp
      then show ?thesis using view by (simp add: seen_def)
    qed
  qed
  let ?e = "?p\<lparr>pr_writes := Map.empty, pr_rows := [], pr_outcome := Committed\<rparr>"
  have "proc_books d q" if mem: "q \<in> set (cf_procs d)" "pr_outcome q = Running" for q
  proof -
    obtain j where j: "j < length (cf_procs c)" "q = ((cf_procs c)[i := ?e]) ! j"
      using mem(1) by (auto simp: commit(3) committed_def in_set_conv_nth)
    then have "j \<noteq> i" using mem(2) by auto
    then show ?thesis
      using other [of q j] j mem(2) books by (simp add: conf_books_def proc_books_def)
  qed
  moreover have "exclusive (cf_procs d)"
    using exclusive_update [OF ex commit(1), of ?e] by (simp add: commit(3) committed_def)
  moreover have "cf_balance d w = b w + rowsOf w (cf_rows d)" for w
    by (simp add: commit(3) committed_def now bal)
  ultimately show ?thesis by (simp add: conf_books_def)
next
  case (moved q)
  let ?p = "cf_procs c ! i"
  have "pr_outcome ?p = Running" using assms(2) by (simp add: nextStep_def split: if_splits)
  then have "proc_books c ?p" using books moved(1) by (simp add: conf_books_def)
  then have q: "pr_outcome q = Running \<Longrightarrow> proc_books c q" by (rule moves_books [OF moved(2)])
  have "exclusive (cf_procs d)"
    using moves_exclusive [OF moved(2) refl moved(1)] books by (simp add: moved(3) setProc_def conf_books_def)
  moreover have "proc_books d r" if "r \<in> set (cf_procs d)" "pr_outcome r = Running" for r
  proof -
    have "r = q \<or> r \<in> set (cf_procs c)"
      using that(1) set_update_subset_insert [of "cf_procs c" i q] by (auto simp: moved(3) setProc_def)
    then have "proc_books c r" using q that(2) books by (auto simp: conf_books_def)
    then show ?thesis by (simp add: moved(3))
  qed
  ultimately show ?thesis using books by (simp add: conf_books_def moved(3)) (simp add: setProc_def)
qed

lemma conf_books_frozen: "conf_books b (c\<lparr>cf_frozen := f\<rparr>) = conf_books b c"
proof -
  have "seen (c\<lparr>cf_frozen := f\<rparr>) p w = seen c p w" for p w by (simp add: seen_def split: option.split)
  then show ?thesis by (simp add: conf_books_def proc_books_def)
qed

lemma conf_books_interleaves: "interleaves c d \<Longrightarrow> conf_books b c \<Longrightarrow> conf_books b d"
  by (induction rule: interleaves.induct) (auto intro: conf_books_step simp: conf_books_frozen)

lemma conf_books_started:
  assumes "list_all isMove ops"
  shows "conf_books b (started b f (map programOf ops))"
proof -
  let ?c = "started b f (map programOf ops)"
  have "proc_books ?c (begun (programOf p))" if "isMove p" for p
    using that by (cases p) (auto simp: isMove_def proc_books_def begun_def seen_def started_def owed_def
        debitProgram_def creditProgram_def)
  moreover have "exclusive (cf_procs ?c)" by (simp add: exclusive_def started_def begun_def)
  ultimately show ?thesis using assms by (auto simp: conf_books_def started_def list_all_iff)
qed


section \<open>Alone, a transaction does what the sequential model does\<close>

definition balances :: "db \<Rightarrow> ident \<Rightarrow> rat" where
  "balances d i = (case findWalletById i d of Some w \<Rightarrow> w_balance w | None \<Rightarrow> 0)"

definition frozen :: "db \<Rightarrow> ident \<Rightarrow> bool" where
  "frozen d i \<longleftrightarrow> (case findWalletById i d of Some w \<Rightarrow> w_status w = WalletFROZEN | None \<Rightarrow> False)"

definition moveProgram :: "bool \<Rightarrow> wallet_tx_type \<Rightarrow> ident \<Rightarrow> rat \<Rightarrow> stmt list" where
  "moveProgram ignoreFrozen ty w amount =
     (if isDebitMove ty amount then debitProgram ignoreFrozen w \<bar>amount\<bar> else creditProgram ignoreFrozen w \<bar>amount\<bar>)"

definition entryOf :: "wallet_tx_row \<Rightarrow> ledger_entry" where
  "entryOf t = \<lparr>le_wallet = t_wallet t, le_amount = t_amount t, le_before = t_balanceBefore t, le_after = t_balanceAfter t\<rparr>"

lemma balances_post:
  assumes "wallets_keyed d" and "w \<in> set (wallets d)" and "t_wallet row = w_id w"
  shows "balances (post row d) = (balances d)(w_id w := t_balanceAfter row)"
proof
  fix i
  have one: "findWalletById (w_id w) d = Some w" by (rule findWalletById_mem [OF assms(1,2)])
  have "findWalletById i (post row d) =
      map_option (\<lambda>v. if w_id v = w_id w then v\<lparr>w_balance := t_balanceAfter row\<rparr> else v) (findWalletById i d)"
    using assms(3) by (simp add: findWalletById_def post_def find_updateWhere)
  then show "balances (post row d) i = ((balances d)(w_id w := t_balanceAfter row)) i"
    using one by (auto simp: balances_def findWalletById_def dest: find_SomeD split: option.split)
qed


lemmas step_defs = started_def begun_def nextStep_def setProc_def seen_def heldByOther_def wrote_def
  rolledBack_def committed_def

text \<open>The end of a transaction that runs without others.\<close>

definition alone :: "(ident \<Rightarrow> rat) \<Rightarrow> (ident \<Rightarrow> bool) \<Rightarrow> stmt list \<Rightarrow> conf" where
  "alone b f program = runSchedule (replicate (Suc (length program)) 0) (started b f [program])"

lemma alone_frozen:
  "f w \<Longrightarrow> \<not> g \<Longrightarrow> program \<in> {debitProgram g w x, creditProgram g w x} \<Longrightarrow> alone b f program =
     \<lparr>cf_balance = b, cf_frozen = f, cf_rows = [],
      cf_procs = [\<lparr>pr_todo = [], pr_read = 0, pr_writes = Map.empty, pr_rows = [], pr_outcome = RolledBack\<rparr>]\<rparr>"
  by (auto simp: alone_def debitProgram_def creditProgram_def step_defs Let_def)

lemma alone_debit:
  "\<not> f w \<or> g \<Longrightarrow> x \<le> b w \<Longrightarrow> alone b f (debitProgram g w x) =
     \<lparr>cf_balance = b(w := b w - x), cf_frozen = f,
      cf_rows = [\<lparr>le_wallet = w, le_amount = - x, le_before = b w, le_after = b w - x\<rparr>],
      cf_procs = [\<lparr>pr_todo = [], pr_read = b w, pr_writes = Map.empty, pr_rows = [], pr_outcome = Committed\<rparr>]\<rparr>"
  "\<not> f w \<or> g \<Longrightarrow> b w < x \<Longrightarrow> alone b f (debitProgram g w x) =
     \<lparr>cf_balance = b, cf_frozen = f, cf_rows = [],
      cf_procs = [\<lparr>pr_todo = [], pr_read = b w, pr_writes = Map.empty, pr_rows = [], pr_outcome = RolledBack\<rparr>]\<rparr>"
  by (cases g; auto simp: alone_def debitProgram_def step_defs Let_def fun_eq_iff)+

lemma alone_credit:
  "\<not> f w \<or> g \<Longrightarrow> alone b f (creditProgram g w x) =
     \<lparr>cf_balance = b(w := b w + x), cf_frozen = f,
      cf_rows = [\<lparr>le_wallet = w, le_amount = x, le_before = b w, le_after = b w + x\<rparr>],
      cf_procs = [\<lparr>pr_todo = [], pr_read = b w, pr_writes = Map.empty, pr_rows = [], pr_outcome = Committed\<rparr>]\<rparr>"
  by (cases g; auto simp: alone_def creditProgram_def step_defs Let_def fun_eq_iff)

section \<open>Properties\<close>

text \<open>C5: overdraft is impossible under concurrency: whatever movements and transfers run, however their
  statements interleave and whichever of them are refused, no committed balance ever becomes
  negative.\<close>

theorem concurrent_no_overdraft:
  assumes "\<forall>w. 0 \<le> b w" and "list_all amounts_ok ops"
    and "interleaves (started b f (map programOf ops)) c"
  shows "0 \<le> cf_balance c w"
  using conf_safe_interleaves [OF assms(3) conf_safe_started [OF assms(1,2)]] by (simp add: conf_safe_def)

definition two_debits :: conf where
  "two_debits = runSchedule [0, 1, 0, 1, 0, 1, 0, 0, 1, 1]
     (started (\<lambda>_. 100) (\<lambda>_. False) (map programOf [Debit False 0 60, Debit False 0 60]))"

theorem concurrent_no_overdraft_witness:
  "map pr_outcome (cf_procs two_debits) = [Committed, RolledBack] \<and> cf_balance two_debits 0 = 40 \<and>
   0 \<le> cf_balance two_debits 0"
proof -
  have "interleaves (started (\<lambda>_. 100) (\<lambda>_. False) (map programOf [Debit False 0 60, Debit False 0 60])) two_debits"
    unfolding two_debits_def by (rule runSchedule_interleaves [OF interleaves.start])
  then have "0 \<le> cf_balance two_debits 0" by (rule concurrent_no_overdraft [rotated 2]) simp_all
  moreover have "map pr_outcome (cf_procs two_debits) = [Committed, RolledBack] \<and> cf_balance two_debits 0 = 40"
    by (simp add: two_debits_def debitProgram_def step_defs Let_def)
  ultimately show ?thesis by simp
qed

text \<open>C6: movements never lose an update: for any interleaving of single-wallet movements, each wallet's
  committed balance is its balance at the start plus the amounts of the committed ledger rows of that
  wallet.\<close>

theorem concurrent_moves_add_up:
  assumes "list_all isMove ops" and "interleaves (started b f (map programOf ops)) c"
  shows "cf_balance c w = b w + rowsOf w (cf_rows c)"
  using conf_books_interleaves [OF assms(2) conf_books_started [OF assms(1)]] by (simp add: conf_books_def)

definition two_credits :: conf where
  "two_credits = runSchedule [0, 1, 0, 0, 0, 1, 1, 1]
     (started (\<lambda>_. 100) (\<lambda>_. False) (map programOf [Credit False 0 20, Credit False 0 30]))"

theorem concurrent_moves_add_up_witness:
  "map pr_outcome (cf_procs two_credits) = [Committed, Committed] \<and>
   cf_balance two_credits 0 = 100 + rowsOf 0 (cf_rows two_credits) \<and> cf_balance two_credits 0 = 150"
proof -
  have "interleaves (started (\<lambda>_. 100) (\<lambda>_. False) (map programOf [Credit False 0 20, Credit False 0 30])) two_credits"
    unfolding two_credits_def by (rule runSchedule_interleaves [OF interleaves.start])
  then have "cf_balance two_credits 0 = 100 + rowsOf 0 (cf_rows two_credits)"
    using concurrent_moves_add_up [of "[Credit False 0 20, Credit False 0 30]" "\<lambda>_. 100" "\<lambda>_. False" two_credits 0] by (simp add: isMove_def)
  moreover have "map pr_outcome (cf_procs two_credits) = [Committed, Committed] \<and> cf_balance two_credits 0 = 150"
    by (simp add: two_credits_def creditProgram_def step_defs Let_def)
  ultimately show ?thesis by simp
qed

text \<open>C7: a transaction that runs alone does what the sequential model of \<open>move\<close> says: with cents in the
  balance and the amount, it commits exactly when the model accepts the movement, with the same
  ledger row and the same balances, and is rolled back exactly when the model refuses it, because the
  wallet is frozen or for lack of funds.\<close>

theorem move_alone_is_sequential:
  assumes keyed: "wallets_keyed d" and w: "w \<in> set (wallets d)" 
    and cents: "is_cents (w_balance w)" "is_cents amount"
    and c: "c = alone (balances d) (frozen d) (moveProgram (mv_ignoreFrozen inp) (mv_txType inp) (w_id w) amount)"
  shows "(case moveTx e inp w amount d of
      (Inl err, d') \<Rightarrow> err \<in> {Forbidden INSUFFICIENT_FUNDS, Forbidden WALLET_FROZEN} \<and> map pr_outcome (cf_procs c) = [RolledBack] \<and>
        cf_rows c = [] \<and> cf_balance c = balances d'
    | (Inr row, d') \<Rightarrow> map pr_outcome (cf_procs c) = [Committed] \<and>
        cf_rows c = [entryOf row] \<and> cf_balance c = balances d')"
proof -
  have b: "balances d (w_id w) = w_balance w" using findWalletById_mem [OF keyed w] by (simp add: balances_def)
  let ?row = "moveRow e inp w amount d"
  have row: "t_wallet ?row = w_id w" by (simp add: moveRow_def Let_def)
  have r: "round2 (w_balance w) = w_balance w" "round2 \<bar>amount\<bar> = \<bar>amount\<bar>" "round2 (- \<bar>amount\<bar>) = - \<bar>amount\<bar>"
    "round2 (w_balance w + \<bar>amount\<bar>) = w_balance w + \<bar>amount\<bar>" "round2 (w_balance w - \<bar>amount\<bar>) = w_balance w - \<bar>amount\<bar>"
    using cents by (simp_all add: round2_cents)
  have entry: "entryOf ?row = (if isDebitMove (mv_txType inp) amount
      then \<lparr>le_wallet = w_id w, le_amount = - \<bar>amount\<bar>, le_before = w_balance w, le_after = w_balance w - \<bar>amount\<bar>\<rparr>
      else \<lparr>le_wallet = w_id w, le_amount = \<bar>amount\<bar>, le_before = w_balance w, le_after = w_balance w + \<bar>amount\<bar>\<rparr>)"
    by (simp add: entryOf_def moveRow_def Let_def r)
  have "t_balanceAfter ?row = le_after (entryOf ?row)" by (simp add: entryOf_def)
  then have new: "balances (post ?row d) = (balances d)(w_id w := le_after (entryOf ?row))"
    by (simp add: balances_post [OF keyed w row])
  have f: "frozen d (w_id w) \<longleftrightarrow> w_status w = WalletFROZEN"
    using findWalletById_mem [OF keyed w] by (simp add: frozen_def)
  show ?thesis
    by (auto simp: c moveProgram_def moveTx_run [OF keyed w] alone_frozen [where w = "w_id w" and x = "\<bar>amount\<bar>" and g = False]
        alone_debit alone_credit b f new entry not_less)
qed


text \<open>What the ledger loses under concurrency. A transfer stores the sum of the balance it has read and
  its amount, so a deposit that commits between the two is overwritten: the deposit's row stays and its
  money is gone. And two deposits that both read before either writes leave rows that start from the
  same balance, so the rows of a wallet no longer form a chain.\<close>

theorem transfer_loses_deposit:
  "(let c = runSchedule [0, 0, 0, 0, 0, 1, 1, 1, 1, 0, 0, 0]
       (started (\<lambda>_. 100) (\<lambda>_. False) (map programOf [Transfer 0 1 51 50, Credit False 1 30])) in
     map pr_outcome (cf_procs c) = [Committed, Committed] \<and> cf_balance c 1 = 150 \<and>
     100 + rowsOf 1 (cf_rows c) = 180) \<and>
   (let c = two_credits in map (\<lambda>r. (le_before r, le_after r)) (cf_rows c) = [(100, 120), (100, 130)] \<and>
     cf_balance c 0 = 150)"
  by (simp add: two_credits_def creditProgram_def transferProgram_def step_defs Let_def rowsOf_def)


theorem move_alone_is_sequential_witness:
  "map pr_outcome (cf_procs (alone (balances sample_db) (frozen sample_db) (moveProgram False PAYOUT_DEBIT 1 40))) = [Committed] \<and>
   map le_after (cf_rows (alone (balances sample_db) (frozen sample_db) (moveProgram False PAYOUT_DEBIT 1 40))) = [60]"
proof -
  let ?w = "hd (wallets sample_db)"
  have keyed: "wallets_keyed sample_db" using sample_db_ok by (rule ledger_keyed)
  have w: "?w \<in> set (wallets sample_db)" "w_status ?w \<noteq> WalletFROZEN" "is_cents (w_balance ?w)" "is_cents 40"
    and i: "w_id ?w = 1" "w_balance ?w = 100"
    by (simp_all add: sample_db_def empty_db_def is_cents_def)
  have ty: "mv_txType (sample_move PAYOUT_DEBIT 40) = PAYOUT_DEBIT"
    "mv_ignoreFrozen (sample_move PAYOUT_DEBIT 40) = False" by (simp_all add: sample_move_def)
  note run = move_alone_is_sequential [OF keyed w(1,3,4) refl, where e = default_env and inp = "sample_move PAYOUT_DEBIT 40", unfolded ty(1,2) i(1)]
  have "moveTx default_env (sample_move PAYOUT_DEBIT 40) ?w 40 sample_db =
      (Inr (moveRow default_env (sample_move PAYOUT_DEBIT 40) ?w 40 sample_db),
       post (moveRow default_env (sample_move PAYOUT_DEBIT 40) ?w 40 sample_db) sample_db)"
    using i w(2) by (simp add: moveTx_run [OF keyed w(1)] ty)
  then show ?thesis using run i
    by (simp add: entryOf_def moveRow_def Let_def ty isDebitMove_def DEBIT_TYPES_def round2_cents is_cents_def)
qed

section \<open>Two deliveries of one report\<close>

text \<open>What the status engine does once it has read the collection.\<close>

definition collectionAfterRead :: "env \<Rightarrow> provider_record \<Rightarrow> collection_row \<Rightarrow> (db, applied) action" where
  "collectionAfterRead e rc c =
     (let nextStatus = mapProviderStatus (pr_status rc);
          alreadyFinal = c_status c \<in> set FINAL_STATUSES;
          shouldCredit = collectionCredits nextStatus c
      in if collectionSkips nextStatus c then ret (True, Some nextStatus)
         else
           andThen (collectionFee shouldCredit (c_account c) (collectionGross rc c)) (\<lambda>fee.
           andThen (toDecimal (pr_collectedAmount rc)) (\<lambda>collected.
           let patch = collectionPatch e rc nextStatus shouldCredit fee collected;
               updated = patch c in
           thenDo (modify (updateCollection (c_id c) patch))
           (thenDo (if shouldCredit
              then thenDo (collectionCreditMove e c updated fee) (ret ()) else ret ())
           (thenDo (if alreadyFinal then ret ()
              else thenDo (dispatch e COLLECTION_STATUS (c_account c) (c_reference c)
                     (collectionEvent rc nextStatus shouldCredit updated)) (ret ()))
           (thenDo (track e (eventName ''collection'' nextStatus) (Some (RowId (c_account c)))
                      (Some (c_amount updated)))
            (ret (True, Some nextStatus))))))))"

lemma applyCollectionUpdate_reads_first:
  "applyCollectionUpdate e ref rc =
     andThen (query (findCollection ref)) (\<lambda>found. case found of None \<Rightarrow> ret (False, None) | Some c \<Rightarrow> collectionAfterRead e rc c)"
  unfolding applyCollectionUpdate_def collectionAfterRead_def ..

text \<open>The status engine reads the collection and acts on what it read without taking it: when two
  deliveries of one success report (a webhook and the poller) both read before either writes, each finds
  the collection uncredited, and its account is credited twice. One after the other they credit it once.\<close>

theorem double_delivery_credits_twice:
  "findCollection ''OUT1'' sample_status_db = Some sample_collection \<and>
   (let deliver = (\<lambda>d. snd (collectionAfterRead default_env (sample_record ''SUCCESS'') sample_collection d));
        apply = (\<lambda>d. snd (applyCollectionUpdate default_env ''OUT1'' (sample_record ''SUCCESS'') d))
    in balanceOf 0 WCOLLECTION (apply sample_status_db) = Some 290 \<and>
       balanceOf 0 WCOLLECTION (apply (apply sample_status_db)) = Some 290 \<and>
       balanceOf 0 WCOLLECTION (deliver (deliver sample_status_db)) = Some 480)"
  by code_simp

end
