(* ===== verification/Spec2Isabelle.thy ===== *)
theory Spec2Isabelle
  imports Pagination Isolation RailClients Races
begin

text \<open>
  Verification of the Zoostudios cloud platform backend, the NestJS application under src/src/: accounts
  that collect and disburse money through a payment provider, with wallets, fees, settlements, SMS,
  billing and webhooks.

  How the program hangs together. A request passes the guards of its route (an account's API key with its
  service permissions, or a staff token with its role), the validation of its body, and reaches a method of
  a controller, which calls a service. Services keep no state of their own but rows of the database. Money is
  in wallets, two per account (COLLECTION and DISBURSEMENT), each with a ledger. Collections and
  deposits ask a payer to pay through the ClickPesa rail; payouts, withdrawals, sweeps and batches hold
  the amount and its fee on a wallet and pay it out through the rail by queue jobs. What becomes of
  them is decided by one status engine, fed by the provider's webhooks, by polling crons and by
  refresh requests; it credits, refunds and notifies the account's webhook endpoints through the queue.

  How it is modelled. The database is a record of tables, lists of rows (Schema, after
  prisma/schema.prisma). An \<open>async\<close> method is a function from the database to a result, an error or
  a value, and the new database (Prelude); writes before an error stay, unless they stand in
  \<open>transaction\<close>. Prisma decimals are rationals, rounded to cents where a column or \<open>toFixed(2)\<close> rounds
  them. The clock, the random draws, HMAC and SHA-256, bcrypt, the JWT library, class-validator's own
  checks and the answers of the rails are parameters. A request is one step, except in Queue, System and
  Races, where workers, cron runs and transactions interleave.

  Theories, in the order of their imports, with the files under src/src/ they model:

  \<^item> Prelude, Strings, Schema: errors and actions, JavaScript's strings, the tables (prisma/schema.prisma),
    the configuration, audit and analytics inserts. \<open>keeps\<close> is the invariant calculus: one rule for each
    combinator, so the invariant of an operation follows from those of its steps.
  \<^item> Phone, Reference, Checksum, Pagination: common/utils and the pagination middleware. Payloads that
    differ in the order of keys or in checksum fields have one checksum, which verifies.
  \<^item> Fees, Wallets, Book: fees/fees.service.ts and wallets/wallets.service.ts. The locale \<open>fee_schedule\<close> says
    what a service relies on of a fee, \<open>wallet_ledger\<close> what a service that holds and returns money relies on
    of the ledger; both are interpreted on the code's definitions. Book is the abstract specification:
    a map from account and wallet type to a balance and a frozen flag, with a simulation proof (locale
    \<open>simulation\<close>) that any sequence of movements and freezes refines it, answer by answer.
  \<^item> Queue, Webhooks: iii/queue.service.ts and webhooks/webhooks.service.ts. The queue is a step relation of
    workers that claim, finish, fail and die; reachable states keep each job with at most one worker,
    and the work is bounded by the attempts a job has.
  \<^item> Providers, TxnStatus, Receiver: the rails as the services see them and the in-process mocks
    (providers), the status engine (webhooks/txn-status.service.ts) and the provider's webhooks
    (webhooks/webhook-receiver.controller.ts). For any sequence of reports each collection and deposit is
    credited at most once and each payout refunded at most once.
  \<^item> Collections, Disbursements, Settlements: the services of the same names and deposits. Each request
    moves exactly the amount and the fee it should, on every branch; payout links pay once; the sweep
    settles every eligible wallet.
  \<^item> Accounts, Access, Sms, Billing, Admin: the remaining services, the guards, the routes with their
    guards and the login.
  \<^item> Validation, Api: the body classes (dto), the exception filter, the response envelope, and the methods
    of the controllers that move money: guards, then validation, then the service.
  \<^item> System: the whole platform. \<open>platform_ok\<close> is its invariant (ledgers, fee schedules, account tables,
    unique references); \<open>keeps_platform\<close> collects one lemma for each operation; \<open>reachable\<close> is every
    database that requests, provider webhooks, worker rounds, cron runs and administration can make of the
    seeded empty one. Cron runs of one job never overlap.
  \<^item> Isolation: an account's requests leave every other account's balances as they are.
  \<^item> RailClients: clickpesa/clickpesa.client.ts and beem/beem.client.ts over a network that may answer
    anything: the token cache and the one retry, signing, redaction, the wire formats.
  \<^item> Races: the statements of the wallet transactions interleaved under the database's default isolation:
    no overdraft and no lost movement, but a transfer can overwrite a deposit; and two concurrent
    deliveries of one report.

  Bounds and fuel. Loops of the code that are bounded in the source carry its bound as an argument: fifty and
  twenty-five draws of a source code, the batch sizes of the crons, the free slots of a worker round. A
  ClickPesa request recurses once at most, by a measure on its \<open>retried\<close> flag. No other definition has
  fuel.

  Not modelled. The portals (src/frontend) render the routes of the backend and keep no state of the
  platform. Tracing, logging and the driver of an external engine are observability: no service reads them
  back but the trace pages of the administration. Dependency injection, throttling, CORS and the
  bootstrap are configuration of libraries. Free-text and opaque JSON columns that no code reads back are
  left out of the tables. The conversion of body values by class-transformer happens before the
  validation modelled here. Cron expressions are left out, since a job may fire at any time.
\<close>

end
